theory Spec2Isabelle
  imports Complex_Main "HOL-Library.Multiset" "HOL-Library.Sublist"
begin

section \<open>Strings and text normalisation (internal/dom/text.go)\<close>

text \<open>
  A Go string is modelled by the list of its code points, the view that
  \<^verbatim>\<open>for _, r := range text\<close> and \<^verbatim>\<open>[]rune(text)\<close> give of a valid UTF-8 string.
  The byte length \<^verbatim>\<open>len(s)\<close> is then the sum of the UTF-8 widths of the code points.
  Go's \<^verbatim>\<open>int\<close> is modelled by \<open>int\<close>: every integer below is a length or a count
  of a string held in memory, far from 64-bit overflow.  A \<^verbatim>\<open>float64\<close> is modelled by
  \<open>real\<close>; the scores are sums of small integers and halves, which float64 holds
  exactly, and the only rounded operations are the link-density quotient and the
  refinement product.
\<close>

type_synonym rune = nat
type_synonym gostring = "rune list"

definition runes :: "string \<Rightarrow> gostring" where
  "runes s = map of_char s"

text \<open>\<^verbatim>\<open>utf8.RuneLen\<close> and \<^verbatim>\<open>len(s)\<close> for a string given by its code points.\<close>

definition RuneLen :: "rune \<Rightarrow> int" where
  "RuneLen r = (if r < 0x80 then 1 else if r < 0x800 then 2 else if r < 0x10000 then 3 else 4)"

definition go_len :: "gostring \<Rightarrow> int" where
  "go_len s = sum_list (map RuneLen s)"

text \<open>\<^verbatim>\<open>unicode.IsSpace\<close>: the White_Space property.\<close>

definition IsSpace :: "rune \<Rightarrow> bool" where
  "IsSpace r = (r = 0x09 \<or> r = 0x0A \<or> r = 0x0B \<or> r = 0x0C \<or> r = 0x0D \<or> r = 0x20
     \<or> r = 0x85 \<or> r = 0xA0 \<or> r = 0x1680 \<or> (0x2000 \<le> r \<and> r \<le> 0x200A)
     \<or> r = 0x2028 \<or> r = 0x2029 \<or> r = 0x202F \<or> r = 0x205F \<or> r = 0x3000)"

text \<open>The class \<^verbatim>\<open>\s\<close> of Go's regexp package: \<^verbatim>\<open>[\t\n\f\r ]\<close>.\<close>

definition re_space :: "rune \<Rightarrow> bool" where
  "re_space r = (r = 0x09 \<or> r = 0x0A \<or> r = 0x0C \<or> r = 0x0D \<or> r = 0x20)"

text \<open>
  \<^verbatim>\<open>whitespaceRegex.ReplaceAllString(text, " ")\<close> with \<^verbatim>\<open>\s+\<close>: every maximal run of
  \<^verbatim>\<open>\s\<close> runes becomes one space.  The flag says that the scan is inside a run.
\<close>

fun collapse_ws :: "bool \<Rightarrow> gostring \<Rightarrow> gostring" where
  "collapse_ws in_run [] = []"
| "collapse_ws in_run (r # rs) =
     (if re_space r then (if in_run then collapse_ws True rs else 0x20 # collapse_ws True rs)
      else r # collapse_ws False rs)"

definition TrimSpace :: "gostring \<Rightarrow> gostring" where
  "TrimSpace s = rev (dropWhile IsSpace (rev (dropWhile IsSpace s)))"

definition NormalizeText :: "gostring \<Rightarrow> gostring" where
  "NormalizeText text = TrimSpace (collapse_ws False text)"

text \<open>\<^verbatim>\<open>CountWords\<close>: the loop carries \<^verbatim>\<open>count\<close> (here \<open>cnt\<close>) and \<^verbatim>\<open>inWord\<close>; the last
  equation is the \<^verbatim>\<open>if inWord { count++ }\<close> after the loop.\<close>

fun CountWords_loop :: "int \<Rightarrow> bool \<Rightarrow> gostring \<Rightarrow> int" where
  "CountWords_loop cnt inWord [] = (if inWord then cnt + 1 else cnt)"
| "CountWords_loop cnt inWord (r # rs) =
     (if IsSpace r then
        (if inWord then CountWords_loop (cnt + 1) False rs
         else CountWords_loop cnt inWord rs)
      else CountWords_loop cnt True rs)"

definition CountWords :: "gostring \<Rightarrow> int" where
  "CountWords text0 =
     (let text = NormalizeText text0 in
      if text = [] then 0 else CountWords_loop 0 False text)"

text \<open>\<^verbatim>\<open>CountCommas\<close>: the ASCII comma and the fullwidth comma U+FF0C.\<close>

fun CountCommas_loop :: "int \<Rightarrow> gostring \<Rightarrow> int" where
  "CountCommas_loop cnt [] = cnt"
| "CountCommas_loop cnt (r # rs) =
     (if r = 0x2C \<or> r = 0xFF0C then CountCommas_loop (cnt + 1) rs
      else CountCommas_loop cnt rs)"

definition CountCommas :: "gostring \<Rightarrow> int" where
  "CountCommas text = CountCommas_loop 0 text"

text \<open>
  The whitespace-delimited tokens of a text, in the words of the specification: the
  maximal runs of runes that are not white space.  This definition is not taken from
  the code; \<open>CountWords\<close> is compared with it.
\<close>

fun split_ws :: "gostring \<Rightarrow> gostring \<Rightarrow> gostring list" where
  "split_ws cur [] = (if cur = [] then [] else [cur])"
| "split_ws cur (r # rs) =
     (if IsSpace r then (if cur = [] then split_ws [] rs else cur # split_ws [] rs)
      else split_ws (cur @ [r]) rs)"

definition ws_tokens :: "gostring \<Rightarrow> gostring list" where
  "ws_tokens text = split_ws [] text"

section \<open>The document tree (the goquery/html surface the code uses)\<close>

text \<open>
  A parsed document is a tree of \<^verbatim>\<open>html.Node\<close>s.  An element carries the identity of
  its node (the pointer that \<^verbatim>\<open>key.Get(0) == node\<close> compares), its tag name, its
  attribute list in order, and its children.  A forest (\<open>node list\<close>) stands for the
  children of the document node or of a selected element.
\<close>

datatype node =
    TextNode gostring
  | CommentNode gostring
  | Element nat string "(string \<times> gostring) list" "node list"

fun node_id :: "node \<Rightarrow> nat option" where
  "node_id (Element i t a cs) = Some i"
| "node_id _ = None"

fun children :: "node \<Rightarrow> node list" where
  "children (Element i t a cs) = cs"
| "children _ = []"

fun attrs :: "node \<Rightarrow> (string \<times> gostring) list" where
  "attrs (Element i t a cs) = a"
| "attrs _ = []"

text \<open>\<^verbatim>\<open>goquery.NodeName\<close> and \<^verbatim>\<open>dom.GetTagName\<close>.\<close>

fun GetTagName :: "node \<Rightarrow> string" where
  "GetTagName (Element i t a cs) = t"
| "GetTagName (TextNode _) = ''#text''"
| "GetTagName (CommentNode _) = ''#comment''"

text \<open>\<^verbatim>\<open>sel.Attr(name)\<close> is the first attribute of that name; \<^verbatim>\<open>dom.GetAttribute\<close>
  turns a missing one into the empty string.\<close>

definition Attr :: "node \<Rightarrow> string \<Rightarrow> gostring option" where
  "Attr n name = map_of (attrs n) name"

definition GetAttribute :: "node \<Rightarrow> string \<Rightarrow> gostring" where
  "GetAttribute n name = (case Attr n name of None \<Rightarrow> [] | Some v \<Rightarrow> v)"

text \<open>The identities of the elements of a tree, in document order.\<close>

fun ids :: "node \<Rightarrow> nat list" and ids_list :: "node list \<Rightarrow> nat list" where
  "ids (Element i t a cs) = i # ids_list cs"
| "ids (TextNode _) = []"
| "ids (CommentNode _) = []"
| "ids_list [] = []"
| "ids_list (n # ns) = ids n @ ids_list ns"

text \<open>\<^verbatim>\<open>sel.Text()\<close>: the data of the text nodes below a node, in document order.\<close>

fun Text :: "node \<Rightarrow> gostring" and Text_list :: "node list \<Rightarrow> gostring" where
  "Text (Element i t a cs) = Text_list cs"
| "Text (TextNode s) = s"
| "Text (CommentNode _) = []"
| "Text_list [] = []"
| "Text_list (n # ns) = Text n @ Text_list ns"

definition GetText :: "node \<Rightarrow> gostring" where
  "GetText sel = NormalizeText (Text sel)"

definition GetTextLength :: "node \<Rightarrow> int" where
  "GetTextLength sel = int (length (GetText sel))"

text \<open>
  \<^verbatim>\<open>sel.Find(selector)\<close> for a selector that tests one element (a tag name, a list of
  tag names, \<^verbatim>\<open>*\<close>, an attribute test): the matching elements below the node, in
  document order.  \<open>matching\<close> also tests the node itself.
\<close>

fun matching :: "(node \<Rightarrow> bool) \<Rightarrow> node \<Rightarrow> node list"
  and matching_list :: "(node \<Rightarrow> bool) \<Rightarrow> node list \<Rightarrow> node list" where
  "matching sel (Element i t a cs) =
     (if sel (Element i t a cs) then [Element i t a cs] else []) @ matching_list sel cs"
| "matching sel (TextNode _) = []"
| "matching sel (CommentNode _) = []"
| "matching_list sel [] = []"
| "matching_list sel (n # ns) = matching sel n @ matching_list sel ns"

definition Find :: "(node \<Rightarrow> bool) \<Rightarrow> node \<Rightarrow> node list" where
  "Find sel n = matching_list sel (children n)"

definition is_tag :: "string \<Rightarrow> node \<Rightarrow> bool" where
  "is_tag t n = (GetTagName n = t)"

definition any_element :: "node \<Rightarrow> bool" where
  "any_element n = (node_id n \<noteq> None)"

text \<open>\<^verbatim>\<open>GetLinkTextLength\<close> and \<^verbatim>\<open>CalculateLinkDensity\<close>.\<close>

definition GetLinkTextLength :: "node \<Rightarrow> int" where
  "GetLinkTextLength sel = foldl (\<lambda>totalLen s. totalLen + GetTextLength s) 0 (Find (is_tag ''a'') sel)"

definition CalculateLinkDensity :: "node \<Rightarrow> real" where
  "CalculateLinkDensity sel =
     (let textLen = GetTextLength sel in
      if textLen = 0 then 0
      else real_of_int (GetLinkTextLength sel) / real_of_int textLen)"

section \<open>Keyword classifier (internal/keywords)\<close>

text \<open>
  The two keyword lists are compiled into the patterns \<^verbatim>\<open>(?i)(kw1|kw2|...)\<close>, so
  \<^verbatim>\<open>MatchString\<close> holds when some keyword occurs in the string up to case folding.
  The keywords are lower-case ASCII letters and \<^verbatim>\<open>-\<close>; under Go's simple case
  folding a letter also matches its capital, \<^verbatim>\<open>k\<close> the Kelvin sign U+212A and
  \<^verbatim>\<open>s\<close> the long s U+017F.
\<close>

definition simple_fold :: "rune \<Rightarrow> rune" where
  "simple_fold r = (if 0x41 \<le> r \<and> r \<le> 0x5A then r + 0x20
     else if r = 0x212A then 0x6B else if r = 0x17F then 0x73 else r)"

fun has_prefix :: "gostring \<Rightarrow> gostring \<Rightarrow> bool" where
  "has_prefix [] s = True"
| "has_prefix (k # ks) [] = False"
| "has_prefix (k # ks) (r # rs) = (k = r \<and> has_prefix ks rs)"

text \<open>\<^verbatim>\<open>strings.Contains(s, sub)\<close>.\<close>

fun Contains :: "gostring \<Rightarrow> gostring \<Rightarrow> bool" where
  "Contains [] sub = (sub = [])"
| "Contains (r # rs) sub = (has_prefix sub (r # rs) \<or> Contains rs sub)"

definition blacklistKeywords :: "string list" where
  "blacklistKeywords = [''ad'', ''advertisement'', ''banner'', ''breadcrumbs'', ''combx'',
     ''comment'', ''community'', ''cover-wrap'', ''disqus'', ''extra'', ''footer'', ''gdpr'',
     ''header'', ''legends'', ''menu'', ''related'', ''remark'', ''replies'', ''rss'',
     ''shoutbox'', ''sidebar'', ''skyscraper'', ''social'', ''sponsor'', ''supplemental'',
     ''widget'', ''agegate'', ''pagination'', ''pager'', ''popup'', ''print'', ''archive'',
     ''author-info'', ''author-box'', ''bio'', ''carousel'', ''gallery'', ''modal'',
     ''navigation'', ''newsletter'', ''promo'', ''share'', ''subscribe'', ''tags'',
     ''toolbar'', ''trending'', ''dd-widget'', ''deeperdive'', ''ai-widget'', ''chatbot'',
     ''ask-ai'', ''genai'', ''ai-assistant'', ''ai-answer'']"

definition whitelistKeywords :: "string list" where
  "whitelistKeywords = [''article'', ''body'', ''content'', ''entry'', ''main'', ''page'',
     ''post'', ''text'', ''blog'', ''story'', ''hentry'', ''h-entry'', ''entry-content'',
     ''article-body'', ''article-content'']"

definition pattern_matches :: "string list \<Rightarrow> gostring \<Rightarrow> bool" where
  "pattern_matches keywords s = list_ex (\<lambda>kw. Contains (map simple_fold s) (runes kw)) keywords"

definition IsBlacklisted :: "gostring \<Rightarrow> bool" where
  "IsBlacklisted s = (if s = [] then False else pattern_matches blacklistKeywords s)"

definition IsWhitelisted :: "gostring \<Rightarrow> bool" where
  "IsWhitelisted s = (if s = [] then False else pattern_matches whitelistKeywords s)"

definition GetWeight :: "gostring \<Rightarrow> gostring \<Rightarrow> int" where
  "GetWeight cls ident =
     (let weight = 0;
          weight = (if cls \<noteq> [] \<and> IsWhitelisted cls then weight + 25 else weight);
          weight = (if cls \<noteq> [] \<and> IsBlacklisted cls then weight - 25 else weight);
          weight = (if ident \<noteq> [] \<and> IsWhitelisted ident then weight + 25 else weight);
          weight = (if ident \<noteq> [] \<and> IsBlacklisted ident then weight - 25 else weight)
      in weight)"

section \<open>Paragraph scorer and score map (internal/scorer)\<close>

definition HNewsBonus :: real where "HNewsBonus = 80"
definition ParagraphBaseScore :: int where "ParagraphBaseScore = 1"
definition CommaBonus :: real where "CommaBonus = 1"
definition LengthChunkSize :: int where "LengthChunkSize = 50"
definition MaxLengthBonus :: int where "MaxLengthBonus = 3"
definition DivBonus :: real where "DivBonus = 5"
definition TdBlockquoteBonus :: real where "TdBlockquoteBonus = 3"
definition FormAddressPenalty :: real where "FormAddressPenalty = - 3"
definition ParentScoreProportion :: real where "ParentScoreProportion = 1.0"
definition GrandparentScoreProportion :: real where "GrandparentScoreProportion = 0.5"
definition LowWeightLinkDensityMax :: real where "LowWeightLinkDensityMax = 0.2"
definition HighWeightLinkDensityMax :: real where "HighWeightLinkDensityMax = 0.5"
definition SiblingScoreThresholdBase :: real where "SiblingScoreThresholdBase = 10.0"
definition SiblingScoreThresholdFactor :: real where "SiblingScoreThresholdFactor = 0.25"

definition GetTagScore :: "string \<Rightarrow> real" where
  "GetTagScore tag =
     (if tag = ''div'' then DivBonus
      else if tag = ''td'' then TdBlockquoteBonus
      else if tag = ''blockquote'' then TdBlockquoteBonus
      else if tag = ''form'' then FormAddressPenalty
      else if tag = ''address'' then FormAddressPenalty
      else 0)"

text \<open>\<^verbatim>\<open>ScoreParagraph\<close>.  Go's integer division truncates; \<open>textLen\<close> is not
  negative, so it is \<open>div\<close>.\<close>

definition ScoreParagraph :: "node \<Rightarrow> int \<Rightarrow> real" where
  "ScoreParagraph sel minLength =
     (let text = GetText sel;
          textLen = int (length text)
      in if textLen < minLength then 0
         else
           let score = real_of_int ParagraphBaseScore;
               commas = CountCommas text;
               score = score + real_of_int commas * CommaBonus;
               lengthBonus = textLen div LengthChunkSize;
               lengthBonus = (if lengthBonus > MaxLengthBonus then MaxLengthBonus else lengthBonus);
               score = score + real_of_int lengthBonus
           in score)"

text \<open>\<^verbatim>\<open>NodeScore\<close> and its methods.  \<open>Selection\<close> is the scored element.\<close>

record NodeScore =
  Selection :: node
  ContentScore :: real
  Weight :: int
  LinkDensity :: real
  TextLength :: int

definition NewNodeScore :: "node \<Rightarrow> NodeScore" where
  "NewNodeScore sel =
     \<lparr>Selection = sel, ContentScore = 0, Weight = 0, LinkDensity = 0, TextLength = 0\<rparr>"

definition AddScore :: "NodeScore \<Rightarrow> real \<Rightarrow> NodeScore" where
  "AddScore ns score = ns\<lparr>ContentScore := ContentScore ns + score\<rparr>"

definition SetScore :: "NodeScore \<Rightarrow> real \<Rightarrow> NodeScore" where
  "SetScore ns score = ns\<lparr>ContentScore := score\<rparr>"

definition GetScore :: "NodeScore \<Rightarrow> real" where
  "GetScore ns = ContentScore ns"

definition GetWeightedScore :: "NodeScore \<Rightarrow> real" where
  "GetWeightedScore ns = ContentScore ns + real_of_int (Weight ns)"

definition SetWeight :: "NodeScore \<Rightarrow> int \<Rightarrow> NodeScore" where
  "SetWeight ns weight = ns\<lparr>Weight := weight\<rparr>"

definition SetLinkDensity :: "NodeScore \<Rightarrow> real \<Rightarrow> NodeScore" where
  "SetLinkDensity ns density = ns\<lparr>LinkDensity := density\<rparr>"

definition SetTextLength :: "NodeScore \<Rightarrow> int \<Rightarrow> NodeScore" where
  "SetTextLength ns len = ns\<lparr>TextLength := len\<rparr>"

definition IsHighLinkDensity :: "NodeScore \<Rightarrow> bool" where
  "IsHighLinkDensity ns =
     (if Weight ns \<ge> 0 then LinkDensity ns > HighWeightLinkDensityMax
      else LinkDensity ns > LowWeightLinkDensityMax)"

text \<open>
  \<^verbatim>\<open>ScoreMap\<close>.  The Go map goes from a selection to a pointer to its
  \<^verbatim>\<open>NodeScore\<close>, and \<^verbatim>\<open>Get\<close> is the only writer in the pipeline: it stores a new
  \<^verbatim>\<open>NodeScore\<close> under the selection the \<^verbatim>\<open>NodeScore\<close> itself holds.  The map is
  therefore modelled by the list of its values.  \<open>same_node\<close> is the comparison
  \<^verbatim>\<open>key.Get(0) == node\<close>.  A write through the pointer that \<^verbatim>\<open>Get\<close> returned is
  \<open>put\<close>.  The order in which \<^verbatim>\<open>range sm.scores\<close> yields the entries is not fixed by
  Go; the functions that range over the map take the entries in the order yielded.
\<close>

type_synonym ScoreMap = "NodeScore list"

definition same_node :: "node \<Rightarrow> node \<Rightarrow> bool" where
  "same_node a b = (node_id a = node_id b)"

fun GetOrNil :: "ScoreMap \<Rightarrow> node \<Rightarrow> NodeScore option" where
  "GetOrNil [] sel = None"
| "GetOrNil (score # rest) sel =
     (if same_node (Selection score) sel then Some score else GetOrNil rest sel)"

definition Get :: "ScoreMap \<Rightarrow> node \<Rightarrow> NodeScore \<times> ScoreMap" where
  "Get sm sel =
     (case GetOrNil sm sel of
        Some score \<Rightarrow> (score, sm)
      | None \<Rightarrow> (NewNodeScore sel, sm @ [NewNodeScore sel]))"

definition put :: "NodeScore \<Rightarrow> ScoreMap \<Rightarrow> ScoreMap" where
  "put ns sm = map (\<lambda>e. if same_node (Selection e) (Selection ns) then ns else e) sm"

text \<open>\<^verbatim>\<open>sel.HasClass(name)\<close> of goquery: the class attribute with tab, CR and LF turned
  into spaces and a space added at both ends contains the name between spaces.\<close>

definition HasClass :: "node \<Rightarrow> string \<Rightarrow> bool" where
  "HasClass sel name =
     (case Attr sel ''class'' of
        None \<Rightarrow> False
      | Some v \<Rightarrow>
          Contains ([0x20] @ map (\<lambda>r. if r = 0x09 \<or> r = 0x0D \<or> r = 0x0A then 0x20 else r) v @ [0x20])
                   ([0x20] @ runes name @ [0x20]))"

definition hasHNews :: "node \<Rightarrow> gostring \<Rightarrow> bool" where
  "hasHNews sel cls =
     (if HasClass sel ''hentry'' \<or> HasClass sel ''h-entry'' then True
      else if HasClass sel ''entry-content'' then True
      else case Attr sel ''itemtype'' of
             None \<Rightarrow> False
           | Some itemtype \<Rightarrow>
               itemtype = runes ''http://schema.org/Article'' \<or>
               itemtype = runes ''https://schema.org/Article'' \<or>
               itemtype = runes ''http://schema.org/NewsArticle'' \<or>
               itemtype = runes ''https://schema.org/NewsArticle'')"

definition initializeNodeScore :: "NodeScore \<Rightarrow> node \<Rightarrow> NodeScore" where
  "initializeNodeScore ns0 sel =
     (let tag = GetTagName sel;
          ns = AddScore ns0 (GetTagScore tag);
          cls = GetAttribute sel ''class'';
          ident = GetAttribute sel ''id'';
          weight = GetWeight cls ident;
          ns = SetWeight ns weight;
          ns = (if hasHNews sel cls then AddScore ns HNewsBonus else ns);
          linkDensity = CalculateLinkDensity sel;
          ns = SetLinkDensity ns linkDensity;
          textLen = GetTextLength sel;
          ns = SetTextLength ns textLen
      in ns)"

text \<open>
  \<^verbatim>\<open>doc.Find("p, pre")\<close> together with \<^verbatim>\<open>GetParagraphParent\<close> and
  \<^verbatim>\<open>GetParagraphGrandparent\<close>: every \<^verbatim>\<open>p\<close> and \<^verbatim>\<open>pre\<close> element in document order,
  with its parent element and that one's parent element.  The document node is no
  element, so an element at the top of the forest has no parent.
\<close>

fun paragraphs :: "node option \<Rightarrow> node option \<Rightarrow> node \<Rightarrow> (node \<times> node option \<times> node option) list"
  and paragraphs_list :: "node option \<Rightarrow> node option \<Rightarrow> node list \<Rightarrow> (node \<times> node option \<times> node option) list" where
  "paragraphs grandparent parent (Element i t a cs) =
     (if t = ''p'' \<or> t = ''pre'' then [(Element i t a cs, parent, grandparent)] else [])
     @ paragraphs_list parent (Some (Element i t a cs)) cs"
| "paragraphs grandparent parent (TextNode _) = []"
| "paragraphs grandparent parent (CommentNode _) = []"
| "paragraphs_list grandparent parent [] = []"
| "paragraphs_list grandparent parent (n # ns) =
     paragraphs grandparent parent n @ paragraphs_list grandparent parent ns"

text \<open>One ancestor's share of a paragraph: \<^verbatim>\<open>scoreMap.Get\<close>, the initialisation when
  the stored content score is 0, and \<^verbatim>\<open>AddScore\<close>.\<close>

definition contribute :: "node \<Rightarrow> real \<Rightarrow> ScoreMap \<Rightarrow> ScoreMap" where
  "contribute ancestor amount sm =
     (let (ancestorScore, sm1) = Get sm ancestor;
          ancestorScore = (if ContentScore ancestorScore = 0
                           then initializeNodeScore ancestorScore ancestor
                           else ancestorScore);
          ancestorScore = AddScore ancestorScore amount
      in put ancestorScore sm1)"

text \<open>The body of the \<^verbatim>\<open>Each\<close> callback of \<^verbatim>\<open>PropagateScores\<close>.\<close>

definition propagate_paragraph :: "int \<Rightarrow> ScoreMap \<Rightarrow> node \<times> node option \<times> node option \<Rightarrow> ScoreMap" where
  "propagate_paragraph minParagraphLength sm p =
     (case p of (sel, parent, grandparent) \<Rightarrow>
        let paragraphScore = ScoreParagraph sel minParagraphLength in
        if paragraphScore = 0 then sm
        else
          let sm = (case parent of
                      None \<Rightarrow> sm
                    | Some par \<Rightarrow> contribute par (paragraphScore * ParentScoreProportion) sm);
              sm = (case grandparent of
                      None \<Rightarrow> sm
                    | Some gp \<Rightarrow> contribute gp (paragraphScore * GrandparentScoreProportion) sm)
          in sm)"

definition PropagateScores :: "node list \<Rightarrow> ScoreMap \<Rightarrow> int \<Rightarrow> ScoreMap" where
  "PropagateScores doc scoreMap minParagraphLength =
     foldl (propagate_paragraph minParagraphLength) scoreMap (paragraphs_list None None doc)"

definition ScoreAndPropagate :: "node list \<Rightarrow> int \<Rightarrow> ScoreMap" where
  "ScoreAndPropagate doc minParagraphLength = PropagateScores doc [] minParagraphLength"

definition RefineScores :: "ScoreMap \<Rightarrow> ScoreMap" where
  "RefineScores scoreMap =
     map (\<lambda>ns. if IsHighLinkDensity ns
                then SetScore ns (ContentScore ns * (1 - LinkDensity ns))
                else ns) scoreMap"

text \<open>\<^verbatim>\<open>GetTopCandidate\<close>: the loop carries \<^verbatim>\<open>top\<close> (here \<open>topc\<close>) and \<^verbatim>\<open>topScore\<close>; the argument
  is the entries in the order \<^verbatim>\<open>range\<close> yields them.\<close>

fun GetTopCandidate_loop :: "NodeScore option \<Rightarrow> real \<Rightarrow> NodeScore list \<Rightarrow> NodeScore option" where
  "GetTopCandidate_loop topc topScore [] = topc"
| "GetTopCandidate_loop topc topScore (ns # rest) =
     (let score = GetWeightedScore ns in
      if score > topScore then GetTopCandidate_loop (Some ns) score rest
      else GetTopCandidate_loop topc topScore rest)"

definition GetTopCandidate :: "NodeScore list \<Rightarrow> NodeScore option" where
  "GetTopCandidate yielded = GetTopCandidate_loop None (- 1) yielded"

text \<open>\<^verbatim>\<open>GetCandidatesByScore\<close>: the two nested index loops with their swap.\<close>

definition swap_if_greater :: "nat \<Rightarrow> NodeScore list \<Rightarrow> nat \<Rightarrow> NodeScore list" where
  "swap_if_greater i candidates j =
     (if GetWeightedScore (candidates ! j) > GetWeightedScore (candidates ! i)
      then candidates[i := candidates ! j, j := candidates ! i]
      else candidates)"

definition GetCandidatesByScore :: "NodeScore list \<Rightarrow> NodeScore list" where
  "GetCandidatesByScore yielded =
     foldl (\<lambda>candidates i. foldl (swap_if_greater i) candidates [i + 1 ..< length candidates])
       yielded [0 ..< length yielded]"

text \<open>\<^verbatim>\<open>Scorer.Score\<close>.  \<open>range_order\<close> gives the order in which the range loop of
  \<^verbatim>\<open>GetTopCandidate\<close> yields the entries of the map.\<close>

definition Scorer_Score :: "(ScoreMap \<Rightarrow> NodeScore list) \<Rightarrow> int \<Rightarrow> node list \<Rightarrow> NodeScore option \<times> ScoreMap" where
  "Scorer_Score range_order minParagraphLength doc =
     (let scoreMap = ScoreAndPropagate doc minParagraphLength;
          scoreMap = RefineScores scoreMap;
          topCandidate = GetTopCandidate (range_order scoreMap)
      in (topCandidate, scoreMap))"

section \<open>Removing nodes while iterating over a selection\<close>

text \<open>
  \<^verbatim>\<open>sel.Find(selector).Each(func(_, s) { ... s.Remove() ... })\<close>: goquery first
  collects the matching nodes below the selection, in document order, and then calls
  the function on each collected node in turn.  \<^verbatim>\<open>s.Remove()\<close> unlinks the node
  from its parent.  The state is the forest below the selection.  A collected node
  that an earlier call has unlinked together with one of its ancestors is still
  visited, but whatever the call does to it happens outside the forest, so the
  forest stays as it is.
\<close>

fun matching_ids :: "(node \<Rightarrow> bool) \<Rightarrow> node \<Rightarrow> nat list"
  and matching_ids_list :: "(node \<Rightarrow> bool) \<Rightarrow> node list \<Rightarrow> nat list" where
  "matching_ids sel (Element i t a cs) =
     (if sel (Element i t a cs) then [i] else []) @ matching_ids_list sel cs"
| "matching_ids sel (TextNode _) = []"
| "matching_ids sel (CommentNode _) = []"
| "matching_ids_list sel [] = []"
| "matching_ids_list sel (n # ns) = matching_ids sel n @ matching_ids_list sel ns"

text \<open>The element with a given identity, as it stands in the forest.\<close>

fun lookup :: "nat \<Rightarrow> node \<Rightarrow> node option"
  and lookup_list :: "nat \<Rightarrow> node list \<Rightarrow> node option" where
  "lookup i (Element j t a cs) =
     (if i = j then Some (Element j t a cs) else lookup_list i cs)"
| "lookup i (TextNode _) = None"
| "lookup i (CommentNode _) = None"
| "lookup_list i [] = None"
| "lookup_list i (n # ns) =
     (case lookup i n of Some m \<Rightarrow> Some m | None \<Rightarrow> lookup_list i ns)"

text \<open>\<^verbatim>\<open>s.Remove()\<close>: the forest without the element of that identity.\<close>

fun detach :: "nat \<Rightarrow> node \<Rightarrow> node list"
  and detach_list :: "nat \<Rightarrow> node list \<Rightarrow> node list" where
  "detach i (Element j t a cs) =
     (if i = j then [] else [Element j t a (detach_list i cs)])"
| "detach i (TextNode s) = [TextNode s]"
| "detach i (CommentNode s) = [CommentNode s]"
| "detach_list i [] = []"
| "detach_list i (n # ns) = detach i n @ detach_list i ns"

text \<open>One call of a function that removes the visited node when \<open>rm\<close> holds of it.\<close>

definition visit :: "(node \<Rightarrow> bool) \<Rightarrow> node list \<Rightarrow> nat \<Rightarrow> node list" where
  "visit rm forest i =
     (case lookup_list i forest of
        None \<Rightarrow> forest
      | Some s \<Rightarrow> if rm s then detach_list i forest else forest)"

definition each_remove :: "(node \<Rightarrow> bool) \<Rightarrow> (node \<Rightarrow> bool) \<Rightarrow> node list \<Rightarrow> node list" where
  "each_remove sel rm forest = foldl (visit rm) forest (matching_ids_list sel forest)"

text \<open>\<^verbatim>\<open>sel.Find(selector).Remove()\<close> unlinks every collected node.\<close>

definition remove_all :: "(node \<Rightarrow> bool) \<Rightarrow> node list \<Rightarrow> node list" where
  "remove_all sel forest = each_remove sel (\<lambda>s. True) forest"

text \<open>
  The forest in which every element satisfying \<open>rm\<close> is dropped with its subtree, the
  test being made on the element as it stands in the original forest.  The loops
  above are shown to compute it.
\<close>

fun prune :: "(node \<Rightarrow> bool) \<Rightarrow> node \<Rightarrow> node list"
  and prune_list :: "(node \<Rightarrow> bool) \<Rightarrow> node list \<Rightarrow> node list" where
  "prune rm (Element i t a cs) =
     (if rm (Element i t a cs) then [] else [Element i t a (prune_list rm cs)])"
| "prune rm (TextNode s) = [TextNode s]"
| "prune rm (CommentNode s) = [CommentNode s]"
| "prune_list rm [] = []"
| "prune_list rm (n # ns) = prune rm n @ prune_list rm ns"

text \<open>The elements from the top of the forest down to the element of a given
  identity: its ancestors followed by the element itself.\<close>

fun path_to :: "nat \<Rightarrow> node \<Rightarrow> node list option"
  and path_to_list :: "nat \<Rightarrow> node list \<Rightarrow> node list option" where
  "path_to i (Element j t a cs) =
     (if i = j then Some [Element j t a cs]
      else map_option (\<lambda>p. Element j t a cs # p) (path_to_list i cs))"
| "path_to i (TextNode _) = None"
| "path_to i (CommentNode _) = None"
| "path_to_list i [] = None"
| "path_to_list i (n # ns) =
     (case path_to i n of Some p \<Rightarrow> Some p | None \<Rightarrow> path_to_list i ns)"

section \<open>Preprocessing: stripping unlikely candidates (internal/cleaner)\<close>

definition unlikelyTags :: "string list" where
  "unlikelyTags = [''footer'', ''header'', ''nav'', ''aside'', ''menu'', ''menuitem'']"

text \<open>The first loop of \<^verbatim>\<open>StripUnlikelyCandidates\<close>: what its function removes.\<close>

definition unlikely_removes :: "node \<Rightarrow> bool" where
  "unlikely_removes sel =
     (let cls = GetAttribute sel ''class'';
          ident = GetAttribute sel ''id''
      in if IsWhitelisted cls \<or> IsWhitelisted ident then False else True)"

text \<open>The second loop, the blacklist sweep: what its function removes.\<close>

definition sweep_removes :: "node \<Rightarrow> bool" where
  "sweep_removes sel =
     (let tag = GetTagName sel in
      if tag = ''body'' \<or> tag = ''html'' \<or> tag = ''article'' \<or> tag = ''main'' then False
      else
        let cls = GetAttribute sel ''class'';
            ident = GetAttribute sel ''id'';
            combined = cls @ [0x20] @ ident
        in if IsWhitelisted combined then False
           else if IsBlacklisted combined then
             (let textLen = GetTextLength sel;
                  linkDensity = CalculateLinkDensity sel
              in if textLen < 200 \<or> linkDensity > 0.5 then True else False)
           else False)"

definition blacklist_sweep :: "node list \<Rightarrow> node list" where
  "blacklist_sweep doc = each_remove any_element sweep_removes doc"

definition StripUnlikelyCandidates :: "node list \<Rightarrow> node list" where
  "StripUnlikelyCandidates doc =
     blacklist_sweep (foldl (\<lambda>d tag. each_remove (is_tag tag) unlikely_removes d) doc unlikelyTags)"

section \<open>Serialisation (html.Render, as \<^verbatim>\<open>sel.Html()\<close> uses it)\<close>

text \<open>
  \<^verbatim>\<open>sel.Html()\<close> renders the children of the selected node one after the other.
  The model follows \<^verbatim>\<open>render1\<close> of golang.org/x/net/html for trees as the parser
  builds them: a void element has no children and there is no \<^verbatim>\<open>plaintext\<close>
  element (for those the library stops early).  Attribute namespaces are not
  modelled.
\<close>

definition escape_rune :: "rune \<Rightarrow> gostring" where
  "escape_rune r =
     (if r = 0x26 then runes ''&amp;''
      else if r = 0x27 then runes ''&#39;''
      else if r = 0x3C then runes ''&lt;''
      else if r = 0x3E then runes ''&gt;''
      else if r = 0x22 then runes ''&#34;''
      else if r = 0x0D then runes ''&#13;''
      else [r])"

definition escape :: "gostring \<Rightarrow> gostring" where
  "escape s = concat (map escape_rune s)"

text \<open>\<^verbatim>\<open>escapeComment\<close>: \<^verbatim>\<open>&\<close> always, \<^verbatim>\<open>>\<close> only at the start or after
  \<^verbatim>\<open>!\<close> or \<^verbatim>\<open>-\<close>.\<close>

fun escapeComment_from :: "rune option \<Rightarrow> gostring \<Rightarrow> gostring" where
  "escapeComment_from prev [] = []"
| "escapeComment_from prev (r # rs) =
     (if r = 0x26 then runes ''&amp;''
      else if r = 0x3E \<and> (prev = None \<or> prev = Some 0x21 \<or> prev = Some 0x2D) then runes ''&gt;''
      else [r]) @ escapeComment_from (Some r) rs"

definition escapeComment :: "gostring \<Rightarrow> gostring" where
  "escapeComment s = escapeComment_from None s"

definition voidElements :: "string list" where
  "voidElements = [''area'', ''base'', ''br'', ''col'', ''embed'', ''hr'', ''img'', ''input'',
     ''keygen'', ''link'', ''meta'', ''param'', ''source'', ''track'', ''wbr'']"

definition childTextNodesAreLiteral :: "string \<Rightarrow> bool" where
  "childTextNodesAreLiteral tag = (tag \<in> set [''iframe'', ''noembed'', ''noframes'', ''noscript'',
     ''plaintext'', ''script'', ''style'', ''xmp''])"

definition render_attr :: "string \<times> gostring \<Rightarrow> gostring" where
  "render_attr att = [0x20] @ runes (fst att) @ runes ''=\"'' @ escape (snd att) @ [0x22]"

text \<open>The newline that is written after the opening tag of \<^verbatim>\<open>pre\<close>,
  \<^verbatim>\<open>listing\<close> and \<^verbatim>\<open>textarea\<close> when the first child is a text that starts with
  a newline.\<close>

definition initial_newline :: "string \<Rightarrow> node list \<Rightarrow> gostring" where
  "initial_newline tag cs =
     (case cs of
        TextNode (r # rs) # rest \<Rightarrow>
          (if r = 0x0A \<and> (tag = ''pre'' \<or> tag = ''listing'' \<or> tag = ''textarea'') then [0x0A] else [])
      | _ \<Rightarrow> [])"

fun render :: "node \<Rightarrow> gostring"
  and render_children :: "bool \<Rightarrow> node list \<Rightarrow> gostring" where
  "render (TextNode s) = escape s"
| "render (CommentNode s) = runes ''<!--'' @ escapeComment s @ runes ''-->''"
| "render (Element i t a cs) =
     [0x3C] @ runes t @ concat (map render_attr a) @
     (if t \<in> set voidElements then runes ''/>''
      else [0x3E] @ initial_newline t cs @ render_children (childTextNodesAreLiteral t) cs
           @ runes ''</'' @ runes t @ [0x3E])"
| "render_children literal [] = []"
| "render_children literal (n # ns) =
     (case n of
        TextNode s \<Rightarrow> (if literal then s else render n)
      | _ \<Rightarrow> render n) @ render_children literal ns"

definition Html :: "node \<Rightarrow> gostring" where
  "Html sel = render_children False (children sel)"

section \<open>Postprocessing (internal/cleaner/postprocess.go)\<close>

definition unwantedPatterns :: "string list" where
  "unwantedPatterns = [''share'', ''social'', ''comment'', ''related'', ''recommend'',
     ''newsletter'', ''subscribe'', ''promo'', ''ad-'', ''advertisement'']"

text \<open>The selector \<^verbatim>\<open>[name*='pattern']\<close>: some attribute of that name has a value
  that contains the pattern.\<close>

definition attr_contains :: "string \<Rightarrow> string \<Rightarrow> node \<Rightarrow> bool" where
  "attr_contains name pat sel =
     list_ex (\<lambda>att. fst att = name \<and> Contains (snd att) (runes pat)) (attrs sel)"

definition unwanted_tag :: "node \<Rightarrow> bool" where
  "unwanted_tag sel = (GetTagName sel = ''script'' \<or> GetTagName sel = ''style''
     \<or> GetTagName sel = ''noscript'')"

definition unwanted_pattern :: "string \<Rightarrow> node \<Rightarrow> bool" where
  "unwanted_pattern pat sel = (attr_contains ''class'' pat sel \<or> attr_contains ''id'' pat sel)"

text \<open>The function of the loop over the links: an empty link is removed.\<close>

definition empty_link :: "node \<Rightarrow> bool" where
  "empty_link a =
     (let text = TrimSpace (Text a) in
      if text = [] \<and> length (Find (is_tag ''img'') a) = 0 then True else False)"

definition RemoveUnwantedFromContent :: "node list \<Rightarrow> node list" where
  "RemoveUnwantedFromContent forest =
     (let forest = remove_all unwanted_tag forest;
          forest = foldl (\<lambda>f pat. remove_all (unwanted_pattern pat) f) forest unwantedPatterns
      in each_remove (is_tag ''a'') empty_link forest)"

definition allowedAttributes :: "string \<Rightarrow> string list" where
  "allowedAttributes tag =
     (if tag = ''a'' then [''href'', ''title'']
      else if tag = ''img'' then [''src'', ''alt'', ''title'', ''width'', ''height'']
      else [])"

text \<open>\<^verbatim>\<open>removeAttr\<close> of goquery: the first attribute of that name is overwritten by
  the last attribute and the list is cut by one.\<close>

fun index_of_key :: "string \<Rightarrow> (string \<times> gostring) list \<Rightarrow> nat option" where
  "index_of_key name [] = None"
| "index_of_key name (att # rest) =
     (if fst att = name then Some 0 else map_option Suc (index_of_key name rest))"

definition RemoveAttr :: "string \<Rightarrow> (string \<times> gostring) list \<Rightarrow> (string \<times> gostring) list" where
  "RemoveAttr name as =
     (case index_of_key name as of
        None \<Rightarrow> as
      | Some i \<Rightarrow> butlast (as[i := last as]))"

definition clean_attrs :: "string \<Rightarrow> (string \<times> gostring) list \<Rightarrow> (string \<times> gostring) list" where
  "clean_attrs tag as =
     (let allowedForTag = allowedAttributes tag;
          allowedForAll = allowedAttributes ''*'';
          attrsToRemove = map fst (filter (\<lambda>att. \<not> (fst att \<in> set allowedForTag
                                                      \<or> fst att \<in> set allowedForAll)) as)
      in foldl (\<lambda>as name. RemoveAttr name as) as attrsToRemove)"

text \<open>\<^verbatim>\<open>CleanAttributes\<close> visits every element below the selection and changes
  nothing but its attributes.\<close>

fun CleanAttributes_node :: "node \<Rightarrow> node"
  and CleanAttributes :: "node list \<Rightarrow> node list" where
  "CleanAttributes_node (Element i t a cs) = Element i t (clean_attrs t a) (CleanAttributes cs)"
| "CleanAttributes_node (TextNode s) = TextNode s"
| "CleanAttributes_node (CommentNode s) = CommentNode s"
| "CleanAttributes [] = []"
| "CleanAttributes (n # ns) = CleanAttributes_node n # CleanAttributes ns"

text \<open>
  \<^verbatim>\<open>tagRegex.ReplaceAllString(html, "")\<close> with \<^verbatim>\<open><[^>]*>\<close>: from a \<^verbatim>\<open><\<close> that has a
  \<^verbatim>\<open>>\<close> somewhere after it, everything up to the first such \<^verbatim>\<open>>\<close> is dropped.
\<close>

fun strip_tags :: "bool \<Rightarrow> gostring \<Rightarrow> gostring" where
  "strip_tags in_tag [] = []"
| "strip_tags in_tag (r # rs) =
     (if in_tag then (if r = 0x3E then strip_tags False rs else strip_tags True rs)
      else if r = 0x3C \<and> 0x3E \<in> set rs then strip_tags True rs
      else r # strip_tags False rs)"

definition isOnlyWhitespace :: "gostring \<Rightarrow> bool" where
  "isOnlyWhitespace html = (TrimSpace (strip_tags False html) = [])"

text \<open>The function of the loop of \<^verbatim>\<open>RemoveEmptyElements\<close>.\<close>

definition empty_element :: "node \<Rightarrow> bool" where
  "empty_element el =
     (let tag = GetTagName el in
      if tag = ''br'' \<or> tag = ''hr'' \<or> tag = ''img'' then False
      else
        let text = TrimSpace (Text el);
            html = TrimSpace (Html el)
        in if text = [] \<and> (html = [] \<or> isOnlyWhitespace html) then True else False)"

definition RemoveEmptyElements :: "node list \<Rightarrow> node list" where
  "RemoveEmptyElements forest =
     foldl (\<lambda>f i. each_remove any_element empty_element f) forest [0 ..< 3]"

text \<open>\<^verbatim>\<open>Postprocess\<close> works below the selected element and leaves the element
  itself as it is.\<close>

definition Postprocess_forest :: "node list \<Rightarrow> node list" where
  "Postprocess_forest forest =
     RemoveEmptyElements (CleanAttributes (RemoveUnwantedFromContent forest))"

fun Postprocess :: "node \<Rightarrow> node" where
  "Postprocess (Element i t a cs) = Element i t a (Postprocess_forest cs)"
| "Postprocess (TextNode s) = TextNode s"
| "Postprocess (CommentNode s) = CommentNode s"

definition GetCleanHTML :: "node \<Rightarrow> gostring" where
  "GetCleanHTML sel = TrimSpace (Html sel)"

text \<open>\<^verbatim>\<open>NormalizeTextPreserveNewlines\<close>: \<^verbatim>\<open>strings.Split\<close> on the newline, each line
  collapsed and trimmed, \<^verbatim>\<open>strings.Join\<close>, runs of three or more newlines cut to two,
  and a final trim.\<close>

fun split_lines :: "gostring \<Rightarrow> gostring \<Rightarrow> gostring list" where
  "split_lines cur [] = [cur]"
| "split_lines cur (r # rs) =
     (if r = 0x0A then cur # split_lines [] rs else split_lines (cur @ [r]) rs)"

fun join_lines :: "gostring list \<Rightarrow> gostring" where
  "join_lines [] = []"
| "join_lines [l] = l"
| "join_lines (l # ls) = l @ [0x0A] @ join_lines ls"

fun collapse_newlines :: "nat \<Rightarrow> gostring \<Rightarrow> gostring" where
  "collapse_newlines run [] = replicate (if run \<ge> 3 then 2 else run) 0x0A"
| "collapse_newlines run (r # rs) =
     (if r = 0x0A then collapse_newlines (run + 1) rs
      else replicate (if run \<ge> 3 then 2 else run) 0x0A @ r # collapse_newlines 0 rs)"

definition NormalizeTextPreserveNewlines :: "gostring \<Rightarrow> gostring" where
  "NormalizeTextPreserveNewlines text =
     (let lines = map (\<lambda>line. TrimSpace (collapse_ws False line)) (split_lines [] text);
          text = join_lines lines;
          text = collapse_newlines 0 text
      in TrimSpace text)"

definition GetCleanText :: "node \<Rightarrow> gostring" where
  "GetCleanText sel = NormalizeTextPreserveNewlines (Text sel)"

text \<open>
  \<^verbatim>\<open>GetExcerpt\<close>.  The two loops run \<^verbatim>\<open>i\<close> from \<^verbatim>\<open>maxLength-1\<close> down to
  \<^verbatim>\<open>maxLength/2\<close>; the last line slices \<^verbatim>\<open>runes[:maxLength-3]\<close>, which panics for
  a negative bound: \<open>None\<close>.  The indices of the loops are in range, since the text
  is longer than \<^verbatim>\<open>maxLength\<close> there; for a negative \<^verbatim>\<open>maxLength\<close> no index is read.
\<close>

definition loop_indices :: "int \<Rightarrow> nat list" where
  "loop_indices maxLength =
     (if maxLength \<le> 0 then [] else rev [nat (maxLength div 2) ..< nat maxLength])"

definition GetExcerpt :: "gostring \<Rightarrow> int \<Rightarrow> gostring option" where
  "GetExcerpt text0 maxLength =
     (let text = NormalizeText text0 in
      if int (length text) \<le> maxLength then Some text
      else
        let rs = text in
        case find (\<lambda>i. rs ! i = 0x2E \<or> rs ! i = 0x3002) (loop_indices maxLength) of
          Some i \<Rightarrow> Some (take (i + 1) rs)
        | None \<Rightarrow>
            (case find (\<lambda>i. IsSpace (rs ! i)) (loop_indices maxLength) of
               Some i \<Rightarrow> Some (take i rs @ runes ''...'')
             | None \<Rightarrow>
                 if maxLength - 3 < 0 then None
                 else Some (take (nat (maxLength - 3)) rs @ runes ''...'')))"

section \<open>Title cleaning (internal/metadata)\<close>

text \<open>
  \<^verbatim>\<open>strings.LastIndex\<close>: the greatest position at which the separator starts.  For
  valid UTF-8 the byte position that Go returns and the rune position used here cut
  the string at the same place.
\<close>

definition LastIndex :: "gostring \<Rightarrow> gostring \<Rightarrow> nat option" where
  "LastIndex s sep = find (\<lambda>i. has_prefix sep (drop i s)) (rev [0 ..< length s + 1])"

definition titleSeparators :: "gostring list" where
  "titleSeparators =
     [[0x20, 0x7C, 0x20], [0x20, 0x2D, 0x20], [0x20, 0x3A, 0x3A, 0x20], [0x20, 0x2F, 0x20],
      [0x20, 0xBB, 0x20], [0x20, 0x2014, 0x20], [0x20, 0xB7, 0x20]]"

text \<open>The body of the loop over the separators.\<close>

definition cleanTitle_step :: "gostring \<Rightarrow> gostring \<Rightarrow> gostring" where
  "cleanTitle_step title sep =
     (case LastIndex title sep of
        None \<Rightarrow> title
      | Some idx \<Rightarrow>
          let beforeSep = take idx title;
              afterSep = drop (idx + length sep) title
          in if go_len beforeSep > go_len afterSep * 2 then TrimSpace beforeSep
             else if go_len afterSep > go_len beforeSep * 2 then TrimSpace afterSep
             else title)"

definition cleanTitle :: "gostring \<Rightarrow> gostring" where
  "cleanTitle title0 =
     (let title = TrimSpace title0;
          title = collapse_ws False title
      in foldl cleanTitle_step title titleSeparators)"

section \<open>The extraction pipeline\<close>

datatype error_kind =
    ErrNoContent | ErrInvalidHTML | ErrContentTooShort | ErrHTTPRequest
  | ErrInvalidURL | ErrContentTooLarge | ErrTimeout

text \<open>\<^verbatim>\<open>ExtractionError{Op, URL, Err}\<close>.\<close>

datatype ExtractionError = NewExtractionError string gostring error_kind

text \<open>How a call can end without an article: it returns an error, or it panics.\<close>

datatype failure = Returned ExtractionError | Panicked

type_synonym Time = int

record Image =
  ImageURL :: gostring
  Width :: int
  Height :: int
  Alt :: gostring

record Article =
  Title :: gostring
  Content :: gostring
  TextContent :: gostring
  Excerpt :: gostring
  Author :: gostring
  PublishedAt :: "Time option"
  LeadImage :: "Image option"
  URL :: gostring
  WordCount :: int
  Score :: real
  Confidence :: real

record Config =
  MinContentLength :: int
  MinParagraphLength :: int
  Debug :: bool

text \<open>
  The parts of the pipeline that are not modelled here are taken as parameters:
  the preprocessing steps that re-parse markup, the sibling merge, the URL
  conversion, the orders in which the two range loops over the score map yield its
  entries, and three functions of Go's standard library that the metadata
  extractors call: \<^verbatim>\<open>time.Parse(layout, value)\<close>, which returns a time or an error
  (\<open>None\<close>), and \<^verbatim>\<open>FindStringSubmatch\<close> and \<^verbatim>\<open>ReplaceAllString\<close> of the two
  compiled patterns below.  None of the three panics.
\<close>

text \<open>\<^verbatim>\<open>bylineRegex\<close> is \<^verbatim>\<open>(?i)^[\s]*by[\s]+(.+?)[\s]*$\<close>, \<^verbatim>\<open>tzRegex\<close> is
  \<^verbatim>\<open>\s+[A-Z]{3,4}$\<close>.\<close>

datatype regexp = bylineRegex | tzRegex

record environment =
  time_Parse :: "string \<Rightarrow> gostring \<Rightarrow> Time option"
  FindStringSubmatch :: "regexp \<Rightarrow> gostring \<Rightarrow> gostring list"
  ReplaceAllString :: "regexp \<Rightarrow> gostring \<Rightarrow> gostring \<Rightarrow> gostring"
  RemoveHiddenElements :: "node list \<Rightarrow> node list"
  RemoveKnownWidgets :: "node list \<Rightarrow> node list"
  ConvertDataArticleBodyToParagraphs :: "node list \<Rightarrow> node list"
  ConvertToParagraphs :: "node list \<Rightarrow> node list"
  MergeSiblings :: "node list \<Rightarrow> node \<Rightarrow> real \<Rightarrow> int \<Rightarrow> node"
  ConvertRelativeURLs :: "node \<Rightarrow> gostring \<Rightarrow> node"
  range_top :: "ScoreMap \<Rightarrow> NodeScore list"
  range_candidates :: "ScoreMap \<Rightarrow> NodeScore list"

section \<open>Metadata extraction (internal/metadata and \<^verbatim>\<open>extractLeadImage\<close>)\<close>

subsection \<open>Strings\<close>

text \<open>
  Slicing and indexing panic in Go when an index is out of range; here they yield
  \<open>None\<close>, and the functions that slice or index carry that \<open>None\<close> to their
  caller.  An index counts code points here and bytes in Go.  The indices below come
  from \<^verbatim>\<open>strings.Index\<close>, which returns the start of an occurrence, and the strings
  searched for are ASCII, so that in a valid UTF-8 string the slices are the same
  strings in both views.
\<close>

definition slice_from :: "'a list \<Rightarrow> int \<Rightarrow> 'a list option" where
  "slice_from s i = (if 0 \<le> i \<and> i \<le> int (length s) then Some (drop (nat i) s) else None)"

definition slice_to :: "'a list \<Rightarrow> int \<Rightarrow> 'a list option" where
  "slice_to s j = (if 0 \<le> j \<and> j \<le> int (length s) then Some (take (nat j) s) else None)"

definition index_at :: "'a list \<Rightarrow> int \<Rightarrow> 'a option" where
  "index_at s i = (if 0 \<le> i \<and> i < int (length s) then Some (s ! nat i) else None)"

text \<open>\<^verbatim>\<open>strings.Index\<close>, \<^verbatim>\<open>strings.HasPrefix\<close> and \<^verbatim>\<open>strings.TrimPrefix\<close>.\<close>

definition Index :: "gostring \<Rightarrow> gostring \<Rightarrow> int" where
  "Index s sub =
     (case find (\<lambda>i. has_prefix sub (drop i s)) [0 ..< length s + 1] of
        None \<Rightarrow> - 1
      | Some i \<Rightarrow> int i)"

definition HasPrefix :: "gostring \<Rightarrow> gostring \<Rightarrow> bool" where
  "HasPrefix s pfx = has_prefix pfx s"

definition TrimPrefix :: "gostring \<Rightarrow> gostring \<Rightarrow> gostring" where
  "TrimPrefix s pfx = (if HasPrefix s pfx then drop (length pfx) s else s)"

subsection \<open>Selectors\<close>

text \<open>
  The selectors of the metadata extractors, as cascadia matches them:
  \<^verbatim>\<open>[name='value']\<close> and \<^verbatim>\<open>[name]\<close> look for some attribute of that name,
  \<^verbatim>\<open>.name\<close> for the name among the pieces of a class attribute between
  \<^verbatim>\<open>[ \t\r\n\f]\<close>, and \<^verbatim>\<open>A B\<close> for a \<^verbatim>\<open>B\<close> with an ancestor \<^verbatim>\<open>A\<close>.
\<close>

definition attr_equals :: "string \<Rightarrow> string \<Rightarrow> node \<Rightarrow> bool" where
  "attr_equals name v n = list_ex (\<lambda>att. fst att = name \<and> snd att = runes v) (attrs n)"

definition attr_exists :: "string \<Rightarrow> node \<Rightarrow> bool" where
  "attr_exists name n = list_ex (\<lambda>att. fst att = name) (attrs n)"

fun split_on :: "(rune \<Rightarrow> bool) \<Rightarrow> gostring \<Rightarrow> gostring \<Rightarrow> gostring list" where
  "split_on P cur [] = [cur]"
| "split_on P cur (r # rs) = (if P r then cur # split_on P [] rs else split_on P (cur @ [r]) rs)"

definition has_class :: "string \<Rightarrow> node \<Rightarrow> bool" where
  "has_class c n =
     list_ex (\<lambda>att. fst att = ''class'' \<and> runes c \<in> set (split_on re_space [] (snd att))) (attrs n)"

definition tag_with :: "string \<Rightarrow> (node \<Rightarrow> bool) \<Rightarrow> node \<Rightarrow> bool" where
  "tag_with t P n = (is_tag t n \<and> P n)"

text \<open>\<^verbatim>\<open>doc.Find\<close> for a selector that also looks at the ancestors of an element
  (the nearest ancestor first).\<close>

fun query :: "(node list \<Rightarrow> node \<Rightarrow> bool) \<Rightarrow> node list \<Rightarrow> node \<Rightarrow> node list"
  and query_list :: "(node list \<Rightarrow> node \<Rightarrow> bool) \<Rightarrow> node list \<Rightarrow> node list \<Rightarrow> node list" where
  "query sel anc (Element i t a cs) =
     (if sel anc (Element i t a cs) then [Element i t a cs] else [])
     @ query_list sel (Element i t a cs # anc) cs"
| "query sel anc (TextNode _) = []"
| "query sel anc (CommentNode _) = []"
| "query_list sel anc [] = []"
| "query_list sel anc (n # ns) = query sel anc n @ query_list sel anc ns"

text \<open>\<^verbatim>\<open>article h1, [role='article'] h1, .article h1, .post h1\<close> and
  \<^verbatim>\<open>article img, .article img, .post img, main img\<close>.\<close>

definition article_h1 :: "node list \<Rightarrow> node \<Rightarrow> bool" where
  "article_h1 anc n =
     (is_tag ''h1'' n \<and>
      list_ex (\<lambda>p. is_tag ''article'' p \<or> attr_equals ''role'' ''article'' p
                 \<or> has_class ''article'' p \<or> has_class ''post'' p) anc)"

definition article_img :: "node list \<Rightarrow> node \<Rightarrow> bool" where
  "article_img anc n =
     (is_tag ''img'' n \<and>
      list_ex (\<lambda>p. is_tag ''article'' p \<or> has_class ''article'' p
                 \<or> has_class ''post'' p \<or> is_tag ''main'' p) anc)"

text \<open>\<^verbatim>\<open>sel.AttrOr(name, default)\<close> and \<^verbatim>\<open>sel.First().Text()\<close> for a selection of
  several nodes; \<^verbatim>\<open>sel.Text()\<close> of such a selection is \<open>Text_list\<close>.\<close>

definition AttrOr :: "node list \<Rightarrow> string \<Rightarrow> gostring \<Rightarrow> gostring" where
  "AttrOr sel name defaultValue =
     (case sel of
        [] \<Rightarrow> defaultValue
      | n # _ \<Rightarrow> (case Attr n name of Some v \<Rightarrow> v | None \<Rightarrow> defaultValue))"

definition First :: "node list \<Rightarrow> node list" where
  "First sel = take 1 sel"

text \<open>An \<^verbatim>\<open>Each\<close> loop whose function updates a captured variable and may panic.\<close>

fun Each :: "('s \<Rightarrow> node \<Rightarrow> 's option) \<Rightarrow> 's \<Rightarrow> node list \<Rightarrow> 's option" where
  "Each f s [] = Some s"
| "Each f s (n # ns) = (case f s n of None \<Rightarrow> None | Some s' \<Rightarrow> Each f s' ns)"

subsection \<open>Title (part_009)\<close>

text \<open>The function of both loops of \<^verbatim>\<open>getMetaContent\<close>.  The selectors are built
  from the property name, which at every call is a constant without a quote.\<close>

definition meta_content :: "gostring \<Rightarrow> node \<Rightarrow> gostring" where
  "meta_content content sel =
     (case Attr sel ''content'' of
        Some c \<Rightarrow> if c \<noteq> [] then c else content
      | None \<Rightarrow> content)"

definition getMetaContent :: "node list \<Rightarrow> string \<Rightarrow> gostring" where
  "getMetaContent doc property =
     (let content = foldl meta_content []
                      (matching_list (tag_with ''meta'' (attr_equals ''property'' property)) doc)
      in if content \<noteq> [] then content
         else foldl meta_content content
                (matching_list (tag_with ''meta'' (attr_equals ''name'' property)) doc))"

text \<open>
  The three JSON-LD scans end in the same steps: from the text after the key, go
  past the next colon, trim, and take what stands between a leading quote and the
  next quote.  The result is \<open>Some (Some v)\<close> when the scan assigns \<open>v\<close>,
  \<open>Some None\<close> when it assigns nothing, and \<open>None\<close> when a slice or an index
  panics.
\<close>

definition quoted_value :: "gostring \<Rightarrow> gostring option option" where
  "quoted_value rest =
     (let colonIdx = Index rest (runes '':'') in
      if colonIdx \<noteq> - 1 then
        (case slice_from rest (colonIdx + 1) of
           None \<Rightarrow> None
         | Some rest \<Rightarrow>
             let valueRest = TrimSpace rest in
             if int (length valueRest) > 0 then
               (case index_at valueRest 0 of
                  None \<Rightarrow> None
                | Some c \<Rightarrow>
                    if c = 0x22 then
                      (case slice_from valueRest 1 of
                         None \<Rightarrow> None
                       | Some valueRest \<Rightarrow>
                           let endIdx = Index valueRest (runes ''\"'') in
                           if endIdx \<noteq> - 1 then map_option Some (slice_to valueRest endIdx)
                           else Some None)
                    else Some None)
             else Some None)
      else Some None)"

definition headline_script :: "gostring \<Rightarrow> node \<Rightarrow> gostring option" where
  "headline_script headline sel =
     (if headline \<noteq> [] then Some headline
      else
        let text = Text sel;
            idx = Index text (runes ''\"headline\"'')
        in if idx \<noteq> - 1 then
             (case slice_from text (idx + int (length (runes ''\"headline\"''))) of
                None \<Rightarrow> None
              | Some rest \<Rightarrow>
                  (case quoted_value rest of
                     None \<Rightarrow> None
                   | Some None \<Rightarrow> Some headline
                   | Some (Some v) \<Rightarrow> Some v))
           else Some headline)"

definition first_text :: "gostring \<Rightarrow> node \<Rightarrow> gostring" where
  "first_text title sel = (if title = [] then TrimSpace (Text sel) else title)"

definition getSchemaHeadline :: "node list \<Rightarrow> gostring option" where
  "getSchemaHeadline doc =
     (case Each headline_script []
             (matching_list (tag_with ''script'' (attr_equals ''type'' ''application/ld+json'')) doc) of
        None \<Rightarrow> None
      | Some headline \<Rightarrow>
          if headline \<noteq> [] then Some headline
          else Some (foldl first_text headline
                       (matching_list (attr_equals ''itemprop'' ''headline'') doc)))"

definition getArticleH1 :: "node list \<Rightarrow> gostring" where
  "getArticleH1 doc = foldl first_text [] (query_list article_h1 [] doc)"

definition getFirstH1 :: "node list \<Rightarrow> gostring" where
  "getFirstH1 doc = foldl first_text [] (matching_list (is_tag ''h1'') doc)"

definition getTitleTag :: "node list \<Rightarrow> gostring" where
  "getTitleTag doc = TrimSpace (Text_list (matching_list (is_tag ''title'') doc))"

definition ExtractTitle :: "node list \<Rightarrow> gostring option" where
  "ExtractTitle doc =
     (if getMetaContent doc ''og:title'' \<noteq> [] then Some (cleanTitle (getMetaContent doc ''og:title''))
      else if getMetaContent doc ''twitter:title'' \<noteq> []
        then Some (cleanTitle (getMetaContent doc ''twitter:title''))
      else
        case getSchemaHeadline doc of
          None \<Rightarrow> None
        | Some title \<Rightarrow>
            if title \<noteq> [] then Some (cleanTitle title)
            else if getArticleH1 doc \<noteq> [] then Some (cleanTitle (getArticleH1 doc))
            else if getFirstH1 doc \<noteq> [] then Some (cleanTitle (getFirstH1 doc))
            else if getTitleTag doc \<noteq> [] then Some (cleanTitle (getTitleTag doc))
            else Some [])"

subsection \<open>Author (part_008)\<close>

definition authorPrefixes :: "gostring list" where
  "authorPrefixes = [runes ''By '', runes ''by '', runes ''BY '', runes ''Written by '',
     runes ''Author: '', runes ''Posted by '']"

text \<open>The body of the loop over the two patterns in \<^verbatim>\<open>getSchemaAuthor\<close>, and the loop,
  which the first assignment ends.\<close>

definition author_name :: "gostring \<Rightarrow> gostring \<Rightarrow> gostring option option" where
  "author_name text pattern =
     (let idx = Index text pattern in
      if idx \<noteq> - 1 then
        (case slice_from text idx of
           None \<Rightarrow> None
         | Some rest \<Rightarrow>
             let nameIdx = Index rest (runes ''\"name\"'') in
             if nameIdx \<noteq> - 1 then
               (case slice_from rest (nameIdx + int (length (runes ''\"name\"''))) of
                  None \<Rightarrow> None
                | Some nameRest \<Rightarrow> quoted_value nameRest)
             else Some None)
      else Some None)"

fun first_assigned :: "(gostring \<Rightarrow> gostring option option) \<Rightarrow> gostring list \<Rightarrow> gostring option option" where
  "first_assigned body [] = Some None"
| "first_assigned body (pattern # patterns) =
     (case body pattern of
        None \<Rightarrow> None
      | Some (Some v) \<Rightarrow> Some (Some v)
      | Some None \<Rightarrow> first_assigned body patterns)"

definition author_script :: "gostring \<Rightarrow> node \<Rightarrow> gostring option" where
  "author_script author sel =
     (if author \<noteq> [] then Some author
      else
        let text = Text sel in
        case first_assigned (author_name text) [runes ''\"author\"'', runes ''\"creator\"''] of
          None \<Rightarrow> None
        | Some None \<Rightarrow> Some author
        | Some (Some v) \<Rightarrow> Some v)"

definition author_itemprop :: "gostring \<Rightarrow> node \<Rightarrow> gostring" where
  "author_itemprop author sel =
     (if author = [] then
        (let nameSel = Find (attr_equals ''itemprop'' ''name'') sel in
         if length nameSel > 0 then TrimSpace (Text_list nameSel)
         else TrimSpace (Text sel))
      else author)"

definition getSchemaAuthor :: "node list \<Rightarrow> gostring option" where
  "getSchemaAuthor doc =
     (case Each author_script []
             (matching_list (tag_with ''script'' (attr_equals ''type'' ''application/ld+json'')) doc) of
        None \<Rightarrow> None
      | Some author \<Rightarrow>
          if author \<noteq> [] then Some author
          else Some (foldl author_itemprop author
                       (matching_list (attr_equals ''itemprop'' ''author'') doc)))"

definition authorSelectors :: "(node \<Rightarrow> bool) list" where
  "authorSelectors =
     [has_class ''author-name'', has_class ''author'', has_class ''byline-name'',
      has_class ''byline__name'', attr_equals ''rel'' ''author'', has_class ''entry-author-name'',
      has_class ''post-author-name'', has_class ''article-author'', has_class ''article__author'',
      has_class ''author__name'', tag_with ''a'' (has_class ''author''),
      tag_with ''span'' (has_class ''author'')]"

fun getAuthorBySelector_loop :: "(node \<Rightarrow> bool) list \<Rightarrow> node list \<Rightarrow> gostring" where
  "getAuthorBySelector_loop [] doc = []"
| "getAuthorBySelector_loop (selector # selectors) doc =
     (let sel = matching_list selector doc in
      if length sel > 0 then
        (let text = TrimSpace (Text_list (First sel)) in
         if text \<noteq> [] \<and> go_len text < 100 then text
         else getAuthorBySelector_loop selectors doc)
      else getAuthorBySelector_loop selectors doc)"

definition getAuthorBySelector :: "node list \<Rightarrow> gostring" where
  "getAuthorBySelector doc = getAuthorBySelector_loop authorSelectors doc"

text \<open>\<^verbatim>\<open>extractAuthorFromByline\<close>: the loop over the delimiters, the loop over the
  prefixes, which returns at the first prefix that fits, and the function.\<close>

definition bylineDelimiters :: "gostring list" where
  "bylineDelimiters = [runes '','', runes ''|'', [0xC2, 0xB7], runes '' on '', runes '' - '']"

fun cut_at_delimiters :: "gostring \<Rightarrow> gostring list \<Rightarrow> gostring option" where
  "cut_at_delimiters author [] = Some author"
| "cut_at_delimiters author (delim # delims) =
     (let idx = Index author delim in
      if idx \<noteq> - 1 then
        (case slice_to author idx of
           None \<Rightarrow> None
         | Some author \<Rightarrow> cut_at_delimiters author delims)
      else cut_at_delimiters author delims)"

fun byline_prefixes :: "gostring \<Rightarrow> gostring list \<Rightarrow> gostring option" where
  "byline_prefixes byline [] = Some []"
| "byline_prefixes byline (pfx # pfxs) =
     (if HasPrefix byline pfx then
        (let author = TrimPrefix byline pfx in
         map_option TrimSpace (cut_at_delimiters author bylineDelimiters))
      else byline_prefixes byline pfxs)"

definition extractAuthorFromByline :: "environment \<Rightarrow> gostring \<Rightarrow> gostring option" where
  "extractAuthorFromByline env byline =
     (let matches = FindStringSubmatch env bylineRegex byline in
      if length matches > 1 then map_option TrimSpace (index_at matches 1)
      else byline_prefixes byline authorPrefixes)"

definition bylineSelectors :: "(node \<Rightarrow> bool) list" where
  "bylineSelectors = [has_class ''byline'', has_class ''by-line'', has_class ''post-byline'',
     has_class ''article-byline'', has_class ''meta-author'']"

fun getAuthorByByline_loop :: "environment \<Rightarrow> (node \<Rightarrow> bool) list \<Rightarrow> node list \<Rightarrow> gostring option" where
  "getAuthorByByline_loop env [] doc = Some []"
| "getAuthorByByline_loop env (selector # selectors) doc =
     (let sel = matching_list selector doc in
      if length sel > 0 then
        (let text = TrimSpace (Text_list (First sel)) in
         case extractAuthorFromByline env text of
           None \<Rightarrow> None
         | Some author \<Rightarrow>
             if author \<noteq> [] then Some author
             else getAuthorByByline_loop env selectors doc)
      else getAuthorByByline_loop env selectors doc)"

definition getAuthorByByline :: "environment \<Rightarrow> node list \<Rightarrow> gostring option" where
  "getAuthorByByline env doc = getAuthorByByline_loop env bylineSelectors doc"

fun strip_first_prefix :: "gostring \<Rightarrow> gostring list \<Rightarrow> gostring" where
  "strip_first_prefix author [] = author"
| "strip_first_prefix author (pfx # pfxs) =
     (if HasPrefix author pfx then TrimPrefix author pfx
      else strip_first_prefix author pfxs)"

definition cleanAuthor :: "gostring \<Rightarrow> gostring" where
  "cleanAuthor author0 =
     (let author = TrimSpace author0;
          author = collapse_ws False author;
          author = strip_first_prefix author authorPrefixes
      in TrimSpace author)"

definition ExtractAuthor :: "environment \<Rightarrow> node list \<Rightarrow> gostring option" where
  "ExtractAuthor env doc =
     (if getMetaContent doc ''author'' \<noteq> [] then Some (cleanAuthor (getMetaContent doc ''author''))
      else if getMetaContent doc ''article:author'' \<noteq> []
        then Some (cleanAuthor (getMetaContent doc ''article:author''))
      else
        case getSchemaAuthor doc of
          None \<Rightarrow> None
        | Some author \<Rightarrow>
            if author \<noteq> [] then Some (cleanAuthor author)
            else if getAuthorBySelector doc \<noteq> [] then Some (cleanAuthor (getAuthorBySelector doc))
            else
              case getAuthorByByline env doc of
                None \<Rightarrow> None
              | Some author \<Rightarrow>
                  if author \<noteq> [] then Some (cleanAuthor author)
                  else Some [])"

subsection \<open>Date (internal/metadata/date.go)\<close>

text \<open>A \<^verbatim>\<open>*time.Time\<close> is a time or \<^verbatim>\<open>nil\<close>: \<open>Time option\<close>.\<close>

definition dateFormats :: "string list" where
  "dateFormats = [''2006-01-02T15:04:05Z07:00'', ''2006-01-02T15:04:05Z'',
     ''2006-01-02T15:04:05-07:00'', ''2006-01-02T15:04:05'', ''2006-01-02 15:04:05'',
     ''2006-01-02'', ''January 2, 2006'', ''Jan 2, 2006'', ''02 January 2006'', ''02 Jan 2006'',
     ''2006/01/02'', ''01/02/2006'', ''02/01/2006'']"

fun first_parsed :: "environment \<Rightarrow> string list \<Rightarrow> gostring \<Rightarrow> Time option" where
  "first_parsed env [] dateStr = None"
| "first_parsed env (format # formats) dateStr =
     (case time_Parse env format dateStr of
        Some t \<Rightarrow> Some t
      | None \<Rightarrow> first_parsed env formats dateStr)"

definition stripTimezone :: "environment \<Rightarrow> gostring \<Rightarrow> gostring" where
  "stripTimezone env dateStr = ReplaceAllString env tzRegex dateStr []"

definition parseDate :: "environment \<Rightarrow> gostring \<Rightarrow> Time option" where
  "parseDate env dateStr0 =
     (let dateStr = TrimSpace dateStr0 in
      if dateStr = [] then None
      else
        case first_parsed env dateFormats dateStr of
          Some t \<Rightarrow> Some t
        | None \<Rightarrow>
            let noTZ = stripTimezone env dateStr in
            first_parsed env dateFormats noTZ)"

definition parseMetaDate :: "environment \<Rightarrow> node list \<Rightarrow> string \<Rightarrow> Time option" where
  "parseMetaDate env doc property =
     (let content = getMetaContent doc property in
      if content = [] then None else parseDate env content)"

definition date_value :: "gostring \<Rightarrow> gostring \<Rightarrow> gostring option option" where
  "date_value text pattern =
     (let idx = Index text pattern in
      if idx \<noteq> - 1 then
        (case slice_from text (idx + int (length pattern)) of
           None \<Rightarrow> None
         | Some rest \<Rightarrow> quoted_value rest)
      else Some None)"

definition date_script :: "gostring \<Rightarrow> node \<Rightarrow> gostring option" where
  "date_script dateStr sel =
     (if dateStr \<noteq> [] then Some dateStr
      else
        let text = Text sel in
        case first_assigned (date_value text)
               [runes ''\"datePublished\"'', runes ''\"dateCreated\"''] of
          None \<Rightarrow> None
        | Some None \<Rightarrow> Some dateStr
        | Some (Some v) \<Rightarrow> Some v)"

definition date_itemprop :: "gostring \<Rightarrow> node \<Rightarrow> gostring" where
  "date_itemprop dateStr sel =
     (if dateStr = [] then
        (case Attr sel ''content'' of
           Some content \<Rightarrow> content
         | None \<Rightarrow>
             (case Attr sel ''datetime'' of
                Some datetime \<Rightarrow> datetime
              | None \<Rightarrow> TrimSpace (Text sel)))
      else dateStr)"

definition getSchemaDate :: "environment \<Rightarrow> node list \<Rightarrow> Time option option" where
  "getSchemaDate env doc =
     (case Each date_script []
             (matching_list (tag_with ''script'' (attr_equals ''type'' ''application/ld+json'')) doc) of
        None \<Rightarrow> None
      | Some dateStr \<Rightarrow>
          if dateStr \<noteq> [] then Some (parseDate env dateStr)
          else
            let dateStr = foldl date_itemprop dateStr
                            (matching_list (attr_equals ''itemprop'' ''datePublished'') doc)
            in if dateStr \<noteq> [] then Some (parseDate env dateStr) else Some None)"

definition time_element :: "environment \<Rightarrow> Time option \<Rightarrow> node \<Rightarrow> Time option" where
  "time_element env date sel =
     (if date \<noteq> None then date
      else
        let datetime = (case Attr sel ''datetime'' of Some v \<Rightarrow> v | None \<Rightarrow> []) in
        if datetime \<noteq> [] then parseDate env datetime else date)"

definition getTimeElement :: "environment \<Rightarrow> node list \<Rightarrow> Time option" where
  "getTimeElement env doc =
     foldl (time_element env) None (matching_list (tag_with ''time'' (attr_exists ''datetime'')) doc)"

definition dateSelectors :: "(node \<Rightarrow> bool) list" where
  "dateSelectors = [has_class ''post-date'', has_class ''entry-date'', has_class ''article-date'',
     has_class ''published-date'', has_class ''publish-date'', has_class ''date-published'',
     has_class ''meta-date'', has_class ''timestamp'', attr_contains ''class'' ''date'']"

fun getDateBySelector_loop :: "environment \<Rightarrow> (node \<Rightarrow> bool) list \<Rightarrow> node list \<Rightarrow> Time option" where
  "getDateBySelector_loop env [] doc = None"
| "getDateBySelector_loop env (selector # selectors) doc =
     (let sel = matching_list selector doc in
      if length sel > 0 then
        (let text = TrimSpace (Text_list (First sel)) in
         case parseDate env text of
           Some date \<Rightarrow> Some date
         | None \<Rightarrow> getDateBySelector_loop env selectors doc)
      else getDateBySelector_loop env selectors doc)"

definition getDateBySelector :: "environment \<Rightarrow> node list \<Rightarrow> Time option" where
  "getDateBySelector env doc = getDateBySelector_loop env dateSelectors doc"

definition ExtractDate :: "environment \<Rightarrow> node list \<Rightarrow> Time option option" where
  "ExtractDate env doc =
     (if parseMetaDate env doc ''article:published_time'' \<noteq> None
        then Some (parseMetaDate env doc ''article:published_time'')
      else if parseMetaDate env doc ''datePublished'' \<noteq> None
        then Some (parseMetaDate env doc ''datePublished'')
      else if parseMetaDate env doc ''date'' \<noteq> None then Some (parseMetaDate env doc ''date'')
      else if parseMetaDate env doc ''DC.date'' \<noteq> None then Some (parseMetaDate env doc ''DC.date'')
      else
        case getSchemaDate env doc of
          None \<Rightarrow> None
        | Some date \<Rightarrow>
            if date \<noteq> None then Some date
            else if getTimeElement env doc \<noteq> None then Some (getTimeElement env doc)
            else if getDateBySelector env doc \<noteq> None then Some (getDateBySelector env doc)
            else Some None)"

subsection \<open>Lead image (part_012)\<close>

text \<open>\<^verbatim>\<open>parseInt\<close> computes in Go's 64-bit \<^verbatim>\<open>int\<close>, which wraps around.\<close>

definition wrap64 :: "int \<Rightarrow> int" where
  "wrap64 x = (x + 2 ^ 63) mod 2 ^ 64 - 2 ^ 63"

fun parseInt_loop :: "int \<Rightarrow> gostring \<Rightarrow> int" where
  "parseInt_loop n [] = n"
| "parseInt_loop n (c # s) =
     (if c \<ge> 0x30 \<and> c \<le> 0x39 then parseInt_loop (wrap64 (n * 10 + int (c - 0x30))) s
      else n)"

definition parseInt :: "gostring \<Rightarrow> int" where
  "parseInt s = parseInt_loop 0 s"

text \<open>The function of the loop over the images of the article.  It has no slice and
  no index, and the only pointer it follows is the one it has just made.\<close>

definition article_image :: "Image option \<Rightarrow> node \<Rightarrow> Image option" where
  "article_image leadImage sel =
     (if leadImage \<noteq> None then leadImage
      else
        let src = (case Attr sel ''src'' of Some v \<Rightarrow> v | None \<Rightarrow> []);
            src = (if src = [] then (case Attr sel ''data-src'' of Some v \<Rightarrow> v | None \<Rightarrow> [])
                   else src)
        in if src = [] then leadImage
           else
             let img = \<lparr>ImageURL = src, Width = 0, Height = 0, Alt = AttrOr [sel] ''alt'' []\<rparr>;
                 width = AttrOr [sel] ''width'' [];
                 img = (if width \<noteq> [] then img\<lparr>Width := parseInt width\<rparr> else img);
                 height = AttrOr [sel] ''height'' [];
                 img = (if height \<noteq> [] then img\<lparr>Height := parseInt height\<rparr> else img)
             in if Width img \<ge> 200 \<or> Height img \<ge> 200 \<or> (Width img = 0 \<and> Height img = 0)
                then Some img
                else leadImage)"

definition extractLeadImage :: "node list \<Rightarrow> gostring \<Rightarrow> Image option" where
  "extractLeadImage doc baseURL =
     (let ogImage = AttrOr (matching_list (tag_with ''meta'' (attr_equals ''property'' ''og:image'')) doc)
                      ''content'' []
      in if ogImage \<noteq> [] then
           (let img = \<lparr>ImageURL = ogImage, Width = 0, Height = 0, Alt = []\<rparr>;
                width = AttrOr (matching_list
                          (tag_with ''meta'' (attr_equals ''property'' ''og:image:width'')) doc)
                          ''content'' [];
                img = (if width \<noteq> [] then img\<lparr>Width := parseInt width\<rparr> else img);
                height = AttrOr (matching_list
                           (tag_with ''meta'' (attr_equals ''property'' ''og:image:height'')) doc)
                           ''content'' [];
                img = (if height \<noteq> [] then img\<lparr>Height := parseInt height\<rparr> else img)
            in Some img)
         else
           let twitterImage = AttrOr (matching_list
                                (tag_with ''meta'' (attr_equals ''name'' ''twitter:image'')) doc)
                                ''content'' []
           in if twitterImage \<noteq> [] then
                Some \<lparr>ImageURL = twitterImage, Width = 0, Height = 0, Alt = []\<rparr>
              else foldl article_image None (query_list article_img [] doc))"

definition removeTagsList :: "string list" where
  "removeTagsList = [''script'', ''style'', ''noscript'', ''iframe'', ''object'', ''embed'',
     ''applet'', ''link'', ''meta'']"

definition RemoveUnwantedTags :: "node list \<Rightarrow> node list" where
  "RemoveUnwantedTags doc = foldl (\<lambda>d tag. remove_all (is_tag tag) d) doc removeTagsList"

definition Preprocess :: "environment \<Rightarrow> node list \<Rightarrow> node list" where
  "Preprocess env doc =
     (let doc = RemoveUnwantedTags doc;
          doc = RemoveHiddenElements env doc;
          doc = RemoveKnownWidgets env doc;
          doc = StripUnlikelyCandidates doc;
          doc = ConvertDataArticleBodyToParagraphs env doc;
          doc = ConvertToParagraphs env doc
      in doc)"

definition calculateConfidence :: "NodeScore \<Rightarrow> NodeScore list \<Rightarrow> int \<Rightarrow> real" where
  "calculateConfidence topCandidate yielded wordCount =
     (let confidence = 0.0;
          score = GetScore topCandidate;
          confidence = (if score > 100 then confidence + 0.4
                        else if score > 50 then confidence + 0.3
                        else if score > 20 then confidence + 0.2
                        else confidence + 0.1);
          confidence = (if wordCount > 500 then confidence + 0.3
                        else if wordCount > 200 then confidence + 0.2
                        else if wordCount > 100 then confidence + 0.1
                        else confidence);
          confidence = (if LinkDensity topCandidate < 0.1 then confidence + 0.2
                        else if LinkDensity topCandidate < 0.2 then confidence + 0.1
                        else confidence);
          candidates = GetCandidatesByScore yielded;
          confidence = (if length candidates \<ge> 2
                        then (let secondScore = GetScore (candidates ! 1) in
                              if score > secondScore * 2 then confidence + 0.1 else confidence)
                        else confidence);
          confidence = (if confidence > 1.0 then 1.0 else confidence)
      in confidence)"

text \<open>
  \<^verbatim>\<open>extractFromDocument\<close>.  The check \<^verbatim>\<open>topCandidate.Selection == nil\<close> has no
  counterpart: every entry of the score map holds the selection it was created for.
  \<^verbatim>\<open>contentSel.Clone()\<close> is the identity on values.  A panic in a metadata extractor
  or in \<^verbatim>\<open>GetExcerpt\<close> ends the call.
\<close>

definition extractFromDocument :: "environment \<Rightarrow> Config \<Rightarrow> node list \<Rightarrow> gostring \<Rightarrow> failure + Article" where
  "extractFromDocument env config doc0 baseURL =
     (case ExtractTitle doc0 of
        None \<Rightarrow> Inl Panicked
      | Some title \<Rightarrow>
     (case ExtractAuthor env doc0 of
        None \<Rightarrow> Inl Panicked
      | Some author \<Rightarrow>
     (case ExtractDate env doc0 of
        None \<Rightarrow> Inl Panicked
      | Some publishedAt \<Rightarrow>
      let leadImage = extractLeadImage doc0 baseURL;
          doc = Preprocess env doc0;
          (topCandidate, scoreMap) = Scorer_Score (range_top env) (MinParagraphLength config) doc
      in case topCandidate of
           None \<Rightarrow> Inl (Returned (NewExtractionError ''extract'' baseURL ErrNoContent))
         | Some candidate \<Rightarrow>
             let contentSel = Selection candidate;
                 contentSel = MergeSiblings env doc contentSel (GetScore candidate)
                                (MinParagraphLength config);
                 contentClone = contentSel;
                 contentClone = Postprocess contentClone;
                 contentClone = (if baseURL \<noteq> [] then ConvertRelativeURLs env contentClone baseURL
                                 else contentClone);
                 contentHTML = GetCleanHTML contentClone;
                 textContent = GetCleanText contentClone
             in if go_len textContent < MinContentLength config
                then Inl (Returned (NewExtractionError ''validate'' baseURL ErrContentTooShort))
                else
                  let wordCount = CountWords textContent;
                      confidence = calculateConfidence candidate (range_candidates env scoreMap) wordCount
                  in case GetExcerpt textContent 200 of
                       None \<Rightarrow> Inl Panicked
                     | Some excerpt \<Rightarrow>
                         Inr \<lparr>Title = title, Content = contentHTML, TextContent = textContent,
                              Excerpt = excerpt, Author = author, PublishedAt = publishedAt,
                              LeadImage = leadImage, URL = baseURL, WordCount = wordCount,
                              Score = GetScore candidate, Confidence = confidence\<rparr>)))"

text \<open>The content as \<open>extractFromDocument\<close> cleans it for a top candidate: the
  value of \<^verbatim>\<open>contentClone\<close> from which the HTML and the text are taken.\<close>

definition cleanedContent :: "environment \<Rightarrow> Config \<Rightarrow> node list \<Rightarrow> gostring \<Rightarrow> NodeScore \<Rightarrow> node" where
  "cleanedContent env config doc0 baseURL candidate =
     (let doc = Preprocess env doc0;
          contentSel = MergeSiblings env doc (Selection candidate) (GetScore candidate)
                         (MinParagraphLength config);
          contentClone = Postprocess contentSel
      in if baseURL \<noteq> [] then ConvertRelativeURLs env contentClone baseURL else contentClone)"

section \<open>Regular content trees\<close>

text \<open>A property of every node of a tree, of every node of a forest.\<close>

fun every :: "(node \<Rightarrow> bool) \<Rightarrow> node \<Rightarrow> bool"
  and every_list :: "(node \<Rightarrow> bool) \<Rightarrow> node list \<Rightarrow> bool" where
  "every P (Element i t a cs) = (P (Element i t a cs) \<and> every_list P cs)"
| "every P (TextNode s) = P (TextNode s)"
| "every P (CommentNode s) = P (CommentNode s)"
| "every_list P [] = True"
| "every_list P (n # ns) = (every P n \<and> every_list P ns)"

text \<open>
  A regular node.  The tokenizer ends a tag name and an attribute name at the
  latest at \<^verbatim>\<open>>\<close>, the parser gives no children to a void element, and the
  serialisation above leaves \<^verbatim>\<open>plaintext\<close> aside.  Beyond that, a regular text
  node has no carriage return (the tokenizer turns it into a newline, so that it
  can only come from a character reference such as \<^verbatim>\<open>&#13;\<close>) and a regular
  comment has no \<^verbatim>\<open>>\<close>.
\<close>

fun regular_node :: "node \<Rightarrow> bool" where
  "regular_node (TextNode s) = (0x0D \<notin> set s)"
| "regular_node (CommentNode s) = (0x3E \<notin> set s)"
| "regular_node (Element i t a cs) =
     (0x3E \<notin> set (runes t) \<and> list_all (\<lambda>att. 0x3E \<notin> set (runes (fst att))) a
      \<and> t \<noteq> ''plaintext'' \<and> (t \<in> set voidElements \<longrightarrow> cs = []))"

text \<open>What the three steps of \<^verbatim>\<open>Postprocess\<close> leave behind: no script, style or
  noscript element; only allowed attributes; no element without text other than
  \<^verbatim>\<open>br\<close>, \<^verbatim>\<open>hr\<close> and \<^verbatim>\<open>img\<close>.\<close>

definition attrs_allowed :: "node \<Rightarrow> bool" where
  "attrs_allowed n = list_all (\<lambda>att. fst att \<in> set (allowedAttributes (GetTagName n))) (attrs n)"

definition blank_element :: "node \<Rightarrow> bool" where
  "blank_element n =
     (node_id n \<noteq> None \<and> GetTagName n \<noteq> ''br'' \<and> GetTagName n \<noteq> ''hr''
      \<and> GetTagName n \<noteq> ''img'' \<and> list_all IsSpace (Text n))"

section \<open>Example documents\<close>

text \<open>Views of a score entry used to display concrete score maps.\<close>

definition entry_id :: "NodeScore \<Rightarrow> nat option" where
  "entry_id ns = node_id (Selection ns)"

definition entry_weighted :: "NodeScore \<Rightarrow> nat option \<times> real" where
  "entry_weighted ns = (node_id (Selection ns), GetWeightedScore ns)"

definition entry_content :: "NodeScore \<Rightarrow> nat option \<times> real" where
  "entry_content ns = (node_id (Selection ns), ContentScore ns)"

definition candidate_id :: "NodeScore option \<Rightarrow> nat option" where
  "candidate_id c = (case c of None \<Rightarrow> None | Some ns \<Rightarrow> node_id (Selection ns))"

text \<open>
  \<^verbatim>\<open><html><body><div><p>a{30}</p></div><div><p>a{30}</p></div></body></html>\<close>:
  two sibling blocks with the same content.
\<close>

definition tie_p1 :: node where
  "tie_p1 = Element 3 ''p'' [] [TextNode (replicate 30 0x61)]"

definition tie_p2 :: node where
  "tie_p2 = Element 5 ''p'' [] [TextNode (replicate 30 0x61)]"

definition tie_div1 :: node where
  "tie_div1 = Element 2 ''div'' [] [tie_p1]"

definition tie_div2 :: node where
  "tie_div2 = Element 4 ''div'' [] [tie_p2]"

definition tie_body :: node where
  "tie_body = Element 1 ''body'' [] [tie_div1, tie_div2]"

definition tie_doc :: "node list" where
  "tie_doc = [Element 0 ''html'' [] [tie_body]]"

text \<open>The entries that propagation stores for \<open>tie_doc\<close>.\<close>

definition tie_entry_div1 :: NodeScore where
  "tie_entry_div1 = \<lparr>Selection = tie_div1, ContentScore = 6, Weight = 0, LinkDensity = 0,
     TextLength = GetTextLength tie_div1\<rparr>"

definition tie_entry_body :: NodeScore where
  "tie_entry_body = \<lparr>Selection = tie_body, ContentScore = 1, Weight = 0, LinkDensity = 0,
     TextLength = GetTextLength tie_body\<rparr>"

definition tie_entry_div2 :: NodeScore where
  "tie_entry_div2 = \<lparr>Selection = tie_div2, ContentScore = 6, Weight = 0, LinkDensity = 0,
     TextLength = GetTextLength tie_div2\<rparr>"

text \<open>
  \<^verbatim>\<open><html><body><form><p>a{30}, a{30}</p><p>a{30}</p></form></body></html>\<close>:
  a form whose first paragraph scores 3 (base 1, one comma, 62 runes) and whose
  second paragraph scores 1.
\<close>

definition form_p1 :: node where
  "form_p1 = Element 3 ''p'' [] [TextNode (replicate 30 0x61 @ [0x2C, 0x20] @ replicate 30 0x61)]"

definition form_p2 :: node where
  "form_p2 = Element 4 ''p'' [] [TextNode (replicate 30 0x61)]"

definition form_form :: node where
  "form_form = Element 2 ''form'' [] [form_p1, form_p2]"

definition form_body :: node where
  "form_body = Element 1 ''body'' [] [form_form]"

definition form_doc :: "node list" where
  "form_doc = [Element 0 ''html'' [] [form_body]]"

text \<open>
  \<^verbatim>\<open><html><body><div class="sidebar"><a href="#">x{300}</a><div class="comment">y{200}</div></div></body></html>\<close>:
  a blacklisted block of 200 characters without links inside a blacklisted block
  whose link density is 0.6.
\<close>

definition nested_inner :: node where
  "nested_inner = Element 4 ''div'' [(''class'', runes ''comment'')] [TextNode (replicate 200 0x79)]"

definition nested_outer :: node where
  "nested_outer = Element 2 ''div'' [(''class'', runes ''sidebar'')]
     [Element 3 ''a'' [(''href'', runes ''#'')] [TextNode (replicate 300 0x78)], nested_inner]"

definition nested_body :: node where
  "nested_body = Element 1 ''body'' [] [nested_outer]"

definition nested_html :: node where
  "nested_html = Element 0 ''html'' [] [nested_body]"

definition nested_doc :: "node list" where
  "nested_doc = [nested_html]"

text \<open>
  \<^verbatim>\<open><html><body><div class="comments">y{200}</div></body></html>\<close>: a blacklisted
  block of 200 characters without links, directly below the body.
\<close>

definition keep_div :: node where
  "keep_div = Element 2 ''div'' [(''class'', runes ''comments'')] [TextNode (replicate 200 0x79)]"

definition keep_body :: node where
  "keep_body = Element 1 ''body'' [] [keep_div]"

definition keep_html :: node where
  "keep_html = Element 0 ''html'' [] [keep_body]"

definition keep_doc :: "node list" where
  "keep_doc = [keep_html]"

text \<open>
  An environment for documents without hidden elements, widgets,
  \<^verbatim>\<open>data-articlebody\<close> markers, \<^verbatim>\<open>div\<close>s or \<^verbatim>\<open>span\<close>s without block children,
  and mergeable siblings: the unmodelled steps find nothing to do.  The range loops
  yield the entries in the order in which they were stored.  No layout parses and no
  pattern matches, which is how the library answers for the empty string.
\<close>

definition plain_env :: environment where
  "plain_env =
     \<lparr>time_Parse = (\<lambda>layout v. None),
      FindStringSubmatch = (\<lambda>re s. []),
      ReplaceAllString = (\<lambda>re s repl. s),
      RemoveHiddenElements = (\<lambda>doc. doc), RemoveKnownWidgets = (\<lambda>doc. doc),
      ConvertDataArticleBodyToParagraphs = (\<lambda>doc. doc), ConvertToParagraphs = (\<lambda>doc. doc),
      MergeSiblings = (\<lambda>doc sel topScore minParagraphLength. sel),
      ConvertRelativeURLs = (\<lambda>sel baseURL. sel),
      range_top = (\<lambda>sm. sm), range_candidates = (\<lambda>sm. sm)\<rparr>"

definition small_config :: Config where
  "small_config = \<lparr>MinContentLength = 20, MinParagraphLength = 25, Debug = False\<rparr>"

text \<open>
  \<^verbatim>\<open><html id="popup"><body class="sidebar"><p>a{30}</p></body></html>\<close>: the only
  scored nodes are the body and the html element, both with a blacklisted name.
\<close>

definition neg_p :: node where
  "neg_p = Element 2 ''p'' [] [TextNode (replicate 30 0x61)]"

definition neg_body :: node where
  "neg_body = Element 1 ''body'' [(''class'', runes ''sidebar'')] [neg_p]"

definition neg_html :: node where
  "neg_html = Element 0 ''html'' [(''id'', runes ''popup'')] [neg_body]"

definition neg_doc :: "node list" where
  "neg_doc = [neg_html]"

definition neg_entry_body :: NodeScore where
  "neg_entry_body = \<lparr>Selection = neg_body, ContentScore = 1, Weight = - 25, LinkDensity = 0,
     TextLength = 30\<rparr>"

definition neg_entry_html :: NodeScore where
  "neg_entry_html = \<lparr>Selection = neg_html, ContentScore = 1 / 2, Weight = - 25, LinkDensity = 0,
     TextLength = 30\<rparr>"

text \<open>\<^verbatim>\<open><html><body><p>a{30}</p></body></html>\<close>.\<close>

definition mini_p :: node where
  "mini_p = Element 2 ''p'' [] [TextNode (replicate 30 0x61)]"

definition mini_body :: node where
  "mini_body = Element 1 ''body'' [] [mini_p]"

definition mini_html :: node where
  "mini_html = Element 0 ''html'' [] [mini_body]"

definition mini_doc :: "node list" where
  "mini_doc = [mini_html]"

definition mini_entry_body :: NodeScore where
  "mini_entry_body = \<lparr>Selection = mini_body, ContentScore = 1, Weight = 0, LinkDensity = 0,
     TextLength = 30\<rparr>"

definition mini_entry_html :: NodeScore where
  "mini_entry_html = \<lparr>Selection = mini_html, ContentScore = 1 / 2, Weight = 0, LinkDensity = 0,
     TextLength = 30\<rparr>"

text \<open>The default configuration: \<^verbatim>\<open>MinContentLength\<close> 100, \<^verbatim>\<open>MinParagraphLength\<close> 25.\<close>

definition default_config :: Config where
  "default_config = \<lparr>MinContentLength = 100, MinParagraphLength = 25, Debug = False\<rparr>"

definition mini_article :: Article where
  "mini_article =
     \<lparr>Title = [], Content = runes ''<p>'' @ replicate 30 0x61 @ runes ''</p>'',
      TextContent = replicate 30 0x61, Excerpt = replicate 30 0x61, Author = [],
      PublishedAt = None, LeadImage = None, URL = [], WordCount = 1, Score = 1,
      Confidence = 3 / 10\<rparr>"




text \<open>A link around a wrapped image and a comment, and a small piece of content.\<close>

definition comment_content :: node where
  "comment_content = Element 10 ''div'' []
     [Element 11 ''a'' [(''href'', runes ''x'')]
        [Element 12 ''span'' [] [Element 13 ''img'' [(''src'', runes ''y'')] []],
         CommentNode (runes ''a > b'')]]"

definition sample_content :: node where
  "sample_content = Element 20 ''div'' []
     [Element 21 ''p'' [(''class'', runes ''lead'')] [TextNode (runes ''Hi'')],
      Element 22 ''span'' [] [],
      Element 23 ''a'' [(''href'', runes ''x'')] [Element 24 ''img'' [(''src'', runes ''y'')] []]]"

section \<open>Properties of the text functions\<close>

lemma CountCommas_loop_filter:
  "CountCommas_loop c s = c + int (length (filter (\<lambda>r. r = 0x2C \<or> r = 0xFF0C) s))"
  by (induction s arbitrary: c) auto

lemma CountCommas_filter:
  "CountCommas s = int (length (filter (\<lambda>r. r = 0x2C \<or> r = 0xFF0C) s))"
  by (simp add: CountCommas_def CountCommas_loop_filter)

lemma NormalizeText_commas: "NormalizeText (replicate k 0x2C) = replicate k 0x2C"
proof -
  have c: "collapse_ws b (replicate k 0x2C) = replicate k 0x2C" for b
    by (induction k arbitrary: b) (auto simp: re_space_def)
  have ns: "\<not> IsSpace 0x2C"
    by (simp add: IsSpace_def)
  show ?thesis
    by (simp add: NormalizeText_def TrimSpace_def c ns)
qed

lemma re_space_IsSpace: "re_space r \<Longrightarrow> IsSpace r"
  by (auto simp: re_space_def IsSpace_def)

lemma CountWords_loop_split:
  "(inWord \<longleftrightarrow> cur \<noteq> []) \<Longrightarrow> CountWords_loop c inWord s = c + int (length (split_ws cur s))"
proof (induction s arbitrary: c inWord cur)
  case Nil
  then show ?case by simp
next
  case (Cons r rs)
  show ?case
  proof (cases "IsSpace r")
    case True
    with Cons.prems Cons.IH [of False "[]"] show ?thesis by auto
  next
    case False
    with Cons.IH [of True "cur @ [r]" c] show ?thesis by simp
  qed
qed

lemma split_ws_collapse:
  "(in_run \<longrightarrow> cur = []) \<Longrightarrow> split_ws cur (collapse_ws in_run s) = split_ws cur s"
proof (induction s arbitrary: in_run cur)
  case Nil
  then show ?case by simp
next
  case (Cons r rs)
  show ?case
  proof (cases "re_space r")
    case True
    then have sp: "IsSpace r" by (rule re_space_IsSpace)
    from Cons.IH [of True "[]"] have ih: "split_ws [] (collapse_ws True rs) = split_ws [] rs"
      by simp
    show ?thesis using True sp ih Cons.prems by (auto simp: IsSpace_def)
  next
    case False
    from Cons.IH [of False] have ih: "split_ws c' (collapse_ws False rs) = split_ws c' rs" for c'
      by simp
    show ?thesis using False by (simp add: ih)
  qed
qed

lemma split_ws_dropWhile: "split_ws [] (dropWhile IsSpace s) = split_ws [] s"
  by (induction s) auto

lemma split_ws_spaces:
  "\<forall>r\<in>set ys. IsSpace r \<Longrightarrow> split_ws cur ys = (if cur = [] then [] else [cur])"
  by (induction ys arbitrary: cur) auto

lemma split_ws_append_spaces:
  "\<forall>r\<in>set ys. IsSpace r \<Longrightarrow> split_ws cur (xs @ ys) = split_ws cur xs"
  by (induction xs arbitrary: cur) (auto simp: split_ws_spaces)

lemma split_ws_trim_right: "split_ws cur (rev (dropWhile IsSpace (rev s))) = split_ws cur s"
proof -
  have "s = rev (dropWhile IsSpace (rev s)) @ rev (takeWhile IsSpace (rev s))"
    by (metis rev_append rev_rev_ident takeWhile_dropWhile_id)
  moreover have "\<forall>r\<in>set (rev (takeWhile IsSpace (rev s))). IsSpace r"
    by (auto dest: set_takeWhileD)
  ultimately show ?thesis
    by (metis split_ws_append_spaces)
qed

lemma ws_tokens_NormalizeText: "ws_tokens (NormalizeText s) = ws_tokens s"
  by (simp add: ws_tokens_def NormalizeText_def TrimSpace_def split_ws_trim_right
      split_ws_dropWhile split_ws_collapse)

lemma CountWords_tokens: "CountWords s = int (length (ws_tokens s))"
proof (cases "NormalizeText s = []")
  case True
  then have "ws_tokens (NormalizeText s) = []" by (simp add: ws_tokens_def)
  then have "ws_tokens s = []" by (simp add: ws_tokens_NormalizeText)
  with True show ?thesis by (simp add: CountWords_def)
next
  case False
  have "CountWords_loop 0 False (NormalizeText s) = int (length (split_ws [] (NormalizeText s)))"
    using CountWords_loop_split [of False "[]" 0 "NormalizeText s"] by simp
  also have "\<dots> = int (length (ws_tokens s))"
    using ws_tokens_NormalizeText [of s] by (simp add: ws_tokens_def)
  finally show ?thesis using False by (simp add: CountWords_def)
qed

lemma collapse_ws_no_space: "\<forall>r\<in>set s. \<not> re_space r \<Longrightarrow> collapse_ws b s = s"
  by (induction s arbitrary: b) auto

lemma dropWhile_none: "\<forall>r\<in>set s. \<not> P r \<Longrightarrow> dropWhile P s = s"
  by (cases s) auto

lemma NormalizeText_no_space: "\<forall>r\<in>set s. \<not> IsSpace r \<Longrightarrow> NormalizeText s = s"
proof -
  assume a: "\<forall>r\<in>set s. \<not> IsSpace r"
  then have "\<forall>r\<in>set s. \<not> re_space r" using re_space_IsSpace by blast
  then have c: "collapse_ws False s = s" by (rule collapse_ws_no_space)
  from a have d: "dropWhile IsSpace s = s" by (rule dropWhile_none)
  from a have "\<forall>r\<in>set (rev s). \<not> IsSpace r" by simp
  then have e: "dropWhile IsSpace (rev s) = rev s" by (rule dropWhile_none)
  show ?thesis by (simp add: NormalizeText_def TrimSpace_def c d e)
qed

lemma TrimSpace_no_space: "\<forall>r\<in>set s. \<not> IsSpace r \<Longrightarrow> TrimSpace s = s"
  by (simp add: TrimSpace_def dropWhile_none)

lemma TrimSpace_ends:
  assumes "s \<noteq> []" "\<not> IsSpace (hd s)" "\<not> IsSpace (last s)"
  shows "TrimSpace s = s"
proof -
  from assms have a: "dropWhile IsSpace s = s" by (cases s) auto
  from assms have "rev s \<noteq> []" "\<not> IsSpace (hd (rev s))" by (auto simp: hd_rev)
  then have b: "dropWhile IsSpace (rev s) = rev s" by (cases "rev s") auto
  show ?thesis by (simp add: TrimSpace_def a b)
qed

lemma split_ws_no_space:
  "\<forall>r\<in>set s. \<not> IsSpace r \<Longrightarrow> split_ws cur s = (if cur @ s = [] then [] else [cur @ s])"
  by (induction s arbitrary: cur) auto

lemma CountWords_one: "s \<noteq> [] \<Longrightarrow> \<forall>r\<in>set s. \<not> IsSpace r \<Longrightarrow> CountWords s = 1"
  by (simp add: CountWords_tokens ws_tokens_def split_ws_no_space)

lemma not_space_a: "\<not> IsSpace 0x61"
  by (simp add: IsSpace_def)

lemma keyword_blank: "\<not> IsBlacklisted [0x20]" "\<not> IsWhitelisted [0x20]"
  by (simp_all add: IsBlacklisted_def IsWhitelisted_def pattern_matches_def blacklistKeywords_def
      whitelistKeywords_def runes_def simple_fold_def)

section \<open>Properties of the score map\<close>

lemma GetTopCandidate_loop_None:
  "GetTopCandidate_loop topc topScore ys = None \<longleftrightarrow>
     topc = None \<and> (\<forall>ns\<in>set ys. GetWeightedScore ns \<le> topScore)"
  by (induction ys arbitrary: topc topScore) (auto simp: Let_def)

lemma GetTopCandidate_loop_Some:
  "GetTopCandidate_loop topc topScore ys = Some t \<Longrightarrow>
     (topc = Some t \<and> (\<forall>ns\<in>set ys. GetWeightedScore ns \<le> topScore)) \<or>
     (\<exists>pre post. ys = pre @ t # post \<and> topScore < GetWeightedScore t \<and>
        (\<forall>ns\<in>set pre. GetWeightedScore ns < GetWeightedScore t) \<and>
        (\<forall>ns\<in>set post. GetWeightedScore ns \<le> GetWeightedScore t))"
proof (induction ys arbitrary: topc topScore)
  case Nil
  then show ?case by simp
next
  case (Cons y ys)
  show ?case
  proof (cases "topScore < GetWeightedScore y")
    case True
    with Cons.prems have run: "GetTopCandidate_loop (Some y) (GetWeightedScore y) ys = Some t"
      by (simp add: Let_def)
    from Cons.IH [OF run] show ?thesis
    proof
      assume "Some y = Some t \<and> (\<forall>ns\<in>set ys. GetWeightedScore ns \<le> GetWeightedScore y)"
      then have "y # ys = [] @ t # ys" and "\<forall>ns\<in>set ys. GetWeightedScore ns \<le> GetWeightedScore t"
        by auto
      with True \<open>Some y = Some t \<and> _\<close> show ?thesis
        by (intro disjI2 exI [of _ "[]"] exI [of _ ys]) auto
    next
      assume "\<exists>pre post. ys = pre @ t # post \<and> GetWeightedScore y < GetWeightedScore t \<and>
        (\<forall>ns\<in>set pre. GetWeightedScore ns < GetWeightedScore t) \<and>
        (\<forall>ns\<in>set post. GetWeightedScore ns \<le> GetWeightedScore t)"
      then obtain pre post where p: "ys = pre @ t # post"
        "GetWeightedScore y < GetWeightedScore t"
        "\<forall>ns\<in>set pre. GetWeightedScore ns < GetWeightedScore t"
        "\<forall>ns\<in>set post. GetWeightedScore ns \<le> GetWeightedScore t"
        by blast
      with True show ?thesis
        by (intro disjI2 exI [of _ "y # pre"] exI [of _ post]) auto
    qed
  next
    case False
    with Cons.prems have run: "GetTopCandidate_loop topc topScore ys = Some t"
      by (simp add: Let_def)
    from Cons.IH [OF run] show ?thesis
    proof
      assume "topc = Some t \<and> (\<forall>ns\<in>set ys. GetWeightedScore ns \<le> topScore)"
      with False show ?thesis by auto
    next
      assume "\<exists>pre post. ys = pre @ t # post \<and> topScore < GetWeightedScore t \<and>
        (\<forall>ns\<in>set pre. GetWeightedScore ns < GetWeightedScore t) \<and>
        (\<forall>ns\<in>set post. GetWeightedScore ns \<le> GetWeightedScore t)"
      then obtain pre post where p: "ys = pre @ t # post"
        "topScore < GetWeightedScore t"
        "\<forall>ns\<in>set pre. GetWeightedScore ns < GetWeightedScore t"
        "\<forall>ns\<in>set post. GetWeightedScore ns \<le> GetWeightedScore t"
        by blast
      with False show ?thesis
        by (intro disjI2 exI [of _ "y # pre"] exI [of _ post]) auto
    qed
  qed
qed

lemma GetTopCandidate_None_iff:
  "GetTopCandidate ys = None \<longleftrightarrow> (\<forall>ns\<in>set ys. GetWeightedScore ns \<le> - 1)"
  by (simp add: GetTopCandidate_def GetTopCandidate_loop_None)

lemma GetTopCandidate_Some:
  assumes "GetTopCandidate ys = Some t"
  shows "\<exists>pre post. ys = pre @ t # post \<and> - 1 < GetWeightedScore t \<and>
        (\<forall>ns\<in>set pre. GetWeightedScore ns < GetWeightedScore t) \<and>
        (\<forall>ns\<in>set post. GetWeightedScore ns \<le> GetWeightedScore t)"
  using GetTopCandidate_loop_Some [of None "- 1" ys t] assms
  by (simp add: GetTopCandidate_def)

text \<open>The keys of the map: the identities of the scored nodes.\<close>

lemma Selection_initializeNodeScore [simp]:
  "Selection (initializeNodeScore ns sel) = Selection ns"
  by (simp add: initializeNodeScore_def Let_def AddScore_def SetWeight_def SetLinkDensity_def
      SetTextLength_def)

lemma GetOrNil_None_iff:
  "GetOrNil sm sel = None \<longleftrightarrow> node_id sel \<notin> set (map (node_id \<circ> Selection) sm)"
  by (induction sm) (auto simp: same_node_def)

lemma GetOrNil_Some_same:
  "GetOrNil sm sel = Some s \<Longrightarrow> node_id (Selection s) = node_id sel"
  by (induction sm) (auto simp: same_node_def split: if_splits)

lemma keys_put:
  "map (node_id \<circ> Selection) (put ns sm) = map (node_id \<circ> Selection) sm"
  by (induction sm) (auto simp: put_def same_node_def)

lemma keys_contribute:
  "map (node_id \<circ> Selection) (contribute anc amount sm) =
     (if node_id anc \<in> set (map (node_id \<circ> Selection) sm)
      then map (node_id \<circ> Selection) sm
      else map (node_id \<circ> Selection) sm @ [node_id anc])"
proof (cases "GetOrNil sm anc")
  case None
  then have "node_id anc \<notin> set (map (node_id \<circ> Selection) sm)"
    by (simp add: GetOrNil_None_iff)
  with None show ?thesis
    by (simp add: contribute_def Get_def keys_put NewNodeScore_def)
next
  case (Some s)
  then have "node_id anc \<in> set (map (node_id \<circ> Selection) sm)"
    using GetOrNil_None_iff [of sm anc] by simp
  with Some show ?thesis
    by (simp add: contribute_def Get_def keys_put)
qed

lemma distinct_keys_contribute:
  "distinct (map (node_id \<circ> Selection) sm) \<Longrightarrow>
   distinct (map (node_id \<circ> Selection) (contribute anc amount sm))"
  by (simp add: keys_contribute)

lemma distinct_keys_propagate_paragraph:
  "distinct (map (node_id \<circ> Selection) sm) \<Longrightarrow>
   distinct (map (node_id \<circ> Selection) (propagate_paragraph m sm p))"
  by (cases p)
    (auto simp: propagate_paragraph_def Let_def intro!: distinct_keys_contribute
      split: option.splits)

lemma distinct_keys_foldl:
  "distinct (map (node_id \<circ> Selection) sm) \<Longrightarrow>
   distinct (map (node_id \<circ> Selection) (foldl (propagate_paragraph m) sm ps))"
  by (induction ps arbitrary: sm) (auto intro: distinct_keys_propagate_paragraph)

lemma distinct_keys_ScoreAndPropagate:
  "distinct (map (node_id \<circ> Selection) (ScoreAndPropagate doc m))"
  by (simp add: ScoreAndPropagate_def PropagateScores_def distinct_keys_foldl)

lemma ScoreParagraph_formula:
  "ScoreParagraph sel minLength =
     (if int (length (GetText sel)) < minLength then 0
      else 1 + real (length (filter (\<lambda>r. r = 0x2C \<or> r = 0xFF0C) (GetText sel)))
             + real_of_int (min (int (length (GetText sel)) div 50) 3))"
  by (simp add: ScoreParagraph_def Let_def CountCommas_filter ParagraphBaseScore_def
      CommaBonus_def LengthChunkSize_def MaxLengthBonus_def min_def)

lemma no_links_density: "Find (is_tag ''a'') n = [] \<Longrightarrow> CalculateLinkDensity n = 0"
  by (simp add: CalculateLinkDensity_def GetLinkTextLength_def Let_def)

text \<open>The initialisation of an element without attributes and without links.\<close>

lemma plain_init:
  assumes "attrs n = []" and "Find (is_tag ''a'') n = []"
  shows "initializeNodeScore ns n =
    ns\<lparr>ContentScore := ContentScore ns + GetTagScore (GetTagName n), Weight := 0,
       LinkDensity := 0, TextLength := GetTextLength n\<rparr>"
  using assms
  by (simp add: initializeNodeScore_def Let_def AddScore_def SetWeight_def SetLinkDensity_def
      SetTextLength_def GetAttribute_def Attr_def GetWeight_def hasHNews_def HasClass_def
      no_links_density)

section \<open>The removing loops compute the pruned forest\<close>

lemma lookup_absent:
  "i \<notin> set (ids n) \<Longrightarrow> lookup i n = None"
  "i \<notin> set (ids_list ns) \<Longrightarrow> lookup_list i ns = None"
  by (induction n and ns rule: ids_ids_list.induct) auto

lemma detach_absent:
  "i \<notin> set (ids n) \<Longrightarrow> detach i n = [n]"
  "i \<notin> set (ids_list ns) \<Longrightarrow> detach_list i ns = ns"
  by (induction n and ns rule: ids_ids_list.induct) auto

lemma lookup_list_append:
  "lookup_list i (ms @ ns) =
     (case lookup_list i ms of Some m \<Rightarrow> Some m | None \<Rightarrow> lookup_list i ns)"
  by (induction ms) (auto split: option.splits)

lemma detach_list_append: "detach_list i (ms @ ns) = detach_list i ms @ detach_list i ns"
  by (induction ms) auto

lemma ids_list_append: "ids_list (ms @ ns) = ids_list ms @ ids_list ns"
  by (induction ms) auto

lemma ids_detach_subset:
  "set (ids_list (detach i n)) \<subseteq> set (ids n)"
  "set (ids_list (detach_list i ns)) \<subseteq> set (ids_list ns)"
  by (induction n and ns rule: ids_ids_list.induct) (auto simp: ids_list_append)

lemma matching_ids_subset:
  "set (matching_ids sel n) \<subseteq> set (ids n)"
  "set (matching_ids_list sel ns) \<subseteq> set (ids_list ns)"
  by (induction n and ns rule: ids_ids_list.induct) auto

lemma ids_prune_subset:
  "set (ids_list (prune rm n)) \<subseteq> set (ids n)"
  "set (ids_list (prune_list rm ns)) \<subseteq> set (ids_list ns)"
  by (induction n and ns rule: ids_ids_list.induct) (auto simp: ids_list_append)

lemma visit_append_left:
  "i \<notin> set (ids_list ns) \<Longrightarrow> visit rm (ms @ ns) i = visit rm ms i @ ns"
  by (auto simp: visit_def lookup_list_append detach_list_append lookup_absent detach_absent
      split: option.splits)

lemma visit_append_right:
  "i \<notin> set (ids_list ms) \<Longrightarrow> visit rm (ms @ ns) i = ms @ visit rm ns i"
  by (auto simp: visit_def lookup_list_append detach_list_append lookup_absent detach_absent
      split: option.splits)

lemma visit_child:
  "i \<noteq> j \<Longrightarrow> visit rm [Element j t a cs] i = [Element j t a (visit rm cs i)]"
  by (auto simp: visit_def split: option.splits)

lemma visit_self:
  "visit rm [Element i t a cs] i = (if rm (Element i t a cs) then [] else [Element i t a cs])"
  by (simp add: visit_def)

lemma visit_Nil: "visit rm [] i = []"
  by (simp add: visit_def)

lemma foldl_visit_Nil: "foldl (visit rm) [] js = []"
  by (induction js) (auto simp: visit_Nil)

lemma ids_visit_subset: "set (ids_list (visit rm ns i)) \<subseteq> set (ids_list ns)"
  using ids_detach_subset(2) [of i ns] by (auto simp: visit_def split: option.splits)

lemma foldl_visit_left:
  "set js \<inter> set (ids_list ns) = {} \<Longrightarrow>
   foldl (visit rm) (ms @ ns) js = foldl (visit rm) ms js @ ns"
  by (induction js arbitrary: ms) (auto simp: visit_append_left)

lemma foldl_visit_right:
  "set js \<inter> set (ids_list ms) = {} \<Longrightarrow>
   foldl (visit rm) (ms @ ns) js = ms @ foldl (visit rm) ns js"
  by (induction js arbitrary: ns) (auto simp: visit_append_right)

lemma foldl_visit_child:
  "j \<notin> set js \<Longrightarrow>
   foldl (visit rm) [Element j t a cs] js = [Element j t a (foldl (visit rm) cs js)]"
  by (induction js arbitrary: cs) (auto simp: visit_child)

lemma each_remove_prune_aux:
  "distinct (ids n) \<Longrightarrow>
     foldl (visit rm) [n] (matching_ids sel n) = prune (\<lambda>s. sel s \<and> rm s) n"
  "distinct (ids_list ns) \<Longrightarrow>
     foldl (visit rm) ns (matching_ids_list sel ns) = prune_list (\<lambda>s. sel s \<and> rm s) ns"
proof (induction n and ns rule: ids_ids_list.induct)
  case (1 i t a cs)
  let ?n = "Element i t a cs"
  from "1.prems" have d: "distinct (ids_list cs)" and ni: "i \<notin> set (ids_list cs)"
    by auto
  from ni matching_ids_subset(2) [of sel cs] have nm: "i \<notin> set (matching_ids_list sel cs)"
    by auto
  show ?case
  proof (cases "sel ?n \<and> rm ?n")
    case True
    then show ?thesis by (simp add: visit_self foldl_visit_Nil)
  next
    case False
    have "foldl (visit rm) [?n] (matching_ids sel ?n)
            = foldl (visit rm) [?n] (matching_ids_list sel cs)"
      using False by (auto simp: visit_self)
    also have "\<dots> = [Element i t a (foldl (visit rm) cs (matching_ids_list sel cs))]"
      using nm by (rule foldl_visit_child)
    also have "\<dots> = [Element i t a (prune_list (\<lambda>s. sel s \<and> rm s) cs)]"
      using "1.IH" [OF d] by simp
    finally show ?thesis using False by auto
  qed
next
  case (2 uu)
  then show ?case by simp
next
  case (3 uv)
  then show ?case by simp
next
  case 4
  then show ?case by simp
next
  case (5 n ns)
  from "5.prems" have dn: "distinct (ids n)" and dns: "distinct (ids_list ns)"
    and dj: "set (ids n) \<inter> set (ids_list ns) = {}"
    by auto
  have l: "set (matching_ids sel n) \<inter> set (ids_list ns) = {}"
    using dj matching_ids_subset(1) [of sel n] by auto
  have r: "set (matching_ids_list sel ns) \<inter> set (ids_list (prune (\<lambda>s. sel s \<and> rm s) n)) = {}"
    using dj matching_ids_subset(2) [of sel ns] ids_prune_subset(1) [of "\<lambda>s. sel s \<and> rm s" n]
    by auto
  have "foldl (visit rm) (n # ns) (matching_ids_list sel (n # ns))
          = foldl (visit rm) (foldl (visit rm) ([n] @ ns) (matching_ids sel n))
              (matching_ids_list sel ns)"
    by simp
  also have "foldl (visit rm) ([n] @ ns) (matching_ids sel n)
          = foldl (visit rm) [n] (matching_ids sel n) @ ns"
    using l by (rule foldl_visit_left)
  also have "foldl (visit rm) [n] (matching_ids sel n) = prune (\<lambda>s. sel s \<and> rm s) n"
    using "5.IH"(1) [OF dn] .
  also have "foldl (visit rm) (prune (\<lambda>s. sel s \<and> rm s) n @ ns) (matching_ids_list sel ns)
          = prune (\<lambda>s. sel s \<and> rm s) n @ foldl (visit rm) ns (matching_ids_list sel ns)"
    using r by (rule foldl_visit_right)
  also have "foldl (visit rm) ns (matching_ids_list sel ns) = prune_list (\<lambda>s. sel s \<and> rm s) ns"
    using "5.IH"(2) [OF dns] .
  finally show ?case by simp
qed

lemma each_remove_prune:
  "distinct (ids_list forest) \<Longrightarrow>
   each_remove sel rm forest = prune_list (\<lambda>s. sel s \<and> rm s) forest"
  by (simp add: each_remove_def each_remove_prune_aux)

lemma distinct_prune:
  "distinct (ids n) \<Longrightarrow> distinct (ids_list (prune rm n))"
  "distinct (ids_list ns) \<Longrightarrow> distinct (ids_list (prune_list rm ns))"
proof (induction n and ns rule: ids_ids_list.induct)
  case (1 i t a cs)
  then show ?case using ids_prune_subset(2) [of rm cs] by auto
next
  case (5 n ns)
  then show ?case
    using ids_prune_subset(1) [of rm n] ids_prune_subset(2) [of rm ns]
    by (auto simp: ids_list_append)
qed simp_all

lemma path_to_None_iff:
  "path_to i n = None \<longleftrightarrow> i \<notin> set (ids n)"
  "path_to_list i ns = None \<longleftrightarrow> i \<notin> set (ids_list ns)"
  by (induction n and ns rule: ids_ids_list.induct) (auto split: option.splits)

lemma path_to_last:
  "path_to i n = Some p \<Longrightarrow> p \<noteq> [] \<and> node_id (last p) = Some i"
  "path_to_list i ns = Some p \<Longrightarrow> p \<noteq> [] \<and> node_id (last p) = Some i"
  by (induction n and ns arbitrary: p and p rule: ids_ids_list.induct)
    (auto split: option.splits if_splits)

lemma survives_prune:
  "distinct (ids n) \<Longrightarrow> path_to i n = Some p \<Longrightarrow>
     (i \<in> set (ids_list (prune rm n)) \<longleftrightarrow> (\<forall>m\<in>set p. \<not> rm m))"
  "distinct (ids_list ns) \<Longrightarrow> path_to_list i ns = Some p \<Longrightarrow>
     (i \<in> set (ids_list (prune_list rm ns)) \<longleftrightarrow> (\<forall>m\<in>set p. \<not> rm m))"
proof (induction n and ns arbitrary: p and p rule: ids_ids_list.induct)
  case (1 j t a cs)
  show ?case
  proof (cases "i = j")
    case True
    with "1.prems" show ?thesis by auto
  next
    case False
    with "1.prems" obtain q where q: "path_to_list i cs = Some q" "p = Element j t a cs # q"
      by auto
    from "1.prems" have "distinct (ids_list cs)" by simp
    from "1.IH" [OF this q(1)] False q(2) show ?thesis by auto
  qed
next
  case (5 n ns)
  from "5.prems" have dn: "distinct (ids n)" and dns: "distinct (ids_list ns)"
    and dj: "set (ids n) \<inter> set (ids_list ns) = {}"
    by auto
  show ?case
  proof (cases "path_to i n")
    case None
    then have "i \<notin> set (ids n)" by (simp add: path_to_None_iff)
    then have a: "i \<notin> set (ids_list (prune rm n))"
      using ids_prune_subset(1) [of rm n] by auto
    from None "5.prems" have "path_to_list i ns = Some p" by simp
    from "5.IH"(2) [OF dns this] a show ?thesis by (simp add: ids_list_append)
  next
    case (Some q)
    then have "i \<in> set (ids n)" using path_to_None_iff(1) [of i n] by auto
    with dj have "i \<notin> set (ids_list ns)" by auto
    then have a: "i \<notin> set (ids_list (prune_list rm ns))"
      using ids_prune_subset(2) [of rm ns] by auto
    from Some "5.prems" have "q = p" by simp
    with "5.IH"(1) [OF dn] Some a show ?thesis by (simp add: ids_list_append)
  qed
qed simp_all

lemma path_to_elements:
  "path_to i n = Some p \<Longrightarrow> \<forall>m\<in>set p. any_element m"
  "path_to_list i ns = Some p \<Longrightarrow> \<forall>m\<in>set p. any_element m"
  by (induction n and ns arbitrary: p and p rule: ids_ids_list.induct)
    (auto simp: any_element_def split: option.splits if_splits)

text \<open>The test of the blacklist sweep, spelled out.\<close>

lemma sweep_removes_iff:
  "sweep_removes m \<longleftrightarrow>
     GetTagName m \<notin> {''body'', ''html'', ''article'', ''main''} \<and>
     \<not> IsWhitelisted (GetAttribute m ''class'' @ [0x20] @ GetAttribute m ''id'') \<and>
     IsBlacklisted (GetAttribute m ''class'' @ [0x20] @ GetAttribute m ''id'') \<and>
     (GetTextLength m < 200 \<or> CalculateLinkDensity m > 0.5)"
  by (auto simp: sweep_removes_def Let_def split: if_splits)

section \<open>Properties of serialisation and text cleaning\<close>

lemma split_lines_no_newline: "0x0A \<notin> set s \<Longrightarrow> split_lines cur s = [cur @ s]"
  by (induction s arbitrary: cur) auto

lemma collapse_newlines_no_newline: "0x0A \<notin> set s \<Longrightarrow> collapse_newlines 0 s = s"
  by (induction s) auto

lemma NormalizeTextPreserveNewlines_no_space:
  assumes "\<forall>r\<in>set s. \<not> IsSpace r"
  shows "NormalizeTextPreserveNewlines s = s"
proof -
  have n: "0x0A \<notin> set s" using assms by (auto simp: IsSpace_def)
  have c: "collapse_ws False s = s"
    using assms re_space_IsSpace by (intro collapse_ws_no_space) blast
  show ?thesis
    using assms
    by (simp add: NormalizeTextPreserveNewlines_def split_lines_no_newline [OF n] c
        TrimSpace_no_space collapse_newlines_no_newline [OF n])
qed

lemma escape_plain: "\<forall>r\<in>set s. escape_rune r = [r] \<Longrightarrow> escape s = s"
  by (induction s) (auto simp: escape_def)

lemma initial_newline_other:
  "t \<noteq> ''pre'' \<Longrightarrow> t \<noteq> ''listing'' \<Longrightarrow> t \<noteq> ''textarea'' \<Longrightarrow> initial_newline t cs = []"
  by (auto simp: initial_newline_def split: list.splits node.splits)

section \<open>Properties of title cleaning\<close>

lemma has_prefix_prefix: "has_prefix sub s \<longleftrightarrow> prefix sub s"
  by (induction sub s rule: has_prefix.induct) auto











section \<open>Properties of postprocessing\<close>

text \<open>Tag stripping and trimming.\<close>

lemma TrimSpace_Nil_iff: "TrimSpace s = [] \<longleftrightarrow> list_all IsSpace s"
proof
  assume "TrimSpace s = []"
  then have a: "\<forall>x\<in>set (dropWhile IsSpace s). IsSpace x"
    by (simp add: TrimSpace_def dropWhile_eq_Nil_conv)
  have "dropWhile IsSpace s = []"
  proof (cases "dropWhile IsSpace s")
    case (Cons x xs)
    then have "\<not> IsSpace x" by (metis hd_dropWhile list.sel(1) list.distinct(1))
    with a Cons show ?thesis by simp
  qed simp
  then show "list_all IsSpace s"
    by (metis dropWhile_eq_Nil_conv list_all_iff)
next
  assume "list_all IsSpace s"
  then have d: "dropWhile IsSpace s = []"
    by (metis dropWhile_eq_Nil_conv list_all_iff)
  show "TrimSpace s = []" unfolding TrimSpace_def d by simp
qed

lemma list_all_TrimSpace: "list_all IsSpace s \<Longrightarrow> TrimSpace s = []"
  by (simp add: TrimSpace_Nil_iff)

lemma space_not_angle: "IsSpace r \<Longrightarrow> r \<noteq> 0x3C \<and> r \<noteq> 0x3E"
  by (auto simp: IsSpace_def)

lemma strip_tags_inside:
  "0x3E \<notin> set body \<Longrightarrow> strip_tags True (body @ 0x3E # rest) = strip_tags False rest"
  by (induction body) auto

lemma strip_tags_tag:
  "0x3E \<notin> set body \<Longrightarrow> strip_tags False (0x3C # body @ 0x3E # rest) = strip_tags False rest"
  by (simp add: strip_tags_inside)

lemma strip_tags_spaces:
  "list_all IsSpace ws \<Longrightarrow> strip_tags False (ws @ rest) = ws @ strip_tags False rest"
  by (induction ws) (auto dest: space_not_angle)

lemma strip_tags_mono:
  "0x3E \<notin> set r \<Longrightarrow> set (strip_tags b m) \<subseteq> set (strip_tags b (m @ r))"
  by (induction m arbitrary: b) auto

lemma strip_tags_TrimSpace:
  assumes "list_all IsSpace (strip_tags False s)"
  shows "list_all IsSpace (strip_tags False (TrimSpace s))"
proof -
  let ?s1 = "dropWhile IsSpace s"
  have "s = takeWhile IsSpace s @ ?s1" by simp
  then have "strip_tags False s = takeWhile IsSpace s @ strip_tags False ?s1"
    by (metis strip_tags_spaces list_all_iff set_takeWhileD)
  with assms have a: "list_all IsSpace (strip_tags False ?s1)"
    by (metis list_all_append)
  let ?r = "rev (takeWhile IsSpace (rev ?s1))"
  have s1: "?s1 = TrimSpace s @ ?r"
    unfolding TrimSpace_def by (metis rev_append rev_rev_ident takeWhile_dropWhile_id)
  have "0x3E \<notin> set ?r"
    by (auto dest!: set_takeWhileD simp: IsSpace_def)
  then have "set (strip_tags False (TrimSpace s)) \<subseteq> set (strip_tags False (TrimSpace s @ ?r))"
    by (rule strip_tags_mono)
  with a s1 show ?thesis by (auto simp: list_all_iff)
qed

lemma escape_rune_no_gt: "0x3E \<notin> set (escape_rune r)"
  by (simp add: escape_rune_def runes_def)

lemma escape_no_gt: "0x3E \<notin> set (escape s)"
  by (induction s) (auto simp: escape_def escape_rune_no_gt)

lemma escape_spaces: "list_all IsSpace s \<Longrightarrow> 0x0D \<notin> set s \<Longrightarrow> escape s = s"
  by (rule escape_plain) (auto simp: list_all_iff escape_rune_def IsSpace_def)

lemma escapeComment_no_gt: "0x3E \<notin> set s \<Longrightarrow> 0x3E \<notin> set (escapeComment_from p s)"
  by (induction s arbitrary: p) (auto simp: runes_def)

lemma render_attr_no_gt: "0x3E \<notin> set (runes (fst att)) \<Longrightarrow> 0x3E \<notin> set (render_attr att)"
  by (simp add: render_attr_def escape_no_gt) (simp add: runes_def)

lemma render_attrs_no_gt:
  "list_all (\<lambda>att. 0x3E \<notin> set (runes (fst att))) a \<Longrightarrow> 0x3E \<notin> set (concat (map render_attr a))"
  by (induction a) (auto simp: render_attr_no_gt)

text \<open>An element without text, in a regular tree, serialises to tags and whitespace.\<close>

lemma initial_newline_spaces: "list_all IsSpace (initial_newline t cs)"
  by (auto simp: initial_newline_def IsSpace_def split: list.splits node.splits)

lemma render_void:
  "t \<in> set voidElements \<Longrightarrow>
   render (Element i t a cs) @ rest = 0x3C # (runes t @ concat (map render_attr a) @ [0x2F]) @ 0x3E # rest"
  by (simp add: runes_def)

lemma render_nonvoid:
  "t \<notin> set voidElements \<Longrightarrow>
   render (Element i t a cs) @ rest =
     0x3C # (runes t @ concat (map render_attr a)) @ 0x3E #
       (initial_newline t cs @ (render_children (childTextNodesAreLiteral t) cs @
          (0x3C # (0x2F # runes t) @ 0x3E # rest)))"
  by (simp add: runes_def)

lemma render_comment:
  "render (CommentNode s) @ rest = 0x3C # ([0x21, 0x2D, 0x2D] @ escapeComment s @ [0x2D, 0x2D]) @ 0x3E # rest"
  by (simp add: runes_def)

lemma residue:
  "every regular_node n \<Longrightarrow> list_all IsSpace (Text n) \<Longrightarrow>
     \<exists>ws. list_all IsSpace ws \<and>
       (\<forall>rest. strip_tags False (render n @ rest) = ws @ strip_tags False rest)"
  "every_list regular_node ns \<Longrightarrow> list_all IsSpace (Text_list ns) \<Longrightarrow>
     \<exists>ws. list_all IsSpace ws \<and>
       (\<forall>b rest. strip_tags False (render_children b ns @ rest) = ws @ strip_tags False rest)"
proof (induction n and ns rule: ids_ids_list.induct)
  case (1 i t a cs)
  from 1(2) have t: "0x3E \<notin> set (runes t)"
    and cs: "every_list regular_node cs"
    by simp_all
  from 1(2) have "list_all (\<lambda>att. 0x3E \<notin> set (runes (fst att))) a" by simp
  then have a: "0x3E \<notin> set (concat (map render_attr a))"
    by (rule render_attrs_no_gt)
  show ?case
  proof (cases "t \<in> set voidElements")
    case True
    have v: "0x3E \<notin> set (runes t @ concat (map render_attr a) @ [0x2F])"
      using t a by simp
    have "\<forall>rest. strip_tags False (render (Element i t a cs) @ rest) = [] @ strip_tags False rest"
      unfolding render_void [OF True] strip_tags_tag [OF v] by simp
    then show ?thesis by (intro exI [of _ "[]"]) simp
  next
    case False
    from 1(3) have "list_all IsSpace (Text_list cs)" by simp
    with 1(1) cs obtain ws where ws: "list_all IsSpace ws"
      and eq: "\<And>b rest. strip_tags False (render_children b cs @ rest) = ws @ strip_tags False rest"
      by blast
    have o: "0x3E \<notin> set (runes t @ concat (map render_attr a))" using t a by simp
    have c: "0x3E \<notin> set (0x2F # runes t)" using t by simp
    have "strip_tags False (render (Element i t a cs) @ rest)
            = (initial_newline t cs @ ws) @ strip_tags False rest" for rest
      unfolding render_nonvoid [OF False] strip_tags_tag [OF o]
        strip_tags_spaces [OF initial_newline_spaces] eq strip_tags_tag [OF c]
      by simp
    moreover have "list_all IsSpace (initial_newline t cs @ ws)"
      using ws initial_newline_spaces by simp
    ultimately show ?thesis by blast
  qed
next
  case (2 s)
  then have "escape s = s" by (simp add: escape_spaces)
  with 2 show ?case by (intro exI [of _ s]) (simp add: strip_tags_spaces)
next
  case (3 s)
  then have v: "0x3E \<notin> set ([0x21, 0x2D, 0x2D] @ escapeComment s @ [0x2D, 0x2D])"
    by (simp add: escapeComment_def escapeComment_no_gt)
  have "\<forall>rest. strip_tags False (render (CommentNode s) @ rest) = [] @ strip_tags False rest"
    unfolding render_comment strip_tags_tag [OF v] by simp
  then show ?case by (intro exI [of _ "[]"]) simp
next
  case 4
  show ?case by (intro exI [of _ "[]"]) simp
next
  case (5 n ns)
  from 5(3,4) have rn: "every regular_node n" "list_all IsSpace (Text n)"
    and rns: "every_list regular_node ns" "list_all IsSpace (Text_list ns)"
    by simp_all
  from 5(1) [OF rn] obtain w1 where w1: "list_all IsSpace w1"
    and e1: "\<And>rest. strip_tags False (render n @ rest) = w1 @ strip_tags False rest"
    by blast
  from 5(2) [OF rns] obtain w2 where w2: "list_all IsSpace w2"
    and e2: "\<And>b rest. strip_tags False (render_children b ns @ rest) = w2 @ strip_tags False rest"
    by blast
  have lit: "strip_tags False (s @ rest) = w1 @ strip_tags False rest"
    if "n = TextNode s" for s rest
    using e1 [of rest] rn that by (simp add: escape_spaces)
  have "strip_tags False (render_children b (n # ns) @ rest) = (w1 @ w2) @ strip_tags False rest"
    for b rest
    using e1 [of "render_children b ns @ rest"] lit [of _ "render_children b ns @ rest"] e2 [of b rest]
    by (cases n; cases b) simp_all
  moreover have "list_all IsSpace (w1 @ w2)" using w1 w2 by simp
  ultimately show ?case by blast
qed

lemma blank_text_blank_html:
  assumes "every_list regular_node cs" "list_all IsSpace (Text_list cs)"
  shows "isOnlyWhitespace (TrimSpace (render_children False cs))"
proof -
  from residue(2) [OF assms] obtain ws where ws: "list_all IsSpace ws"
    and eq: "\<And>b rest. strip_tags False (render_children b cs @ rest) = ws @ strip_tags False rest"
    by blast
  from eq [of False "[]"] ws have "list_all IsSpace (strip_tags False (render_children False cs))"
    by simp
  then have "list_all IsSpace (strip_tags False (TrimSpace (render_children False cs)))"
    by (rule strip_tags_TrimSpace)
  then show ?thesis by (simp add: isOnlyWhitespace_def list_all_TrimSpace)
qed

lemma empty_element_blank:
  assumes "every regular_node n" "node_id n \<noteq> None"
  shows "empty_element n \<longleftrightarrow> blank_element n"
proof (cases n)
  case (Element i t a cs)
  with assms have cs: "every_list regular_node cs" by simp
  show ?thesis
    using blank_text_blank_html [OF cs]
    by (auto simp: Element empty_element_def blank_element_def Html_def Let_def TrimSpace_Nil_iff)
qed (use assms in simp_all)

text \<open>Pruning and the properties of every node.\<close>

lemma every_list_append: "every_list P (ms @ ns) \<longleftrightarrow> every_list P ms \<and> every_list P ns"
  by (induction ms) auto

lemma Text_list_append: "Text_list (ms @ ns) = Text_list ms @ Text_list ns"
  by (induction ms) auto

lemma every_mono:
  "every P n \<Longrightarrow> (\<And>m. P m \<Longrightarrow> Q m) \<Longrightarrow> every Q n"
  "every_list P ns \<Longrightarrow> (\<And>m. P m \<Longrightarrow> Q m) \<Longrightarrow> every_list Q ns"
  by (induction n and ns rule: ids_ids_list.induct) auto

lemma prune_id:
  "every (\<lambda>m. \<not> rm m) n \<Longrightarrow> prune rm n = [n]"
  "every_list (\<lambda>m. \<not> rm m) ns \<Longrightarrow> prune_list rm ns = ns"
  by (induction n and ns rule: ids_ids_list.induct) auto

lemma prune_cong:
  "every (\<lambda>m. rm m = rm' m) n \<Longrightarrow> prune rm n = prune rm' n"
  "every_list (\<lambda>m. rm m = rm' m) ns \<Longrightarrow> prune_list rm ns = prune_list rm' ns"
  by (induction n and ns rule: ids_ids_list.induct) auto

lemma every_prune:
  assumes "\<And>i t a cs. P (Element i t a cs) \<Longrightarrow> P (Element i t a (prune_list rm cs))"
  shows "every P n \<Longrightarrow> every_list P (prune rm n)"
    and "every_list P ns \<Longrightarrow> every_list P (prune_list rm ns)"
  by (induction n and ns rule: ids_ids_list.induct) (auto simp: every_list_append assms)

lemma regular_prune:
  "every_list regular_node ns \<Longrightarrow> every_list regular_node (prune_list rm ns)"
  by (rule every_prune(2)) auto

lemma wanted_prune:
  "every_list (\<lambda>m. \<not> unwanted_tag m) ns \<Longrightarrow> every_list (\<lambda>m. \<not> unwanted_tag m) (prune_list rm ns)"
  by (rule every_prune(2)) (auto simp: unwanted_tag_def)

lemma allowed_prune:
  "every_list attrs_allowed ns \<Longrightarrow> every_list attrs_allowed (prune_list rm ns)"
  by (rule every_prune(2)) (auto simp: attrs_allowed_def)

lemma prune_unwanted:
  "every_list (\<lambda>m. \<not> unwanted_tag m) (prune unwanted_tag n)"
  "every_list (\<lambda>m. \<not> unwanted_tag m) (prune_list unwanted_tag ns)"
  by (induction n and ns rule: ids_ids_list.induct)
    (auto simp: every_list_append unwanted_tag_def)

lemma blank_element_simps:
  "blank_element (Element i t a cs) \<longleftrightarrow>
     t \<noteq> ''br'' \<and> t \<noteq> ''hr'' \<and> t \<noteq> ''img'' \<and> list_all IsSpace (Text_list cs)"
  "\<not> blank_element (TextNode s)"
  "\<not> blank_element (CommentNode s)"
  by (simp_all add: blank_element_def)

lemma prune_blank:
  "list_all IsSpace (Text_list (prune blank_element n)) \<longleftrightarrow> list_all IsSpace (Text n)"
  "list_all IsSpace (Text_list (prune_list blank_element ns)) \<longleftrightarrow> list_all IsSpace (Text_list ns)"
  by (induction n and ns rule: ids_ids_list.induct)
    (auto simp: Text_list_append blank_element_simps)

lemma prune_blank_every:
  "every_list (\<lambda>m. \<not> blank_element m) (prune blank_element n)"
  "every_list (\<lambda>m. \<not> blank_element m) (prune_list blank_element ns)"
  by (induction n and ns rule: ids_ids_list.induct)
    (auto simp: every_list_append blank_element_simps prune_blank)

text \<open>Attribute cleaning.\<close>

lemma index_of_key_Some:
  "index_of_key name as = Some i \<Longrightarrow> i < length as \<and> fst (as ! i) = name"
  by (induction as arbitrary: i) (auto split: if_splits)

lemma index_of_key_None: "index_of_key name as = None \<Longrightarrow> name \<notin> fst ` set as"
  by (induction as) (auto split: if_splits)

lemma mset_swap_remove:
  assumes "i < length as"
  shows "mset (butlast (as[i := last as])) = mset as - {#as ! i#}"
proof -
  from assms have "as \<noteq> []" by auto
  then obtain bs l where as: "as = bs @ [l]" by (metis rev_exhaust)
  show ?thesis
  proof (cases "i < length bs")
    case True
    then have "butlast (as[i := last as]) = bs[i := l]"
      by (simp add: as list_update_append)
    moreover have "as ! i = bs ! i" using True by (simp add: as nth_append)
    ultimately show ?thesis using True by (simp add: as mset_update)
  next
    case False
    with assms have "i = length bs" by (simp add: as)
    then show ?thesis by (simp add: as)
  qed
qed

lemma keys_RemoveAttr:
  "image_mset fst (mset (RemoveAttr name as)) = image_mset fst (mset as) - {#name#}"
proof (cases "index_of_key name as")
  case None
  then have "name \<notin># mset (map fst as)" by (auto dest: index_of_key_None)
  with None show ?thesis by (simp add: RemoveAttr_def)
next
  case (Some i)
  then have i: "i < length as" "fst (as ! i) = name" by (auto dest: index_of_key_Some)
  have "image_mset fst (mset (RemoveAttr name as)) = image_mset fst (mset as - {#as ! i#})"
    using Some mset_swap_remove [OF i(1)] by (simp add: RemoveAttr_def)
  also have "\<dots> = image_mset fst (mset as) - {#name#}"
    using i by (simp add: image_mset_Diff)
  finally show ?thesis .
qed

lemma keys_foldl_RemoveAttr:
  "image_mset fst (mset (foldl (\<lambda>as name. RemoveAttr name as) as names))
     = image_mset fst (mset as) - mset names"
proof (induction names arbitrary: as)
  case (Cons a names)
  have "image_mset fst (mset as) - {#a#} - mset names = image_mset fst (mset as) - add_mset a (mset names)"
    by (metis add_mset_add_single diff_diff_add union_commute)
  with Cons show ?case by (simp add: keys_RemoveAttr)
qed simp

lemma keys_partition:
  "mset (map fst as) = mset (map fst (filter P as)) + mset (map fst (filter (\<lambda>x. \<not> P x) as))"
  by (induction as) auto

lemma keys_clean_attrs:
  "mset (map fst (clean_attrs t as))
     = mset (map fst (filter (\<lambda>att. fst att \<in> set (allowedAttributes t)) as))"
proof -
  let ?bad = "\<lambda>att. \<not> (fst att \<in> set (allowedAttributes t) \<or> fst att \<in> set (allowedAttributes ''*''))"
  have star: "allowedAttributes ''*'' = []" by (simp add: allowedAttributes_def)
  have "mset (map fst (clean_attrs t as)) = mset (map fst as) - mset (map fst (filter ?bad as))"
    by (simp add: clean_attrs_def Let_def keys_foldl_RemoveAttr)
  also have "\<dots> = mset (map fst (filter (\<lambda>x. \<not> ?bad x) as))"
    by (subst keys_partition [of as ?bad]) simp
  finally show ?thesis by (simp add: star)
qed

lemma clean_attrs_keys:
  "fst ` set (clean_attrs t as) \<subseteq> fst ` set as \<inter> set (allowedAttributes t)"
proof -
  have "set (map fst (clean_attrs t as))
          = set (map fst (filter (\<lambda>att. fst att \<in> set (allowedAttributes t)) as))"
    using keys_clean_attrs [of t as] by (metis set_mset_mset)
  then show ?thesis by auto
qed

lemma clean_attrs_id:
  "list_all (\<lambda>att. fst att \<in> set (allowedAttributes t)) as \<Longrightarrow> clean_attrs t as = as"
proof -
  assume "list_all (\<lambda>att. fst att \<in> set (allowedAttributes t)) as"
  then have "filter (\<lambda>att. \<not> (fst att \<in> set (allowedAttributes t)
      \<or> fst att \<in> set (allowedAttributes ''*''))) as = []"
    by (auto simp: list_all_iff filter_empty_conv)
  then show ?thesis by (simp add: clean_attrs_def Let_def)
qed

lemma CleanAttributes_ids:
  "ids (CleanAttributes_node n) = ids n"
  "ids_list (CleanAttributes ns) = ids_list ns"
  by (induction n and ns rule: ids_ids_list.induct) auto

lemma CleanAttributes_Text:
  "Text (CleanAttributes_node n) = Text n"
  "Text_list (CleanAttributes ns) = Text_list ns"
  by (induction n and ns rule: ids_ids_list.induct) auto

lemma CleanAttributes_allowed:
  "every attrs_allowed (CleanAttributes_node n)"
  "every_list attrs_allowed (CleanAttributes ns)"
proof (induction n and ns rule: ids_ids_list.induct)
  case (1 i t a cs)
  have "list_all (\<lambda>att. fst att \<in> set (allowedAttributes t)) (clean_attrs t a)"
    using clean_attrs_keys [of t a] by (auto simp: list_all_iff)
  with 1 show ?case by (simp add: attrs_allowed_def)
qed (simp_all add: attrs_allowed_def)

lemma CleanAttributes_regular:
  "every regular_node n \<Longrightarrow> every regular_node (CleanAttributes_node n)"
  "every_list regular_node ns \<Longrightarrow> every_list regular_node (CleanAttributes ns)"
proof (induction n and ns rule: ids_ids_list.induct)
  case (1 i t a cs)
  from 1(2) have a: "\<forall>att\<in>set a. 0x3E \<notin> set (runes (fst att))"
    by (simp add: list_all_iff)
  have "0x3E \<notin> set (runes (fst att))" if "att \<in> set (clean_attrs t a)" for att
  proof -
    from that clean_attrs_keys [of t a] have "fst att \<in> fst ` set a" by auto
    with a show ?thesis by auto
  qed
  then have "list_all (\<lambda>att. 0x3E \<notin> set (runes (fst att))) (clean_attrs t a)"
    by (simp add: list_all_iff)
  with 1 show ?case by auto
qed simp_all

lemma CleanAttributes_wanted:
  "every (\<lambda>m. \<not> unwanted_tag m) n \<Longrightarrow> every (\<lambda>m. \<not> unwanted_tag m) (CleanAttributes_node n)"
  "every_list (\<lambda>m. \<not> unwanted_tag m) ns \<Longrightarrow> every_list (\<lambda>m. \<not> unwanted_tag m) (CleanAttributes ns)"
  by (induction n and ns rule: ids_ids_list.induct) (auto simp: unwanted_tag_def)

lemma CleanAttributes_id:
  "every attrs_allowed n \<Longrightarrow> CleanAttributes_node n = n"
  "every_list attrs_allowed ns \<Longrightarrow> CleanAttributes ns = ns"
  by (induction n and ns rule: ids_ids_list.induct)
    (auto simp: attrs_allowed_def clean_attrs_id)

text \<open>The three steps of postprocessing.\<close>

lemma every_every:
  "every P n \<Longrightarrow> every (every P) n"
  "every_list P ns \<Longrightarrow> every_list (every P) ns"
  by (induction n and ns rule: ids_ids_list.induct) auto

lemma foldl_fixed: "(\<And>x. x \<in> set xs \<Longrightarrow> g f x = f) \<Longrightarrow> foldl g f xs = f"
  by (induction xs) auto

lemma each_remove_keeps:
  assumes "distinct (ids_list f)"
  shows "distinct (ids_list (each_remove sel rm f))"
    and "every_list regular_node f \<Longrightarrow> every_list regular_node (each_remove sel rm f)"
    and "every_list (\<lambda>m. \<not> unwanted_tag m) f
           \<Longrightarrow> every_list (\<lambda>m. \<not> unwanted_tag m) (each_remove sel rm f)"
  using assms
  by (simp_all add: each_remove_prune distinct_prune regular_prune wanted_prune)

lemma remove_patterns_keeps:
  "distinct (ids_list f) \<and> every_list regular_node f \<and> every_list (\<lambda>m. \<not> unwanted_tag m) f \<Longrightarrow>
   distinct (ids_list (foldl (\<lambda>f pat. remove_all (p pat) f) f pats))
   \<and> every_list regular_node (foldl (\<lambda>f pat. remove_all (p pat) f) f pats)
   \<and> every_list (\<lambda>m. \<not> unwanted_tag m) (foldl (\<lambda>f pat. remove_all (p pat) f) f pats)"
proof (induction pats arbitrary: f)
  case (Cons pat pats)
  have "distinct (ids_list (remove_all (p pat) f)) \<and> every_list regular_node (remove_all (p pat) f)
      \<and> every_list (\<lambda>m. \<not> unwanted_tag m) (remove_all (p pat) f)"
    using Cons.prems by (simp add: remove_all_def each_remove_keeps)
  then show ?case using Cons.IH [of "remove_all (p pat) f"] by simp
qed simp

lemma RemoveUnwantedFromContent_keeps:
  assumes "distinct (ids_list f)" "every_list regular_node f"
  shows "distinct (ids_list (RemoveUnwantedFromContent f))
    \<and> every_list regular_node (RemoveUnwantedFromContent f)
    \<and> every_list (\<lambda>m. \<not> unwanted_tag m) (RemoveUnwantedFromContent f)"
proof -
  let ?f1 = "remove_all unwanted_tag f"
  have 1: "distinct (ids_list ?f1) \<and> every_list regular_node ?f1
      \<and> every_list (\<lambda>m. \<not> unwanted_tag m) ?f1"
    using assms
    by (simp add: remove_all_def each_remove_keeps) (simp add: each_remove_prune prune_unwanted)
  let ?f2 = "foldl (\<lambda>f pat. remove_all (unwanted_pattern pat) f) ?f1 unwantedPatterns"
  from 1 have 2: "distinct (ids_list ?f2) \<and> every_list regular_node ?f2
      \<and> every_list (\<lambda>m. \<not> unwanted_tag m) ?f2"
    by (rule remove_patterns_keeps)
  then show ?thesis
    by (simp add: RemoveUnwantedFromContent_def Let_def each_remove_keeps)
qed

lemma sweep_blank:
  assumes "distinct (ids_list f)" "every_list regular_node f"
  shows "each_remove any_element empty_element f = prune_list blank_element f"
proof -
  have "every_list (every regular_node) f" using assms(2) by (rule every_every)
  then have "every_list (\<lambda>m. (any_element m \<and> empty_element m) = blank_element m) f"
  proof (rule every_mono)
    fix m assume m: "every regular_node m"
    show "(any_element m \<and> empty_element m) = blank_element m"
    proof (cases "node_id m = None")
      case True
      then show ?thesis by (simp add: any_element_def blank_element_def)
    next
      case False
      with empty_element_blank [OF m] show ?thesis by (simp add: any_element_def)
    qed
  qed
  then have "prune_list (\<lambda>m. any_element m \<and> empty_element m) f = prune_list blank_element f"
    by (rule prune_cong)
  with assms(1) show ?thesis by (simp add: each_remove_prune)
qed

lemma empty_element_imp_blank:
  "any_element m \<Longrightarrow> empty_element m \<Longrightarrow> blank_element m"
  by (auto simp: any_element_def empty_element_def blank_element_def Let_def TrimSpace_Nil_iff
      split: if_splits)

lemma sweep_fixed:
  assumes "distinct (ids_list f)" "every_list (\<lambda>m. \<not> blank_element m) f"
  shows "each_remove any_element empty_element f = f"
proof -
  have "every_list (\<lambda>m. \<not> (any_element m \<and> empty_element m)) f"
    using assms(2) by (rule every_mono) (auto dest: empty_element_imp_blank)
  then have "prune_list (\<lambda>m. any_element m \<and> empty_element m) f = f" by (rule prune_id)
  with assms(1) show ?thesis by (simp add: each_remove_prune)
qed

lemma RemoveEmptyElements_fixed:
  assumes "distinct (ids_list f)" "every_list (\<lambda>m. \<not> blank_element m) f"
  shows "RemoveEmptyElements f = f"
  unfolding RemoveEmptyElements_def
  by (rule foldl_fixed) (rule sweep_fixed [OF assms])

lemma RemoveEmptyElements_blank:
  assumes "distinct (ids_list f)" "every_list regular_node f"
  shows "RemoveEmptyElements f = prune_list blank_element f"
proof -
  let ?g = "prune_list blank_element f"
  have g: "each_remove any_element empty_element ?g = ?g"
    using assms(1) by (intro sweep_fixed distinct_prune prune_blank_every)
  have "[0 ..< 3] = [0, 1, 2 :: nat]" by (simp add: upt_rec)
  then show ?thesis
    by (simp add: RemoveEmptyElements_def sweep_blank [OF assms] g)
qed

lemma allowed_no_pattern: "attrs_allowed m \<Longrightarrow> \<not> unwanted_pattern pat m"
  by (auto simp: attrs_allowed_def unwanted_pattern_def attr_contains_def allowedAttributes_def
      list_all_iff list_ex_iff split: if_splits)

lemma not_blank_no_empty_link: "\<not> blank_element m \<Longrightarrow> \<not> (is_tag ''a'' m \<and> empty_link m)"
  by (cases m)
    (auto simp: blank_element_def is_tag_def empty_link_def Let_def TrimSpace_Nil_iff
      split: if_splits)

lemma RemoveUnwantedFromContent_fixed:
  assumes d: "distinct (ids_list f)"
    and w: "every_list (\<lambda>m. \<not> unwanted_tag m) f"
    and a: "every_list attrs_allowed f"
    and b: "every_list (\<lambda>m. \<not> blank_element m) f"
  shows "RemoveUnwantedFromContent f = f"
proof -
  have "every_list (\<lambda>m. \<not> (unwanted_tag m \<and> True)) f" using w by simp
  then have "prune_list (\<lambda>m. unwanted_tag m \<and> True) f = f" by (rule prune_id)
  then have 1: "remove_all unwanted_tag f = f"
    using d by (simp add: remove_all_def each_remove_prune)
  have "remove_all (unwanted_pattern pat) f = f" for pat
  proof -
    have "every_list (\<lambda>m. \<not> (unwanted_pattern pat m \<and> True)) f"
      using a by (rule every_mono) (simp add: allowed_no_pattern)
    then have "prune_list (\<lambda>m. unwanted_pattern pat m \<and> True) f = f" by (rule prune_id)
    then show ?thesis using d by (simp add: remove_all_def each_remove_prune)
  qed
  then have 2: "foldl (\<lambda>f pat. remove_all (unwanted_pattern pat) f) f unwantedPatterns = f"
    by (intro foldl_fixed)
  have "every_list (\<lambda>m. \<not> (is_tag ''a'' m \<and> empty_link m)) f"
    using b by (rule every_mono) (rule not_blank_no_empty_link)
  then have "prune_list (\<lambda>m. is_tag ''a'' m \<and> empty_link m) f = f" by (rule prune_id)
  then have 3: "each_remove (is_tag ''a'') empty_link f = f"
    using d by (simp add: each_remove_prune)
  show ?thesis by (simp add: RemoveUnwantedFromContent_def 1 2 3)
qed

text \<open>What one pass establishes, and that a forest of that kind is left as it is.\<close>

lemma Postprocess_forest_cleaned:
  assumes "distinct (ids_list f)" "every_list regular_node f"
  shows "distinct (ids_list (Postprocess_forest f))
    \<and> every_list (\<lambda>m. \<not> unwanted_tag m) (Postprocess_forest f)
    \<and> every_list attrs_allowed (Postprocess_forest f)
    \<and> every_list (\<lambda>m. \<not> blank_element m) (Postprocess_forest f)"
proof -
  let ?r = "RemoveUnwantedFromContent f"
  let ?c = "CleanAttributes ?r"
  from RemoveUnwantedFromContent_keeps [OF assms]
  have r: "distinct (ids_list ?r)" "every_list regular_node ?r"
    "every_list (\<lambda>m. \<not> unwanted_tag m) ?r" by simp_all
  have c: "distinct (ids_list ?c)" "every_list regular_node ?c"
    "every_list (\<lambda>m. \<not> unwanted_tag m) ?c" "every_list attrs_allowed ?c"
    using r by (simp_all add: CleanAttributes_ids CleanAttributes_regular CleanAttributes_wanted
        CleanAttributes_allowed)
  have "Postprocess_forest f = prune_list blank_element ?c"
    by (simp add: Postprocess_forest_def RemoveEmptyElements_blank [OF c(1,2)])
  then show ?thesis
    using c by (simp add: distinct_prune wanted_prune allowed_prune prune_blank_every)
qed

lemma Postprocess_forest_fixed:
  assumes "distinct (ids_list f)"
    and "every_list (\<lambda>m. \<not> unwanted_tag m) f"
    and "every_list attrs_allowed f"
    and "every_list (\<lambda>m. \<not> blank_element m) f"
  shows "Postprocess_forest f = f"
  using assms
  by (simp add: Postprocess_forest_def RemoveUnwantedFromContent_fixed CleanAttributes_id
      RemoveEmptyElements_fixed)

lemma Postprocess_forest_idem:
  assumes "distinct (ids_list f)" "every_list regular_node f"
  shows "Postprocess_forest (Postprocess_forest f) = Postprocess_forest f"
  using Postprocess_forest_cleaned [OF assms] by (intro Postprocess_forest_fixed) simp_all

section \<open>Properties of the pipeline\<close>

text \<open>The metadata extractors never slice or index out of range.\<close>

lemma find_holds: "find P xs = Some x \<Longrightarrow> P x \<and> x \<in> set xs"
  by (induction xs) (auto split: if_splits)

lemma Index_cases:
  obtains (absent) "Index s sub = - 1"
  | (found) "0 \<le> Index s sub" "Index s sub + int (length sub) \<le> int (length s)"
proof (cases "find (\<lambda>i. has_prefix sub (drop i s)) [0 ..< length s + 1]")
  case None
  then have "Index s sub = - 1" by (simp add: Index_def)
  then show ?thesis by (rule absent)
next
  case (Some i)
  then have h: "has_prefix sub (drop i s)" and i: "i \<in> set [0 ..< length s + 1]"
    by (auto dest: find_holds)
  from h have "prefix sub (drop i s)" by (simp add: has_prefix_prefix)
  then have "length sub \<le> length s - i" using prefix_length_le by fastforce
  moreover from i have "i \<le> length s" by auto
  ultimately show ?thesis using Some by (intro found) (simp_all add: Index_def)
qed

lemma Index_range: "Index s sub \<noteq> - 1 \<Longrightarrow> 0 \<le> Index s sub \<and> Index s sub \<le> int (length s)"
  by (cases s sub rule: Index_cases) auto

lemma slice_from_Index:
  "Index s sub \<noteq> - 1 \<Longrightarrow> slice_from s (Index s sub + int (length sub)) \<noteq> None"
  by (cases s sub rule: Index_cases) (auto simp: slice_from_def)

lemma slice_from_Index0: "Index s sub \<noteq> - 1 \<Longrightarrow> slice_from s (Index s sub) \<noteq> None"
  using Index_range [of s sub] by (auto simp: slice_from_def)

lemma slice_to_Index: "Index s sub \<noteq> - 1 \<Longrightarrow> slice_to s (Index s sub) \<noteq> None"
  using Index_range [of s sub] by (auto simp: slice_to_def)

lemma slice_after_colon:
  "Index rest (runes '':'') \<noteq> - 1 \<Longrightarrow> slice_from rest (Index rest (runes '':'') + 1) \<noteq> None"
  using slice_from_Index [of rest "runes '':''"] by (simp add: runes_def)

lemma Index_slices:
  "slice_from s (Index s sub + int (length sub)) = None \<Longrightarrow> Index s sub = - 1"
  "slice_from s (Index s sub) = None \<Longrightarrow> Index s sub = - 1"
  "slice_to s (Index s sub) = None \<Longrightarrow> Index s sub = - 1"
  "slice_from s (Index s (runes '':'') + 1) = None \<Longrightarrow> Index s (runes '':'') = - 1"
  using slice_from_Index [of s sub] slice_from_Index0 [of s sub] slice_to_Index [of s sub]
    slice_after_colon [of s]
  by blast+

lemma first_of_nonempty:
  "v \<noteq> [] \<Longrightarrow> index_at v 0 \<noteq> None" "v \<noteq> [] \<Longrightarrow> slice_from v 1 \<noteq> None"
  by (cases v; simp add: index_at_def slice_from_def)+

lemma quoted_value_total: "quoted_value rest \<noteq> None"
  by (auto simp: quoted_value_def Let_def slice_after_colon first_of_nonempty slice_to_Index
      dest: Index_slices
      simp del: not_None_eq split: option.splits)

lemma Each_total: "(\<And>s n. f s n \<noteq> None) \<Longrightarrow> Each f s ns \<noteq> None"
proof (induction ns arbitrary: s)
  case (Cons n ns)
  from Cons.prems obtain s' where "f s n = Some s'" by (meson option.exhaust)
  with Cons show ?case by simp
qed simp

lemma first_assigned_total: "(\<And>p. body p \<noteq> None) \<Longrightarrow> first_assigned body ps \<noteq> None"
  by (induction ps) (auto split: option.splits)

lemma headline_script_total: "headline_script headline sel \<noteq> None"
  by (auto simp: headline_script_def Let_def slice_from_Index quoted_value_total
      simp del: not_None_eq split: option.splits)

lemma getSchemaHeadline_total: "getSchemaHeadline doc \<noteq> None"
  by (auto simp: getSchemaHeadline_def Each_total headline_script_total simp del: not_None_eq split: option.splits)

lemma ExtractTitle_total: "ExtractTitle doc \<noteq> None"
  by (auto simp: ExtractTitle_def getSchemaHeadline_total simp del: not_None_eq split: option.splits)

lemma author_name_total: "author_name t p \<noteq> None"
  by (auto simp: author_name_def Let_def slice_from_Index0 slice_from_Index quoted_value_total
      dest: Index_slices
      simp del: not_None_eq split: option.splits)

lemma author_script_total: "author_script author sel \<noteq> None"
  by (auto simp: author_script_def Let_def first_assigned_total author_name_total
      simp del: first_assigned.simps not_None_eq split: option.splits)

lemma getSchemaAuthor_total: "getSchemaAuthor doc \<noteq> None"
  by (auto simp: getSchemaAuthor_def Each_total author_script_total simp del: not_None_eq split: option.splits)

lemma cut_at_delimiters_total: "cut_at_delimiters author delims \<noteq> None"
  by (induction delims arbitrary: author)
    (auto simp: Let_def slice_to_Index dest: Index_slices simp del: not_None_eq
      split: option.splits)

lemma byline_prefixes_total: "byline_prefixes byline pfxs \<noteq> None"
  by (induction pfxs) (auto simp: Let_def cut_at_delimiters_total simp del: not_None_eq)

lemma extractAuthorFromByline_total: "extractAuthorFromByline env byline \<noteq> None"
  by (auto simp: extractAuthorFromByline_def Let_def index_at_def byline_prefixes_total simp del: not_None_eq)

lemma getAuthorByByline_loop_total: "getAuthorByByline_loop env selectors doc \<noteq> None"
  by (induction selectors)
    (auto simp: Let_def extractAuthorFromByline_total simp del: not_None_eq split: option.splits)

lemma ExtractAuthor_total: "ExtractAuthor env doc \<noteq> None"
  by (auto simp: ExtractAuthor_def getAuthorByByline_def getSchemaAuthor_total
      getAuthorByByline_loop_total simp del: not_None_eq split: option.splits)

lemma date_value_total: "date_value t p \<noteq> None"
  by (auto simp: date_value_def Let_def slice_from_Index quoted_value_total dest: Index_slices
      simp del: not_None_eq split: option.splits)

lemma date_script_total: "date_script dateStr sel \<noteq> None"
  by (auto simp: date_script_def Let_def first_assigned_total date_value_total
      simp del: first_assigned.simps not_None_eq split: option.splits)

lemma getSchemaDate_total: "getSchemaDate env doc \<noteq> None"
  by (auto simp: getSchemaDate_def Let_def Each_total date_script_total simp del: not_None_eq split: option.splits)

lemma ExtractDate_total: "ExtractDate env doc \<noteq> None"
  by (auto simp: ExtractDate_def getSchemaDate_total simp del: not_None_eq split: option.splits)

text \<open>A document without attributes, \<^verbatim>\<open>h1\<close> and \<^verbatim>\<open>title\<close>.\<close>

lemma matching_none:
  "every (\<lambda>m. \<not> P m) n \<Longrightarrow> matching P n = []"
  "every_list (\<lambda>m. \<not> P m) ns \<Longrightarrow> matching_list P ns = []"
  by (induction n and ns rule: ids_ids_list.induct) auto

lemma query_none:
  "every (\<lambda>m. \<forall>anc. \<not> sel anc m) n \<Longrightarrow> query sel anc n = []"
  "every_list (\<lambda>m. \<forall>anc. \<not> sel anc m) ns \<Longrightarrow> query_list sel anc ns = []"
  by (induction n and ns arbitrary: anc and anc rule: ids_ids_list.induct) auto

lemma query_every:
  "every P n \<Longrightarrow> \<forall>m\<in>set (query sel anc n). P m"
  "every_list P ns \<Longrightarrow> \<forall>m\<in>set (query_list sel anc ns). P m"
  by (induction n and ns arbitrary: anc and anc rule: ids_ids_list.induct) auto

lemma no_attrs_selectors:
  assumes "attrs m = []"
  shows "\<not> attr_equals name v m" "\<not> attr_exists name m" "\<not> has_class c m"
    "\<not> attr_contains name pat m" "\<not> tag_with t (attr_equals name v) m"
    "\<not> tag_with t (attr_exists name) m" "\<not> tag_with t (has_class c) m"
  using assms
  by (simp_all add: attr_equals_def attr_exists_def has_class_def attr_contains_def tag_with_def)

lemma bare_matching:
  assumes "every_list (\<lambda>n. attrs n = []) doc"
  shows "matching_list (attr_equals name v) doc = []"
    "matching_list (has_class c) doc = []"
    "matching_list (attr_contains name pat) doc = []"
    "matching_list (tag_with t (attr_equals name v)) doc = []"
    "matching_list (tag_with t (attr_exists name)) doc = []"
    "matching_list (tag_with t (has_class c)) doc = []"
  by (rule matching_none(2), rule every_mono(2) [OF assms], simp add: no_attrs_selectors)+

lemma bare_getMetaContent:
  "every_list (\<lambda>n. attrs n = []) doc \<Longrightarrow> getMetaContent doc property = []"
  by (simp add: getMetaContent_def bare_matching)

lemma bare_ExtractTitle:
  assumes "every_list (\<lambda>n. attrs n = [] \<and> GetTagName n \<noteq> ''h1'' \<and> GetTagName n \<noteq> ''title'') doc"
  shows "ExtractTitle doc = Some []"
proof -
  have a: "every_list (\<lambda>n. attrs n = []) doc" by (rule every_mono(2) [OF assms]) simp
  have h: "matching_list (is_tag ''h1'') doc = []"
    by (rule matching_none(2), rule every_mono(2) [OF assms]) (simp add: is_tag_def)
  have t: "matching_list (is_tag ''title'') doc = []"
    by (rule matching_none(2), rule every_mono(2) [OF assms]) (simp add: is_tag_def)
  have q: "query_list article_h1 [] doc = []"
    by (rule query_none(2), rule every_mono(2) [OF assms]) (simp add: article_h1_def is_tag_def)
  have s: "getSchemaHeadline doc = Some []"
    by (simp add: getSchemaHeadline_def bare_matching [OF a])
  show ?thesis
    by (simp add: ExtractTitle_def bare_getMetaContent [OF a] s getArticleH1_def getFirstH1_def
        getTitleTag_def h t q TrimSpace_def)
qed

lemma bare_loops:
  assumes "\<forall>selector\<in>set selectors. matching_list selector doc = []"
  shows "getAuthorBySelector_loop selectors doc = []"
    "getAuthorByByline_loop env selectors doc = Some []"
    "getDateBySelector_loop env selectors doc = None"
  using assms by (induction selectors) simp_all

lemma bare_ExtractAuthor:
  assumes a: "every_list (\<lambda>n. attrs n = []) doc"
  shows "ExtractAuthor env doc = Some []"
proof -
  have s: "getSchemaAuthor doc = Some []"
    by (simp add: getSchemaAuthor_def bare_matching [OF a])
  have 1: "getAuthorBySelector doc = []"
    unfolding getAuthorBySelector_def
    by (rule bare_loops) (auto simp: authorSelectors_def bare_matching [OF a])
  have 2: "getAuthorByByline env doc = Some []"
    unfolding getAuthorByByline_def
    by (rule bare_loops) (auto simp: bylineSelectors_def bare_matching [OF a])
  show ?thesis
    by (simp add: ExtractAuthor_def bare_getMetaContent [OF a] s 1 2)
qed

lemma bare_ExtractDate:
  assumes a: "every_list (\<lambda>n. attrs n = []) doc"
  shows "ExtractDate env doc = Some None"
proof -
  have m: "parseMetaDate env doc property = None" for property
    by (simp add: parseMetaDate_def bare_getMetaContent [OF a])
  have s: "getSchemaDate env doc = Some None"
    by (simp add: getSchemaDate_def bare_matching [OF a])
  have t: "getTimeElement env doc = None"
    by (simp add: getTimeElement_def bare_matching [OF a])
  have d: "getDateBySelector env doc = None"
    unfolding getDateBySelector_def
    by (rule bare_loops) (auto simp: dateSelectors_def bare_matching [OF a])
  show ?thesis by (simp add: ExtractDate_def m s t d)
qed

lemma article_image_bare:
  "\<forall>m\<in>set sel. attrs m = [] \<Longrightarrow> foldl article_image None sel = None"
  by (induction sel) (simp_all add: article_image_def Attr_def)

lemma bare_extractLeadImage:
  assumes a: "every_list (\<lambda>n. attrs n = []) doc"
  shows "extractLeadImage doc baseURL = None"
proof -
  have "\<forall>m\<in>set (query_list article_img [] doc). attrs m = []"
    using a by (rule query_every(2))
  then have "foldl article_image None (query_list article_img [] doc) = None"
    by (rule article_image_bare)
  then show ?thesis
    by (simp add: extractLeadImage_def bare_matching [OF a] AttrOr_def)
qed

text \<open>No layout parses.\<close>

lemma unparsed_parseDate:
  assumes "\<forall>layout v. time_Parse env layout v = None"
  shows "parseDate env s = None"
proof -
  have "first_parsed env formats v = None" for formats v
    using assms by (induction formats) simp_all
  then show ?thesis by (simp add: parseDate_def Let_def)
qed

lemma unparsed_ExtractDate:
  assumes u: "\<forall>layout v. time_Parse env layout v = None"
  shows "ExtractDate env doc = Some None"
proof -
  note p = unparsed_parseDate [OF u]
  have m: "parseMetaDate env doc property = None" for property
    by (simp add: parseMetaDate_def Let_def p)
  have "getSchemaDate env doc \<noteq> None" by (rule getSchemaDate_total)
  then have s: "getSchemaDate env doc = Some None"
    by (auto simp: getSchemaDate_def Let_def p split: option.splits if_splits)
  have "time_element env None n = None" for n
    by (simp add: time_element_def Let_def p)
  then have "foldl (time_element env) None sel = None" for sel
    by (induction sel) simp_all
  then have t: "getTimeElement env doc = None" by (simp add: getTimeElement_def)
  have "getDateBySelector_loop env selectors doc = None" for selectors
    by (induction selectors) (simp_all add: p Let_def)
  then have d: "getDateBySelector env doc = None" by (simp add: getDateBySelector_def)
  show ?thesis by (simp add: ExtractDate_def m s t d)
qed

lemma calculateConfidence_range:
  "0 \<le> calculateConfidence topCandidate yielded wordCount"
  "calculateConfidence topCandidate yielded wordCount \<le> 1"
  by (simp_all add: calculateConfidence_def Let_def)

text \<open>With \<^verbatim>\<open>maxLength = 200\<close> the excerpt never reaches the panicking slice.\<close>

lemma GetExcerpt_200: "GetExcerpt text 200 \<noteq> None"
  by (simp add: GetExcerpt_def Let_def split: option.splits)

text \<open>The outcomes of \<open>extractFromDocument\<close>, one by one.\<close>

lemma metadata_returns:
  obtains title author date where
    "ExtractTitle doc = Some title" "ExtractAuthor env doc = Some author"
    "ExtractDate env doc = Some date"
  using ExtractTitle_total [of doc] ExtractAuthor_total [of env doc] ExtractDate_total [of env doc]
  by auto

lemma extractFromDocument_cases:
  obtains
    (no_candidate)
      "fst (Scorer_Score (range_top env) (MinParagraphLength config) (Preprocess env doc)) = None"
      "extractFromDocument env config doc baseURL
         = Inl (Returned (NewExtractionError ''extract'' baseURL ErrNoContent))"
  | (too_short) candidate where
      "fst (Scorer_Score (range_top env) (MinParagraphLength config) (Preprocess env doc)) = Some candidate"
      "go_len (GetCleanText (cleanedContent env config doc baseURL candidate)) < MinContentLength config"
      "extractFromDocument env config doc baseURL
         = Inl (Returned (NewExtractionError ''validate'' baseURL ErrContentTooShort))"
  | (article) candidate scoreMap art where
      "Scorer_Score (range_top env) (MinParagraphLength config) (Preprocess env doc)
         = (Some candidate, scoreMap)"
      "\<not> go_len (GetCleanText (cleanedContent env config doc baseURL candidate)) < MinContentLength config"
      "extractFromDocument env config doc baseURL = Inr art"
      "MinContentLength config \<le> go_len (TextContent art)"
      "WordCount art = CountWords (TextContent art)"
      "Confidence art
         = calculateConfidence candidate (range_candidates env scoreMap) (WordCount art)"
      "ExtractTitle doc = Some (Title art)" "ExtractAuthor env doc = Some (Author art)"
      "ExtractDate env doc = Some (PublishedAt art)" "LeadImage art = extractLeadImage doc baseURL"
      "Content art = GetCleanHTML (cleanedContent env config doc baseURL candidate)"
      "TextContent art = GetCleanText (cleanedContent env config doc baseURL candidate)"
      "URL art = baseURL"
proof -
  obtain title author date where m:
    "ExtractTitle doc = Some title" "ExtractAuthor env doc = Some author"
    "ExtractDate env doc = Some date"
    by (rule metadata_returns)
  show ?thesis
  proof (cases "fst (Scorer_Score (range_top env) (MinParagraphLength config) (Preprocess env doc))")
    case None
    then obtain scoreMap where
      "Scorer_Score (range_top env) (MinParagraphLength config) (Preprocess env doc)
         = (None, scoreMap)"
      by (cases "Scorer_Score (range_top env) (MinParagraphLength config) (Preprocess env doc)") simp
    then have "extractFromDocument env config doc baseURL
           = Inl (Returned (NewExtractionError ''extract'' baseURL ErrNoContent))"
      by (simp add: extractFromDocument_def Let_def m)
    with None show ?thesis by (rule no_candidate)
  next
    case (Some candidate)
    then obtain scoreMap where sc:
      "Scorer_Score (range_top env) (MinParagraphLength config) (Preprocess env doc)
         = (Some candidate, scoreMap)"
      by (cases "Scorer_Score (range_top env) (MinParagraphLength config) (Preprocess env doc)") simp
    let ?clone = "cleanedContent env config doc baseURL candidate"
    show ?thesis
    proof (cases "go_len (GetCleanText ?clone) < MinContentLength config")
      case True
      have "extractFromDocument env config doc baseURL
           = Inl (Returned (NewExtractionError ''validate'' baseURL ErrContentTooShort))"
        using True sc by (auto simp: extractFromDocument_def cleanedContent_def Let_def m)
      with Some True show ?thesis by (rule too_short)
    next
      case False
      obtain excerpt where ex: "GetExcerpt (GetCleanText ?clone) 200 = Some excerpt"
        using GetExcerpt_200 [of "GetCleanText ?clone"] by auto
      define art where
        "art = \<lparr>Title = title, Content = GetCleanHTML ?clone,
                TextContent = GetCleanText ?clone, Excerpt = excerpt,
                Author = author, PublishedAt = date,
                LeadImage = extractLeadImage doc baseURL, URL = baseURL,
                WordCount = CountWords (GetCleanText ?clone), Score = GetScore candidate,
                Confidence = calculateConfidence candidate (range_candidates env scoreMap)
                               (CountWords (GetCleanText ?clone))\<rparr>"
      have r: "extractFromDocument env config doc baseURL = Inr art"
        using False sc ex
        by (auto simp: extractFromDocument_def cleanedContent_def Let_def art_def m)
      show ?thesis
        using sc False r
      proof (rule article)
        show "MinContentLength config \<le> go_len (TextContent art)"
          using False by (simp add: art_def)
      qed (simp_all add: art_def m)
    qed
  qed
qed

section \<open>Facts about the example documents\<close>

lemma form_texts:
  "GetText form_p1 = replicate 30 0x61 @ [0x2C, 0x20] @ replicate 30 0x61"
  "GetText form_p2 = replicate 30 0x61"
  by code_simp+

lemma form_scores: "ScoreParagraph form_p1 25 = 3" "ScoreParagraph form_p2 25 = 1"
  unfolding ScoreParagraph_formula form_texts by simp_all

lemma form_no_links:
  "Find (is_tag ''a'') form_form = []" "Find (is_tag ''a'') form_body = []"
  by code_simp+

lemma form_paragraphs:
  "paragraphs_list None None form_doc =
     [(form_p1, Some form_form, Some form_body), (form_p2, Some form_form, Some form_body)]"
  by (simp add: form_doc_def form_body_def form_form_def form_p1_def form_p2_def)

lemma form_nodes:
  "node_id form_form = Some 2" "node_id form_body = Some 1"
  "attrs form_form = []" "attrs form_body = []"
  "GetTagName form_form = ''form''" "GetTagName form_body = ''body''"
  by (simp_all add: form_form_def form_body_def)

lemma tie_texts:
  "GetText tie_p1 = replicate 30 0x61" "GetText tie_p2 = replicate 30 0x61"
  by code_simp+

lemma tie_scores: "ScoreParagraph tie_p1 25 = 1" "ScoreParagraph tie_p2 25 = 1"
  unfolding ScoreParagraph_formula tie_texts by simp_all

lemma tie_no_links:
  "Find (is_tag ''a'') tie_div1 = []" "Find (is_tag ''a'') tie_div2 = []"
  "Find (is_tag ''a'') tie_body = []"
  by code_simp+

lemma tie_paragraphs:
  "paragraphs_list None None tie_doc =
     [(tie_p1, Some tie_div1, Some tie_body), (tie_p2, Some tie_div2, Some tie_body)]"
  by (simp add: tie_doc_def tie_body_def tie_div1_def tie_div2_def tie_p1_def tie_p2_def)

lemma tie_nodes:
  "node_id tie_div1 = Some 2" "node_id tie_div2 = Some 4" "node_id tie_body = Some 1"
  "attrs tie_div1 = []" "attrs tie_div2 = []" "attrs tie_body = []"
  "GetTagName tie_div1 = ''div''" "GetTagName tie_div2 = ''div''" "GetTagName tie_body = ''body''"
  by (simp_all add: tie_div1_def tie_div2_def tie_body_def)

lemma tie_propagated:
  "ScoreAndPropagate tie_doc 25 = [tie_entry_div1, tie_entry_body, tie_entry_div2]"
  by (simp add: ScoreAndPropagate_def PropagateScores_def tie_paragraphs propagate_paragraph_def
      tie_scores contribute_def Get_def same_node_def tie_nodes NewNodeScore_def plain_init
      tie_no_links put_def AddScore_def GetTagScore_def DivBonus_def ParentScoreProportion_def
      GrandparentScoreProportion_def tie_entry_div1_def tie_entry_div2_def tie_entry_body_def)

lemma tie_refined:
  "RefineScores (ScoreAndPropagate tie_doc 25) = [tie_entry_div1, tie_entry_body, tie_entry_div2]"
  unfolding tie_propagated
  by (simp add: RefineScores_def IsHighLinkDensity_def HighWeightLinkDensityMax_def
      tie_entry_div1_def tie_entry_div2_def tie_entry_body_def)

lemma tie_weighted:
  "GetWeightedScore tie_entry_div1 = 6" "GetWeightedScore tie_entry_div2 = 6"
  "GetWeightedScore tie_entry_body = 1"
  by (simp_all add: GetWeightedScore_def tie_entry_div1_def tie_entry_div2_def
      tie_entry_body_def)

lemma tie_entry_ids:
  "node_id (Selection tie_entry_div1) = Some 2" "node_id (Selection tie_entry_div2) = Some 4"
  "node_id (Selection tie_entry_body) = Some 1"
  by (simp_all add: tie_entry_div1_def tie_entry_div2_def tie_entry_body_def tie_nodes)

lemma not_space_xy: "\<not> IsSpace 0x78" "\<not> IsSpace 0x79"
  by (simp_all add: IsSpace_def)

lemma nested_lengths:
  "GetTextLength nested_inner = 200"
  "GetTextLength nested_outer = 500"
  "GetLinkTextLength nested_outer = 300"
  "GetLinkTextLength nested_inner = 0"
  by (simp_all add: GetTextLength_def GetText_def nested_inner_def nested_outer_def
      GetLinkTextLength_def Find_def is_tag_def NormalizeText_no_space not_space_xy)

lemma nested_facts:
  "IsBlacklisted (GetAttribute nested_inner ''class'' @ 0x20 # GetAttribute nested_inner ''id'')"
  "\<not> IsWhitelisted (GetAttribute nested_inner ''class'' @ 0x20 # GetAttribute nested_inner ''id'')"
  "IsBlacklisted (GetAttribute nested_outer ''class'' @ 0x20 # GetAttribute nested_outer ''id'')"
  "\<not> IsWhitelisted (GetAttribute nested_outer ''class'' @ 0x20 # GetAttribute nested_outer ''id'')"
  "distinct (ids_list nested_doc)"
  "lookup_list 4 nested_doc = Some nested_inner"
  by code_simp+

lemma nested_tags:
  "GetTagName nested_html = ''html''" "GetTagName nested_body = ''body''"
  "GetTagName nested_outer = ''div''" "GetTagName nested_inner = ''div''"
  by (simp_all add: nested_html_def nested_body_def nested_outer_def nested_inner_def)

lemma nested_density:
  "CalculateLinkDensity nested_inner = 0" "CalculateLinkDensity nested_outer = 3 / 5"
  by (simp_all add: CalculateLinkDensity_def nested_lengths)

lemma nested_removes:
  "\<not> sweep_removes nested_html" "\<not> sweep_removes nested_body" "sweep_removes nested_outer"
  by (simp_all add: sweep_removes_def nested_tags nested_facts nested_lengths nested_density
      Let_def)

lemma nested_swept:
  "blacklist_sweep nested_doc = [Element 0 ''html'' [] [Element 1 ''body'' [] []]]"
proof -
  have "prune (\<lambda>s. any_element s \<and> sweep_removes s) nested_outer = []"
    using nested_removes(3) by (simp add: nested_outer_def any_element_def)
  then have "prune (\<lambda>s. any_element s \<and> sweep_removes s) nested_body
               = [Element 1 ''body'' [] []]"
    using nested_removes(2) by (simp add: nested_body_def)
  then have "prune (\<lambda>s. any_element s \<and> sweep_removes s) nested_html
               = [Element 0 ''html'' [] [Element 1 ''body'' [] []]]"
    using nested_removes(1) by (simp add: nested_html_def)
  moreover have "blacklist_sweep nested_doc
                   = prune_list (\<lambda>s. any_element s \<and> sweep_removes s) nested_doc"
    unfolding blacklist_sweep_def using nested_facts(5) by (rule each_remove_prune)
  ultimately show ?thesis
    by (simp add: nested_doc_def)
qed

lemma nested_path:
  "path_to_list 4 nested_doc = Some ([nested_html, nested_body, nested_outer] @ [nested_inner])"
  by (simp add: nested_doc_def nested_html_def nested_body_def nested_outer_def nested_inner_def)

lemma keep_facts:
  "IsBlacklisted (GetAttribute keep_div ''class'' @ 0x20 # GetAttribute keep_div ''id'')"
  "\<not> IsWhitelisted (GetAttribute keep_div ''class'' @ 0x20 # GetAttribute keep_div ''id'')"
  "distinct (ids_list keep_doc)"
  "path_to_list 2 keep_doc = Some ([keep_html, keep_body] @ [keep_div])"
  "Find (is_tag ''a'') keep_div = []"
  by code_simp+

lemma keep_length: "GetTextLength keep_div = 200"
  by (simp add: GetTextLength_def GetText_def keep_div_def NormalizeText_no_space not_space_xy)

lemma keep_ancestors: "\<not> sweep_removes keep_html" "\<not> sweep_removes keep_body"
  by (simp_all add: sweep_removes_def keep_html_def keep_body_def)

text \<open>The pipeline on \<open>mini_doc\<close>.\<close>

lemma mini_unwanted: "RemoveUnwantedFromContent [mini_p] = [mini_p]"
  by (simp add: RemoveUnwantedFromContent_def remove_all_def each_remove_def mini_p_def
      unwanted_tag_def unwanted_pattern_def attr_contains_def unwantedPatterns_def is_tag_def)

lemma mini_attrs: "CleanAttributes_node mini_p = mini_p"
  by (simp add: mini_p_def clean_attrs_def allowedAttributes_def)

lemma mini_not_empty: "\<not> empty_element mini_p"
  by (simp add: empty_element_def mini_p_def TrimSpace_no_space not_space_a)

lemma mini_empty_pass: "RemoveEmptyElements [mini_p] = [mini_p]"
proof -
  have "each_remove any_element empty_element [mini_p] = [mini_p]"
    using mini_not_empty by (simp add: each_remove_def visit_def any_element_def mini_p_def)
  then show ?thesis
    by (simp add: RemoveEmptyElements_def upt_rec)
qed

lemma mini_postprocess: "Postprocess mini_body = mini_body"
  by (simp add: mini_body_def Postprocess_forest_def mini_unwanted mini_attrs mini_empty_pass)

lemma mini_sweep:
  "\<not> sweep_removes mini_html" "\<not> sweep_removes mini_body" "\<not> sweep_removes mini_p"
  by (simp_all add: sweep_removes_def mini_html_def mini_body_def mini_p_def GetAttribute_def
      Attr_def keyword_blank)

lemma mini_unwanted_tags: "RemoveUnwantedTags mini_doc = mini_doc"
  by (simp add: RemoveUnwantedTags_def removeTagsList_def remove_all_def each_remove_def
      mini_doc_def mini_html_def mini_body_def mini_p_def is_tag_def)

lemma mini_strip: "StripUnlikelyCandidates mini_doc = mini_doc"
proof -
  have a: "foldl (\<lambda>d tag. each_remove (is_tag tag) unlikely_removes d) mini_doc unlikelyTags
             = mini_doc"
    by (simp add: unlikelyTags_def each_remove_def mini_doc_def mini_html_def mini_body_def
        mini_p_def is_tag_def)
  have b: "blacklist_sweep mini_doc = mini_doc"
    using mini_sweep
    by (simp add: blacklist_sweep_def each_remove_def visit_def any_element_def
        mini_doc_def mini_html_def mini_body_def mini_p_def)
  show ?thesis by (simp add: StripUnlikelyCandidates_def a b)
qed

lemma mini_preprocess: "Preprocess plain_env mini_doc = mini_doc"
  by (simp add: Preprocess_def plain_env_def mini_unwanted_tags mini_strip)

lemma mini_text:
  "GetText mini_p = replicate 30 0x61" "GetTextLength mini_body = 30"
  "GetTextLength mini_html = 30"
  by (simp_all add: GetText_def GetTextLength_def mini_p_def mini_body_def mini_html_def
      NormalizeText_no_space not_space_a)

lemma mini_score: "ScoreParagraph mini_p 25 = 1"
  unfolding ScoreParagraph_formula mini_text by simp

lemma mini_nodes:
  "node_id mini_body = Some 1" "node_id mini_html = Some 0"
  "attrs mini_body = []" "attrs mini_html = []"
  "GetTagName mini_body = ''body''" "GetTagName mini_html = ''html''"
  "Find (is_tag ''a'') mini_body = []" "Find (is_tag ''a'') mini_html = []"
  by (simp_all add: mini_body_def mini_html_def mini_p_def Find_def is_tag_def)

lemma mini_paragraphs:
  "paragraphs_list None None mini_doc = [(mini_p, Some mini_body, Some mini_html)]"
  by (simp add: mini_doc_def mini_html_def mini_body_def mini_p_def)

lemma mini_propagated: "ScoreAndPropagate mini_doc 25 = [mini_entry_body, mini_entry_html]"
  by (simp add: ScoreAndPropagate_def PropagateScores_def mini_paragraphs propagate_paragraph_def
      mini_score contribute_def Get_def same_node_def mini_nodes NewNodeScore_def plain_init
      put_def AddScore_def GetTagScore_def ParentScoreProportion_def mini_text
      GrandparentScoreProportion_def mini_entry_body_def mini_entry_html_def)

lemma mini_scored:
  "Scorer_Score (range_top plain_env) 25 mini_doc
     = (Some mini_entry_body, [mini_entry_body, mini_entry_html])"
  unfolding Scorer_Score_def mini_propagated
  by (simp add: RefineScores_def IsHighLinkDensity_def HighWeightLinkDensityMax_def plain_env_def
      GetTopCandidate_def GetWeightedScore_def mini_entry_body_def mini_entry_html_def)

lemma mini_clean:
  "GetCleanText mini_body = replicate 30 0x61"
  "GetCleanHTML mini_body = runes ''<p>'' @ replicate 30 0x61 @ runes ''</p>''"
proof -
  show "GetCleanText mini_body = replicate 30 0x61"
    by (simp add: GetCleanText_def mini_body_def mini_p_def
        NormalizeTextPreserveNewlines_no_space not_space_a)
  have e: "escape (replicate 30 0x61) = replicate 30 0x61"
    by (rule escape_plain) (simp add: escape_rune_def)
  have h: "Html mini_body = runes ''<p>'' @ replicate 30 0x61 @ runes ''</p>''"
    by (simp add: Html_def mini_body_def mini_p_def e voidElements_def initial_newline_other
        childTextNodesAreLiteral_def runes_def)
  show "GetCleanHTML mini_body = runes ''<p>'' @ replicate 30 0x61 @ runes ''</p>''"
    unfolding GetCleanHTML_def h
    by (rule TrimSpace_ends) (simp_all add: runes_def IsSpace_def)
qed

lemma mini_counts:
  "go_len (replicate 30 0x61) = 30" "CountWords (replicate 30 0x61) = 1"
  "GetExcerpt (replicate 30 0x61) 200 = Some (replicate 30 0x61)"
proof -
  show "go_len (replicate 30 0x61) = 30"
    by (simp add: go_len_def RuneLen_def sum_list_replicate)
  show "CountWords (replicate 30 0x61) = 1"
    by (rule CountWords_one) (simp_all add: not_space_a)
  show "GetExcerpt (replicate 30 0x61) 200 = Some (replicate 30 0x61)"
    by (simp add: GetExcerpt_def NormalizeText_no_space not_space_a)
qed

lemma mini_confidence:
  "calculateConfidence mini_entry_body [mini_entry_body, mini_entry_html] 1 = 3 / 10"
  by (simp add: calculateConfidence_def GetScore_def GetCandidatesByScore_def swap_if_greater_def
      GetWeightedScore_def mini_entry_body_def mini_entry_html_def upt_rec)

lemma mini_entry_fields:
  "Selection mini_entry_body = mini_body" "GetScore mini_entry_body = 1"
  by (simp_all add: mini_entry_body_def GetScore_def)

lemma mini_env:
  "MergeSiblings plain_env doc sel topScore m = sel" "range_candidates plain_env sm = sm"
  "time_Parse plain_env layout v = None"
  by (simp_all add: plain_env_def)

lemma mini_bare:
  "every_list (\<lambda>n. attrs n = [] \<and> GetTagName n \<noteq> ''h1'' \<and> GetTagName n \<noteq> ''title'') mini_doc"
  "every_list (\<lambda>n. attrs n = []) mini_doc"
  by (simp_all add: mini_doc_def mini_html_def mini_body_def mini_p_def)

lemma mini_metadata:
  "ExtractTitle mini_doc = Some []" "ExtractAuthor plain_env mini_doc = Some []"
  "ExtractDate plain_env mini_doc = Some None" "extractLeadImage mini_doc baseURL = None"
  using mini_bare
  by (simp_all add: bare_ExtractTitle bare_ExtractAuthor bare_ExtractDate bare_extractLeadImage)

lemma mini_extracted:
  "extractFromDocument plain_env small_config mini_doc [] = Inr mini_article"
  by (simp add: extractFromDocument_def small_config_def mini_preprocess mini_scored
      mini_entry_fields mini_env mini_metadata mini_postprocess mini_clean mini_counts
      mini_confidence mini_article_def Let_def)

lemma mini_too_short:
  "extractFromDocument plain_env default_config mini_doc []
     = Inl (Returned (NewExtractionError ''validate'' [] ErrContentTooShort))"
  by (simp add: extractFromDocument_def default_config_def mini_preprocess mini_scored
      mini_entry_fields mini_env mini_metadata mini_postprocess mini_clean mini_counts)

text \<open>The pipeline on \<open>neg_doc\<close>.\<close>

lemma neg_words:
  "IsBlacklisted (runes ''sidebar'')" "\<not> IsWhitelisted (runes ''sidebar'')"
  "IsBlacklisted (runes ''popup'')" "\<not> IsWhitelisted (runes ''popup'')"
  "runes ''sidebar'' \<noteq> []" "runes ''popup'' \<noteq> []"
  by (simp_all add: IsBlacklisted_def IsWhitelisted_def pattern_matches_def blacklistKeywords_def
      whitelistKeywords_def runes_def simple_fold_def)

lemma neg_sweep:
  "\<not> sweep_removes neg_html" "\<not> sweep_removes neg_body" "\<not> sweep_removes neg_p"
  by (simp_all add: sweep_removes_def neg_html_def neg_body_def neg_p_def GetAttribute_def
      Attr_def keyword_blank)

lemma neg_unwanted_tags: "RemoveUnwantedTags neg_doc = neg_doc"
  by (simp add: RemoveUnwantedTags_def removeTagsList_def remove_all_def each_remove_def
      neg_doc_def neg_html_def neg_body_def neg_p_def is_tag_def)

lemma neg_strip: "StripUnlikelyCandidates neg_doc = neg_doc"
proof -
  have a: "foldl (\<lambda>d tag. each_remove (is_tag tag) unlikely_removes d) neg_doc unlikelyTags
             = neg_doc"
    by (simp add: unlikelyTags_def each_remove_def neg_doc_def neg_html_def neg_body_def
        neg_p_def is_tag_def)
  have b: "blacklist_sweep neg_doc = neg_doc"
    using neg_sweep
    by (simp add: blacklist_sweep_def each_remove_def visit_def any_element_def
        neg_doc_def neg_html_def neg_body_def neg_p_def)
  show ?thesis by (simp add: StripUnlikelyCandidates_def a b)
qed

lemma neg_preprocess: "Preprocess plain_env neg_doc = neg_doc"
  by (simp add: Preprocess_def plain_env_def neg_unwanted_tags neg_strip)

lemma neg_text:
  "GetText neg_p = replicate 30 0x61" "GetTextLength neg_body = 30" "GetTextLength neg_html = 30"
  by (simp_all add: GetText_def GetTextLength_def neg_p_def neg_body_def neg_html_def
      NormalizeText_no_space not_space_a)

lemma neg_score: "ScoreParagraph neg_p 25 = 1"
  unfolding ScoreParagraph_formula neg_text by simp

lemma neg_nodes:
  "node_id neg_body = Some 1" "node_id neg_html = Some 0"
  "GetTagName neg_body = ''body''" "GetTagName neg_html = ''html''"
  "Find (is_tag ''a'') neg_body = []" "Find (is_tag ''a'') neg_html = []"
  "GetAttribute neg_body ''class'' = runes ''sidebar''" "GetAttribute neg_body ''id'' = []"
  "GetAttribute neg_html ''class'' = []" "GetAttribute neg_html ''id'' = runes ''popup''"
  "\<not> hasHNews neg_body c" "\<not> hasHNews neg_html c"
  by (simp_all add: neg_body_def neg_html_def neg_p_def Find_def is_tag_def GetAttribute_def
      Attr_def hasHNews_def HasClass_def runes_def)

lemma neg_init:
  "initializeNodeScore
     \<lparr>Selection = neg_body, ContentScore = 0, Weight = 0, LinkDensity = 0, TextLength = 0\<rparr> neg_body
   = \<lparr>Selection = neg_body, ContentScore = 0, Weight = - 25, LinkDensity = 0, TextLength = 30\<rparr>"
  "initializeNodeScore
     \<lparr>Selection = neg_html, ContentScore = 0, Weight = 0, LinkDensity = 0, TextLength = 0\<rparr> neg_html
   = \<lparr>Selection = neg_html, ContentScore = 0, Weight = - 25, LinkDensity = 0, TextLength = 30\<rparr>"
  by (simp_all add: initializeNodeScore_def Let_def AddScore_def SetWeight_def
      SetLinkDensity_def SetTextLength_def neg_nodes GetTagScore_def GetWeight_def neg_words
      no_links_density neg_text)

lemma neg_paragraphs:
  "paragraphs_list None None neg_doc = [(neg_p, Some neg_body, Some neg_html)]"
  by (simp add: neg_doc_def neg_html_def neg_body_def neg_p_def)

lemma neg_propagated: "ScoreAndPropagate neg_doc 25 = [neg_entry_body, neg_entry_html]"
  by (simp add: ScoreAndPropagate_def PropagateScores_def neg_paragraphs propagate_paragraph_def
      neg_score contribute_def Get_def same_node_def neg_nodes neg_init NewNodeScore_def
      put_def AddScore_def ParentScoreProportion_def GrandparentScoreProportion_def
      neg_entry_body_def neg_entry_html_def)

lemma neg_scored:
  "snd (Scorer_Score (range_top plain_env) 25 neg_doc) = [neg_entry_body, neg_entry_html]"
  unfolding Scorer_Score_def neg_propagated
  by (simp add: RefineScores_def IsHighLinkDensity_def LowWeightLinkDensityMax_def Let_def
      neg_entry_body_def neg_entry_html_def)

lemma neg_weighted:
  "GetWeightedScore neg_entry_body = - 24" "GetWeightedScore neg_entry_html = - 49 / 2"
  by (simp_all add: GetWeightedScore_def neg_entry_body_def neg_entry_html_def)










text \<open>The two pieces of content.\<close>

lemma comment_unwanted:
  "RemoveUnwantedFromContent (children comment_content) = children comment_content"
  by (simp add: comment_content_def RemoveUnwantedFromContent_def remove_all_def each_remove_prune
      unwantedPatterns_def unwanted_tag_def unwanted_pattern_def attr_contains_def is_tag_def
      empty_link_def Find_def runes_def)

lemma comment_attributes:
  "CleanAttributes (children comment_content) = children comment_content"
  by (simp add: comment_content_def clean_attrs_def allowedAttributes_def)

lemma comment_html:
  "Html (Element 11 ''a'' [(''href'', runes ''x'')]
        [Element 12 ''span'' [] [Element 13 ''img'' [(''src'', runes ''y'')] []],
         CommentNode (runes ''a > b'')]) = runes ''<span><img src=\"y\"/></span><!--a > b-->''"
  "Html (Element 11 ''a'' [(''href'', runes ''x'')] [CommentNode (runes ''a > b'')]) = runes ''<!--a > b-->''"
  "Html (Element 12 ''span'' [] [Element 13 ''img'' [(''src'', runes ''y'')] []]) = runes ''<img src=\"y\"/>''"
  by (simp_all add: Html_def runes_def voidElements_def childTextNodesAreLiteral_def
      render_attr_def escape_def escape_rune_def escapeComment_def initial_newline_def)

lemma comment_residue:
  "strip_tags False (runes ''<span><img src=\"y\"/></span><!--a > b-->'') = runes '' b-->''"
  "strip_tags False (runes ''<!--a > b-->'') = runes '' b-->''"
  "strip_tags False (runes ''<img src=\"y\"/>'') = []"
  by (simp_all add: runes_def)

lemma comment_trim:
  "TrimSpace (runes ''<span><img src=\"y\"/></span><!--a > b-->'') = runes ''<span><img src=\"y\"/></span><!--a > b-->''"
  "TrimSpace (runes ''<!--a > b-->'') = runes ''<!--a > b-->''"
  "TrimSpace (runes ''<img src=\"y\"/>'') = runes ''<img src=\"y\"/>''"
  "TrimSpace (runes '' b-->'') = runes ''b-->''"
  "TrimSpace [] = []"
  by (simp_all add: TrimSpace_def IsSpace_def runes_def)

lemma comment_empty:
  "\<not> empty_element (Element 11 ''a'' [(''href'', runes ''x'')]
        [Element 12 ''span'' [] [Element 13 ''img'' [(''src'', runes ''y'')] []],
         CommentNode (runes ''a > b'')])"
  "\<not> empty_element (Element 11 ''a'' [(''href'', runes ''x'')] [CommentNode (runes ''a > b'')])"
  "empty_element (Element 12 ''span'' [] [Element 13 ''img'' [(''src'', runes ''y'')] []])"
  by (simp_all add: empty_element_def Let_def comment_html isOnlyWhitespace_def comment_trim
      comment_residue) (simp_all add: runes_def)

lemma comment_sweep:
  "RemoveEmptyElements (children comment_content)
     = [Element 11 ''a'' [(''href'', runes ''x'')] [CommentNode (runes ''a > b'')]]"
proof -
  have 3: "[0 ..< 3] = [0, 1, 2 :: nat]" by (simp add: upt_rec)
  show ?thesis
    by (simp add: RemoveEmptyElements_def 3 comment_content_def each_remove_prune comment_empty
        any_element_def)
qed

lemma comment_first:
  "Postprocess comment_content
     = Element 10 ''div'' [] [Element 11 ''a'' [(''href'', runes ''x'')] [CommentNode (runes ''a > b'')]]"
  using comment_unwanted comment_attributes comment_sweep
  by (simp add: Postprocess_forest_def comment_content_def)

lemma comment_second:
  "Postprocess (Postprocess comment_content) = Element 10 ''div'' [] []"
proof -
  have 3: "[0 ..< 3] = [0, 1, 2 :: nat]" by (simp add: upt_rec)
  have "RemoveUnwantedFromContent
          [Element 11 ''a'' [(''href'', runes ''x'')] [CommentNode (runes ''a > b'')]] = []"
    by (simp add: RemoveUnwantedFromContent_def remove_all_def each_remove_prune
      unwantedPatterns_def unwanted_tag_def unwanted_pattern_def attr_contains_def is_tag_def
      empty_link_def Find_def TrimSpace_def)
  moreover have "RemoveEmptyElements [] = []"
    by (simp add: RemoveEmptyElements_def 3 each_remove_def)
  ultimately show ?thesis
    by (simp add: comment_first Postprocess_forest_def)
qed

lemma sample_regular:
  "distinct (ids sample_content)"
  "every_list regular_node (children sample_content)"
  by (simp_all add: sample_content_def runes_def voidElements_def)

lemma sample_unwanted:
  "RemoveUnwantedFromContent (children sample_content) = children sample_content"
  by (simp add: sample_content_def RemoveUnwantedFromContent_def remove_all_def each_remove_prune
      unwantedPatterns_def unwanted_tag_def unwanted_pattern_def attr_contains_def is_tag_def
      empty_link_def Find_def runes_def)

lemma sample_first:
  "Postprocess sample_content
     = Element 20 ''div'' [] [Element 21 ''p'' [] [TextNode (runes ''Hi'')]]"
proof -
  let ?c = "[Element 21 ''p'' [] [TextNode (runes ''Hi'')],
      Element 22 ''span'' [] [],
      Element 23 ''a'' [(''href'', runes ''x'')] [Element 24 ''img'' [(''src'', runes ''y'')] []]]"
  have c: "CleanAttributes (children sample_content) = ?c"
    by (simp add: sample_content_def clean_attrs_def allowedAttributes_def RemoveAttr_def)
  have "RemoveEmptyElements ?c = prune_list blank_element ?c"
    by (rule RemoveEmptyElements_blank) (simp_all add: runes_def voidElements_def)
  also have "\<dots> = [Element 21 ''p'' [] [TextNode (runes ''Hi'')]]"
    by (simp add: blank_element_def runes_def IsSpace_def)
  finally show ?thesis
    using sample_unwanted c by (simp add: Postprocess_forest_def sample_content_def)
qed

text \<open>
  Claim C1.  For every node and every minimum length, the paragraph score is 0 when
  the normalized text has fewer code points than the minimum, and otherwise it is
  1, plus 1 for each comma (ASCII or fullwidth), plus the number of whole 50-rune
  chunks capped at 3.  The comma part has no upper bound: a paragraph of \<open>k\<close> commas
  scores more than \<open>k\<close>.
\<close>

theorem C1_ScoreParagraph:
  "ScoreParagraph sel minLength =
     (if int (length (GetText sel)) < minLength then 0
      else 1 + real (length (filter (\<lambda>r. r = 0x2C \<or> r = 0xFF0C) (GetText sel)))
             + real_of_int (min (int (length (GetText sel)) div 50) 3))
   \<and> (\<forall>k. real k < ScoreParagraph (Element 0 ''p'' [] [TextNode (replicate k 0x2C)]) 0)"
proof
  show "ScoreParagraph sel minLength =
     (if int (length (GetText sel)) < minLength then 0
      else 1 + real (length (filter (\<lambda>r. r = 0x2C \<or> r = 0xFF0C) (GetText sel)))
             + real_of_int (min (int (length (GetText sel)) div 50) 3))"
    by (rule ScoreParagraph_formula)
next
  show "\<forall>k. real k < ScoreParagraph (Element 0 ''p'' [] [TextNode (replicate k 0x2C)]) 0"
  proof
    fix k :: nat
    have t: "GetText (Element 0 ''p'' [] [TextNode (replicate k 0x2C)]) = replicate k 0x2C"
      by (simp add: GetText_def NormalizeText_commas)
    have "0 \<le> real_of_int (min (int k div 50) 3)" by simp
    then show "real k < ScoreParagraph (Element 0 ''p'' [] [TextNode (replicate k 0x2C)]) 0"
      by (simp add: ScoreParagraph_def Let_def CountCommas_filter ParagraphBaseScore_def
          CommaBonus_def LengthChunkSize_def MaxLengthBonus_def t)
  qed
qed

text \<open>
  Claim C2 as stated fails.  \<open>tie_doc\<close> has two blocks (nodes 2 and 4) tied at the
  maximal weighted score 6.  When the range loop yields the entries in the order
  in which they were stored, node 2 is selected; when it yields them in the reverse
  order, node 4 is selected, which is not the earlier one in document order.  Go
  does not fix the order of a range loop over a map, so both runs can occur.
\<close>

theorem C2_counterexample:
  "map entry_weighted (snd (Scorer_Score rev 25 tie_doc)) = [(Some 2, 6), (Some 1, 1), (Some 4, 6)]
   \<and> candidate_id (fst (Scorer_Score rev 25 tie_doc)) = Some 4
   \<and> candidate_id (fst (Scorer_Score id 25 tie_doc)) = Some 2"
  unfolding Scorer_Score_def Let_def tie_refined
  by (simp add: entry_weighted_def candidate_id_def GetTopCandidate_def tie_weighted
      tie_entry_ids)

text \<open>
  Claim C2, amended.  Over the entries in the order the range loop yields them:
  no candidate is returned when every weighted score is at most \<open>-1\<close>; a returned
  candidate is an entry of the map, has a weighted score above \<open>-1\<close>, maximizes the
  weighted score over all entries, and among the entries tied at the maximum it is
  the one the loop yields first.
\<close>

theorem C2_GetTopCandidate:
  "(GetTopCandidate yielded = None \<longleftrightarrow> (\<forall>ns\<in>set yielded. GetWeightedScore ns \<le> - 1)) \<and>
   (\<forall>t. GetTopCandidate yielded = Some t \<longrightarrow>
      (\<exists>pre post. yielded = pre @ t # post \<and> - 1 < GetWeightedScore t \<and>
         (\<forall>ns\<in>set pre. GetWeightedScore ns < GetWeightedScore t) \<and>
         (\<forall>ns\<in>set post. GetWeightedScore ns \<le> GetWeightedScore t)))"
  using GetTopCandidate_None_iff [of yielded] GetTopCandidate_Some [of yielded] by blast

theorem C2_GetTopCandidate_witness:
  "GetTopCandidate [tie_entry_div2, tie_entry_body, tie_entry_div1] = Some tie_entry_div2 \<and>
   (\<exists>pre post. [tie_entry_div2, tie_entry_body, tie_entry_div1] = pre @ tie_entry_div2 # post \<and>
      - 1 < GetWeightedScore tie_entry_div2 \<and>
      (\<forall>ns\<in>set pre. GetWeightedScore ns < GetWeightedScore tie_entry_div2) \<and>
      (\<forall>ns\<in>set post. GetWeightedScore ns \<le> GetWeightedScore tie_entry_div2))"
proof -
  have g: "GetTopCandidate [tie_entry_div2, tie_entry_body, tie_entry_div1] = Some tie_entry_div2"
    by (simp add: GetTopCandidate_def tie_weighted)
  with C2_GetTopCandidate [of "[tie_entry_div2, tie_entry_body, tie_entry_div1]"]
  show ?thesis by blast
qed

text \<open>
  Claim C3.  Refinement replaces the content score of an entry by
  \<open>score * (1 - linkDensity)\<close> exactly when its link density exceeds its ceiling
  (0.5 for a weight of at least 0, else 0.2) and changes nothing else.
  \<open>Scorer_Score\<close> refines the propagated map once, and that map holds one entry per node,
  so the penalty reaches every node once.
\<close>

theorem C3_RefineScores:
  "RefineScores sm =
     map (\<lambda>ns. ns\<lparr>ContentScore :=
            (if LinkDensity ns > (if Weight ns \<ge> 0 then 0.5 else 0.2)
             then ContentScore ns * (1 - LinkDensity ns)
             else ContentScore ns)\<rparr>) sm
   \<and> snd (Scorer_Score range_order m doc) = RefineScores (ScoreAndPropagate doc m)
   \<and> distinct (map (node_id \<circ> Selection) (ScoreAndPropagate doc m))"
proof (intro conjI)
  show "RefineScores sm =
     map (\<lambda>ns. ns\<lparr>ContentScore :=
            (if LinkDensity ns > (if Weight ns \<ge> 0 then 0.5 else 0.2)
             then ContentScore ns * (1 - LinkDensity ns)
             else ContentScore ns)\<rparr>) sm"
    by (simp add: RefineScores_def IsHighLinkDensity_def SetScore_def
        HighWeightLinkDensityMax_def LowWeightLinkDensityMax_def)
  show "snd (Scorer_Score range_order m doc) = RefineScores (ScoreAndPropagate doc m)"
    by (simp add: Scorer_Score_def Let_def)
  show "distinct (map (node_id \<circ> Selection) (ScoreAndPropagate doc m))"
    by (rule distinct_keys_ScoreAndPropagate)
qed

text \<open>
  Claim C4 on \<open>form_doc\<close>.  After the first paragraph the form (node 2) holds the
  content score \<open>-3 + 3 = 0\<close>.  The second paragraph finds the stored score at 0
  and runs the initialisation again: the tag penalty \<open>-3\<close> is added a second time
  (and weight, link density and text length are written again), so the content score
  of the form falls from 0 to \<open>-2\<close> during propagation.  One initialisation would
  have given \<open>-3 + 3 + 1 = 1\<close>.
\<close>

theorem C4_reinitialised:
  "map entry_content (foldl (propagate_paragraph 25) [] (take 1 (paragraphs_list None None form_doc)))
     = [(Some 2, 0), (Some 1, 3 / 2)]
   \<and> map entry_content (PropagateScores form_doc [] 25) = [(Some 2, - 2), (Some 1, 2)]"
  by (simp add: PropagateScores_def form_paragraphs propagate_paragraph_def form_scores
      contribute_def Get_def same_node_def form_nodes NewNodeScore_def plain_init form_no_links
      put_def AddScore_def entry_content_def GetTagScore_def FormAddressPenalty_def
      ParentScoreProportion_def GrandparentScoreProportion_def)

text \<open>
  Claim C5 as stated fails.  In \<open>nested_doc\<close> the inner block (node 4) is a
  \<^verbatim>\<open>div\<close> whose class matches the blacklist, with 200 characters of text and link
  density 0; yet it is gone after the sweep, because the sweep removes the block that
  contains it (node 2, link density 0.6).
\<close>

theorem C5_counterexample:
  "lookup_list 4 nested_doc = Some nested_inner
   \<and> GetTagName nested_inner = ''div''
   \<and> IsBlacklisted (GetAttribute nested_inner ''class'' @ [0x20] @ GetAttribute nested_inner ''id'')
   \<and> GetTextLength nested_inner = 200
   \<and> CalculateLinkDensity nested_inner = 0
   \<and> blacklist_sweep nested_doc = [Element 0 ''html'' [] [Element 1 ''body'' [] []]]
   \<and> lookup_list 4 (blacklist_sweep nested_doc) = None"
  by (simp add: nested_facts nested_tags nested_lengths nested_density nested_swept)

text \<open>
  Claim C5, amended.  In a document whose elements have distinct identities, take an
  element with its chain of ancestors.  The element is no longer in the document
  after the sweep exactly when the element or one of its ancestors is not
  body/html/article/main, has a class and id text that matches the blacklist and not
  the whitelist, and has a normalized text shorter than 200 characters or a link
  density above 0.5 (all taken before the sweep).  In particular an element with at
  least 200 characters of text and a link density of at most 0.5 survives the sweep
  whenever the sweep's test removes none of its ancestors.
\<close>

theorem C5_blacklist_sweep:
  assumes "distinct (ids_list doc)"
    and "path_to_list i doc = Some (ancestors @ [e])"
  shows "(i \<notin> set (ids_list (blacklist_sweep doc)) \<longleftrightarrow>
            (\<exists>m\<in>set (ancestors @ [e]).
               GetTagName m \<notin> {''body'', ''html'', ''article'', ''main''} \<and>
               \<not> IsWhitelisted (GetAttribute m ''class'' @ [0x20] @ GetAttribute m ''id'') \<and>
               IsBlacklisted (GetAttribute m ''class'' @ [0x20] @ GetAttribute m ''id'') \<and>
               (GetTextLength m < 200 \<or> CalculateLinkDensity m > 0.5)))
       \<and> (GetTextLength e \<ge> 200 \<and> CalculateLinkDensity e \<le> 0.5 \<and>
            (\<forall>m\<in>set ancestors. \<not> sweep_removes m)
            \<longrightarrow> i \<in> set (ids_list (blacklist_sweep doc)))"
proof -
  have sw: "blacklist_sweep doc = prune_list (\<lambda>s. any_element s \<and> sweep_removes s) doc"
    unfolding blacklist_sweep_def using assms(1) by (rule each_remove_prune)
  have "i \<in> set (ids_list (blacklist_sweep doc)) \<longleftrightarrow>
               (\<forall>m\<in>set (ancestors @ [e]). \<not> (any_element m \<and> sweep_removes m))"
    unfolding sw using assms by (rule survives_prune(2))
  moreover have "\<forall>m\<in>set (ancestors @ [e]). any_element m"
    using assms(2) by (rule path_to_elements(2))
  ultimately have iff: "i \<notin> set (ids_list (blacklist_sweep doc)) \<longleftrightarrow>
               (\<exists>m\<in>set (ancestors @ [e]). sweep_removes m)"
    by blast
  have long: "\<not> sweep_removes e"
    if "GetTextLength e \<ge> 200" and "CalculateLinkDensity e \<le> 0.5"
    using that by (auto simp: sweep_removes_iff)
  show ?thesis
  proof (intro conjI impI)
    show "i \<notin> set (ids_list (blacklist_sweep doc)) \<longleftrightarrow>
            (\<exists>m\<in>set (ancestors @ [e]).
               GetTagName m \<notin> {''body'', ''html'', ''article'', ''main''} \<and>
               \<not> IsWhitelisted (GetAttribute m ''class'' @ [0x20] @ GetAttribute m ''id'') \<and>
               IsBlacklisted (GetAttribute m ''class'' @ [0x20] @ GetAttribute m ''id'') \<and>
               (GetTextLength m < 200 \<or> CalculateLinkDensity m > 0.5))"
      using iff sweep_removes_iff by blast
  next
    assume "GetTextLength e \<ge> 200 \<and> CalculateLinkDensity e \<le> 0.5 \<and>
            (\<forall>m\<in>set ancestors. \<not> sweep_removes m)"
    with long iff show "i \<in> set (ids_list (blacklist_sweep doc))"
      by auto
  qed
qed

theorem C5_blacklist_sweep_witness:
  "distinct (ids_list keep_doc)
   \<and> path_to_list 2 keep_doc = Some ([keep_html, keep_body] @ [keep_div])
   \<and> IsBlacklisted (GetAttribute keep_div ''class'' @ [0x20] @ GetAttribute keep_div ''id'')
   \<and> GetTextLength keep_div = 200
   \<and> CalculateLinkDensity keep_div = 0
   \<and> 2 \<in> set (ids_list (blacklist_sweep keep_doc))
   \<and> distinct (ids_list nested_doc)
   \<and> path_to_list 4 nested_doc = Some ([nested_html, nested_body, nested_outer] @ [nested_inner])
   \<and> GetTextLength nested_outer = 500
   \<and> CalculateLinkDensity nested_outer = 3 / 5
   \<and> 4 \<notin> set (ids_list (blacklist_sweep nested_doc))"
proof -
  have d: "CalculateLinkDensity keep_div = 0"
    using keep_facts(5) by (rule no_links_density)
  have "2 \<in> set (ids_list (blacklist_sweep keep_doc))"
    using C5_blacklist_sweep [OF keep_facts(3) keep_facts(4)] keep_ancestors
    by (simp add: keep_length d)
  moreover have "4 \<notin> set (ids_list (blacklist_sweep nested_doc))"
    using C5_blacklist_sweep [OF nested_facts(5) nested_path] nested_removes(3)
    by (simp add: sweep_removes_iff)
  ultimately show ?thesis
    by (simp add: keep_facts keep_length d nested_facts nested_path nested_lengths nested_density)
qed

text \<open>
  Claim C6.  Whenever extraction returns an article, the byte length of its text
  content is at least \<^verbatim>\<open>MinContentLength\<close>, its confidence lies between 0 and 1, and
  its word count is the number of whitespace-delimited tokens of its text content.
\<close>

theorem C6_article:
  assumes "extractFromDocument env config doc baseURL = Inr art"
  shows "MinContentLength config \<le> go_len (TextContent art)
       \<and> 0 \<le> Confidence art \<and> Confidence art \<le> 1
       \<and> WordCount art = int (length (ws_tokens (TextContent art)))"
proof (cases rule: extractFromDocument_cases [of env config doc baseURL])
  case no_candidate
  with assms show ?thesis by simp
next
  case (too_short candidate)
  with assms show ?thesis by simp
next
  case (article candidate scoreMap art')
  with assms have "art' = art" by simp
  with article show ?thesis
    by (simp add: calculateConfidence_range CountWords_tokens)
qed

theorem C6_article_witness:
  "extractFromDocument plain_env small_config mini_doc [] = Inr mini_article
   \<and> MinContentLength small_config \<le> go_len (TextContent mini_article)
   \<and> 0 \<le> Confidence mini_article \<and> Confidence mini_article \<le> 1
   \<and> WordCount mini_article = int (length (ws_tokens (TextContent mini_article)))"
  using C6_article [OF mini_extracted] mini_extracted by simp

text \<open>
  Claim C7.  The metadata extractors (title, author, date, lead image) always return:
  none of their slices and indices is out of range.  On a document that offers them
  nothing (no attribute, no \<^verbatim>\<open>h1\<close>, no \<^verbatim>\<open>title\<close>) the title and the author are
  empty and the date and the lead image are absent; the date is also absent when no
  layout parses.  Whatever they return, the call then ends in exactly one of three
  ways: with the no-content error when scoring finds no top candidate; with the
  too-short error when the cleaned text of the candidate is shorter than
  \<^verbatim>\<open>MinContentLength\<close>; and otherwise with an article that carries the extracted
  metadata, be it empty or absent, next to the cleaned content.  The call never
  panics.
\<close>

theorem C7_failures:
  "\<exists>title author date.
      ExtractTitle doc = Some title \<and> ExtractAuthor env doc = Some author
    \<and> ExtractDate env doc = Some date
    \<and> (every_list (\<lambda>n. attrs n = [] \<and> GetTagName n \<noteq> ''h1'' \<and> GetTagName n \<noteq> ''title'') doc
         \<longrightarrow> title = [] \<and> author = [] \<and> date = None \<and> extractLeadImage doc baseURL = None)
    \<and> ((\<forall>layout v. time_Parse env layout v = None) \<longrightarrow> date = None)
    \<and> (case fst (Scorer_Score (range_top env) (MinParagraphLength config) (Preprocess env doc)) of
          None \<Rightarrow>
            extractFromDocument env config doc baseURL
              = Inl (Returned (NewExtractionError ''extract'' baseURL ErrNoContent))
        | Some candidate \<Rightarrow>
            if go_len (GetCleanText (cleanedContent env config doc baseURL candidate))
                 < MinContentLength config
            then extractFromDocument env config doc baseURL
                   = Inl (Returned (NewExtractionError ''validate'' baseURL ErrContentTooShort))
            else \<exists>art. extractFromDocument env config doc baseURL = Inr art
                   \<and> Title art = title \<and> Author art = author \<and> PublishedAt art = date
                   \<and> LeadImage art = extractLeadImage doc baseURL
                   \<and> Content art = GetCleanHTML (cleanedContent env config doc baseURL candidate)
                   \<and> TextContent art = GetCleanText (cleanedContent env config doc baseURL candidate)
                   \<and> URL art = baseURL)"
proof -
  obtain title author date where m:
    "ExtractTitle doc = Some title" "ExtractAuthor env doc = Some author"
    "ExtractDate env doc = Some date"
    by (rule metadata_returns)
  have bare: "title = [] \<and> author = [] \<and> date = None \<and> extractLeadImage doc baseURL = None"
    if b: "every_list (\<lambda>n. attrs n = [] \<and> GetTagName n \<noteq> ''h1'' \<and> GetTagName n \<noteq> ''title'') doc"
  proof -
    have a: "every_list (\<lambda>n. attrs n = []) doc" by (rule every_mono(2) [OF b]) simp
    show ?thesis
      using m bare_ExtractTitle [OF b] bare_ExtractAuthor [OF a, of env]
        bare_ExtractDate [OF a, of env] bare_extractLeadImage [OF a, of baseURL]
      by simp
  qed
  have unparsed: "date = None" if "\<forall>layout v. time_Parse env layout v = None"
    using m unparsed_ExtractDate [OF that, of doc] by simp
  have outcome:
    "case fst (Scorer_Score (range_top env) (MinParagraphLength config) (Preprocess env doc)) of
          None \<Rightarrow>
            extractFromDocument env config doc baseURL
              = Inl (Returned (NewExtractionError ''extract'' baseURL ErrNoContent))
        | Some candidate \<Rightarrow>
            if go_len (GetCleanText (cleanedContent env config doc baseURL candidate))
                 < MinContentLength config
            then extractFromDocument env config doc baseURL
                   = Inl (Returned (NewExtractionError ''validate'' baseURL ErrContentTooShort))
            else \<exists>art. extractFromDocument env config doc baseURL = Inr art
                   \<and> Title art = title \<and> Author art = author \<and> PublishedAt art = date
                   \<and> LeadImage art = extractLeadImage doc baseURL
                   \<and> Content art = GetCleanHTML (cleanedContent env config doc baseURL candidate)
                   \<and> TextContent art = GetCleanText (cleanedContent env config doc baseURL candidate)
                   \<and> URL art = baseURL"
  proof (cases rule: extractFromDocument_cases [of env config doc baseURL])
    case no_candidate
    then show ?thesis by simp
  next
    case (too_short candidate)
    then show ?thesis by simp
  next
    case (article candidate scoreMap art)
    with m show ?thesis by simp
  qed
  from m bare unparsed outcome show ?thesis by blast
qed

theorem C7_failures_witness:
  "every_list (\<lambda>n. attrs n = [] \<and> GetTagName n \<noteq> ''h1'' \<and> GetTagName n \<noteq> ''title'') mini_doc
   \<and> (\<forall>layout v. time_Parse plain_env layout v = None)
   \<and> ExtractTitle mini_doc = Some [] \<and> ExtractAuthor plain_env mini_doc = Some []
   \<and> ExtractDate plain_env mini_doc = Some None \<and> extractLeadImage mini_doc [] = None
   \<and> fst (Scorer_Score (range_top plain_env) (MinParagraphLength default_config)
            (Preprocess plain_env mini_doc)) \<noteq> None
   \<and> extractFromDocument plain_env default_config mini_doc []
        = Inl (Returned (NewExtractionError ''validate'' [] ErrContentTooShort))
   \<and> extractFromDocument plain_env small_config mini_doc [] = Inr mini_article
   \<and> Title mini_article = [] \<and> Author mini_article = [] \<and> PublishedAt mini_article = None
   \<and> LeadImage mini_article = None"
  using C7_failures [of mini_doc plain_env "[]" default_config]
    C7_failures [of mini_doc plain_env "[]" small_config]
    mini_bare mini_env mini_metadata mini_too_short mini_extracted
  by (auto split: option.splits if_splits)




text \<open>
  Claim C9 as stated fails.  The content is a link around a wrapped image and a
  comment, \<^verbatim>\<open><a href=x><span><img src=y></span><!--a > b--></a>\<close>.  The first pass keeps
  the link, because it has an image below it and because the tag pattern stops at the
  \<^verbatim>\<open>>\<close> inside the comment and leaves \<^verbatim>\<open>b-->\<close> behind; it removes the wrapper with
  the image.  The second pass finds a link without text and without image and removes
  it: the serialisation after two passes is empty, after one pass it is not.
\<close>

theorem C9_counterexample:
  "Html (Postprocess comment_content) = runes ''<a href=\"x\"><!--a > b--></a>''
   \<and> Html (Postprocess (Postprocess comment_content)) = []"
proof
  show "Html (Postprocess comment_content) = runes ''<a href=\"x\"><!--a > b--></a>''"
    unfolding comment_first
    by (simp add: Html_def runes_def voidElements_def childTextNodesAreLiteral_def
        render_attr_def escape_def escape_rune_def escapeComment_def initial_newline_def)
  show "Html (Postprocess (Postprocess comment_content)) = []"
    unfolding comment_second by (simp add: Html_def)
qed

text \<open>
  Claim C9, amended.  On a content tree with distinct nodes whose nodes below the
  selection are regular (no carriage return in a text node, no \<^verbatim>\<open>>\<close> in a comment;
  tag and attribute names without \<^verbatim>\<open>>\<close>, void elements without children and no
  \<^verbatim>\<open>plaintext\<close> element, as the parser builds them), postprocessing is idempotent: a
  second pass leaves the tree, and so its serialisation, as the first pass left it.
\<close>

theorem C9_Postprocess:
  assumes "distinct (ids sel)" and "every_list regular_node (children sel)"
  shows "Postprocess (Postprocess sel) = Postprocess sel
       \<and> Html (Postprocess (Postprocess sel)) = Html (Postprocess sel)"
proof (cases sel)
  case (Element i t a cs)
  with assms have "distinct (ids_list cs)" "every_list regular_node cs" by simp_all
  then have "Postprocess_forest (Postprocess_forest cs) = Postprocess_forest cs"
    by (rule Postprocess_forest_idem)
  then show ?thesis by (simp add: Element)
qed simp_all

theorem C9_Postprocess_witness:
  "distinct (ids sample_content)
   \<and> every_list regular_node (children sample_content)
   \<and> Postprocess sample_content = Element 20 ''div'' [] [Element 21 ''p'' [] [TextNode (runes ''Hi'')]]
   \<and> Postprocess (Postprocess sample_content) = Postprocess sample_content
   \<and> Html (Postprocess (Postprocess sample_content)) = Html (Postprocess sample_content)"
  using C9_Postprocess [OF sample_regular] sample_regular sample_first by simp

text \<open>
  Claim C10.  The top-candidate lookup returns a candidate if and only if some
  entry it ranges over has a weighted score strictly above \<open>-1\<close>.  Hence, when the
  range loop yields exactly the entries of the score map of the preprocessed
  document and every one of them has a weighted score of at most \<open>-1\<close>, extraction
  fails with the no-content error, however many entries the map holds.
\<close>

theorem C10_no_candidate:
  "(GetTopCandidate yielded \<noteq> None \<longleftrightarrow> (\<exists>ns\<in>set yielded. - 1 < GetWeightedScore ns))
   \<and> (scoreMap = snd (Scorer_Score (range_top env) (MinParagraphLength config) (Preprocess env doc))
        \<and> set (range_top env scoreMap) = set scoreMap
        \<and> (\<forall>ns\<in>set scoreMap. GetWeightedScore ns \<le> - 1)
      \<longrightarrow> extractFromDocument env config doc baseURL
            = Inl (Returned (NewExtractionError ''extract'' baseURL ErrNoContent)))"
proof (intro conjI impI)
  show "GetTopCandidate yielded \<noteq> None \<longleftrightarrow> (\<exists>ns\<in>set yielded. - 1 < GetWeightedScore ns)"
    using GetTopCandidate_None_iff [of yielded] by (auto simp: not_le)
next
  assume a: "scoreMap = snd (Scorer_Score (range_top env) (MinParagraphLength config) (Preprocess env doc))
        \<and> set (range_top env scoreMap) = set scoreMap
        \<and> (\<forall>ns\<in>set scoreMap. GetWeightedScore ns \<le> - 1)"
  have "fst (Scorer_Score (range_top env) (MinParagraphLength config) (Preprocess env doc))
          = GetTopCandidate (range_top env scoreMap)"
    using a by (simp add: Scorer_Score_def Let_def)
  also have "\<dots> = None"
  proof -
    from a have s: "set (range_top env scoreMap) = set scoreMap"
      by (elim conjE)
    from a have b: "\<forall>ns\<in>set scoreMap. GetWeightedScore ns \<le> - 1"
      by (elim conjE)
    from b have "\<forall>ns\<in>set (range_top env scoreMap). GetWeightedScore ns \<le> - 1"
      unfolding s .
    then show ?thesis by (simp only: GetTopCandidate_None_iff)
  qed
  finally show "extractFromDocument env config doc baseURL
            = Inl (Returned (NewExtractionError ''extract'' baseURL ErrNoContent))"
    by (cases rule: extractFromDocument_cases [of env config doc baseURL]) simp_all
qed

theorem C10_no_candidate_witness:
  "snd (Scorer_Score (range_top plain_env) (MinParagraphLength small_config)
          (Preprocess plain_env neg_doc)) = [neg_entry_body, neg_entry_html]
   \<and> GetWeightedScore neg_entry_body = - 24 \<and> GetWeightedScore neg_entry_html = - 49 / 2
   \<and> extractFromDocument plain_env small_config neg_doc []
       = Inl (Returned (NewExtractionError ''extract'' [] ErrNoContent))"
proof -
  have s: "snd (Scorer_Score (range_top plain_env) (MinParagraphLength small_config)
          (Preprocess plain_env neg_doc)) = [neg_entry_body, neg_entry_html]"
    by (simp add: small_config_def neg_preprocess neg_scored)
  have r: "set (range_top plain_env [neg_entry_body, neg_entry_html])
             = set [neg_entry_body, neg_entry_html]"
    by (simp add: plain_env_def)
  have "extractFromDocument plain_env small_config neg_doc []
       = Inl (Returned (NewExtractionError ''extract'' [] ErrNoContent))"
    using C10_no_candidate [of "[]" "[neg_entry_body, neg_entry_html]" plain_env small_config
        neg_doc "[]"] s r
    by (simp add: neg_weighted)
  with s show ?thesis by (simp add: neg_weighted)
qed

end
